(* ===== verification/Prelude.thy ===== *)
theory Prelude
  imports Main "HOL-Library.State_Monad" "HOL-Library.Word"
begin

text \<open>
  Shared vocabulary of the development.

  \<^item> Go's string helpers (package \<open>strings\<close> and \<open>strconv\<close>), for the byte strings the
    operator handles: \<open>Split\<close>, \<open>Join\<close>, \<open>HasPrefix\<close>, \<open>Contains\<close>, \<open>TrimSpace\<close>,
    \<open>EqualFold\<close>, \<open>Itoa\<close>, \<open>Atoi\<close>, with the lemmas that make them inverse to each other.
    White space and letter case are those of ASCII: Kubernetes object names are ASCII.
  \<^item> Go's maps with string keys: \<open>gomap\<close>, where \<open>None\<close> is the \<open>nil\<close> map (reading it finds
    nothing, deleting from it does nothing, writing to it panics).
  \<^item> 64-bit wrap-around of \<open>int\<close> arithmetic.
  \<^item> Weakest preconditions for the state monad in which the controllers are written.
\<close>

section \<open>Collections of facts\<close>

named_theorems wp_simps \<open>equations that compute weakest preconditions\<close>
named_theorems go_simps \<open>evaluation of the Go library functions on concrete arguments\<close>
named_theorems frame_simps \<open>what an operation leaves alone\<close>

section \<open>Go strings\<close>

text \<open>\<open>strings.Split(s, sep)\<close> for a separator of one byte: never the empty slice.\<close>

fun Split :: "char \<Rightarrow> string \<Rightarrow> string list" where
  "Split c [] = [[]]"
| "Split c (x # xs) =
     (if x = c then [] # Split c xs
      else (case Split c xs of [] \<Rightarrow> [[x]] | y # ys \<Rightarrow> (x # y) # ys))"

fun Join :: "string list \<Rightarrow> string \<Rightarrow> string" where
  "Join [] sep = []"
| "Join [x] sep = x"
| "Join (x # y # ys) sep = x @ sep @ Join (y # ys) sep"

fun HasPrefix :: "string \<Rightarrow> string \<Rightarrow> bool" where
  "HasPrefix s [] = True"
| "HasPrefix [] (p # ps) = False"
| "HasPrefix (x # xs) (p # ps) = (x = p \<and> HasPrefix xs ps)"

fun Contains :: "string \<Rightarrow> string \<Rightarrow> bool" where
  "Contains [] sub = (sub = [])"
| "Contains (x # xs) sub = (HasPrefix (x # xs) sub \<or> Contains xs sub)"

definition is_space :: "char \<Rightarrow> bool" where
  "is_space c \<longleftrightarrow> c = CHR 0x20 \<or> c = CHR 0x09 \<or> c = CHR 0x0A \<or> c = CHR 0x0B \<or> c = CHR 0x0C \<or> c = CHR 0x0D"

definition TrimSpace :: "string \<Rightarrow> string" where
  "TrimSpace s = rev (dropWhile is_space (rev (dropWhile is_space s)))"

text \<open>Simple case folding of the ASCII letters.\<close>

definition lower :: "char \<Rightarrow> char" where
  "lower c = (let n = of_char c :: nat in if 65 \<le> n \<and> n \<le> 90 then char_of (n + 32) else c)"

definition EqualFold :: "string \<Rightarrow> string \<Rightarrow> bool" where
  "EqualFold s t \<longleftrightarrow> map lower s = map lower t"

lemma Split_neq_Nil [simp]: "Split c s \<noteq> []"
  by (induction s) (auto split: list.splits)

lemma Split_Cons_ex: "\<exists>y ys. Split c s = y # ys"
  using Split_neq_Nil [of c s] by (cases "Split c s") blast+

lemma Join_Cons: "xs \<noteq> [] \<Longrightarrow> Join (x # xs) sep = x @ sep @ Join xs sep"
  by (cases xs) auto

lemma Join_Split [simp]: "Join (Split c s) [c] = s"
proof (induction s)
  case Nil
  then show ?case by simp
next
  case (Cons x xs)
  obtain y ys where yys: "Split c xs = y # ys" using Split_Cons_ex by blast
  with Cons.IH show ?case by (cases ys) auto
qed

lemma Split_no_sep: "c \<notin> set s \<Longrightarrow> Split c s = [s]"
  by (induction s) auto

lemma Split_append_sep: "c \<notin> set s \<Longrightarrow> Split c (s @ c # t) = s # Split c t"
  by (induction s) auto

lemma Split_snoc: "c \<notin> set t \<Longrightarrow> Split c (s @ c # t) = Split c s @ [t]"
proof (induction s)
  case Nil
  then show ?case by (simp add: Split_no_sep)
next
  case (Cons x xs)
  then obtain y ys where "Split c xs = y # ys" using Split_Cons_ex by blast
  with Cons show ?case by auto
qed

lemma Split_Join:
  "xs \<noteq> [] \<Longrightarrow> \<forall>x \<in> set xs. c \<notin> set x \<Longrightarrow> Split c (Join xs [c]) = xs"
proof (induction xs rule: induct_list012)
  case 1
  then show ?case by simp
next
  case (2 x)
  then show ?case by (simp add: Split_no_sep)
next
  case (3 x y zs)
  then show ?case by (simp add: Split_append_sep)
qed

lemma Split_parts_no_sep: "x \<in> set (Split c s) \<Longrightarrow> c \<notin> set x"
proof (induction s arbitrary: x)
  case Nil
  then show ?case by simp
next
  case (Cons a s)
  obtain y ys where yys: "Split c s = y # ys" using Split_Cons_ex by blast
  with Cons.IH have "c \<notin> set y" "\<And>z. z \<in> set ys \<Longrightarrow> c \<notin> set z" by auto
  with yys Cons.prems show ?case by (auto split: if_splits)
qed

lemma Split_eq_empty_iff: "Split c s = [[]] \<longleftrightarrow> s = []"
proof
  assume "Split c s = [[]]"
  then have "Join (Split c s) [c] = []" by simp
  then show "s = []" by simp
qed simp

lemma Join_snoc: "xs \<noteq> [] \<Longrightarrow> Join (xs @ [x]) sep = Join xs sep @ sep @ x"
  by (induction xs rule: induct_list012) (auto simp: Join_Cons)

lemma Join_eq_Nil_iff: "sep \<noteq> [] \<Longrightarrow> Join xs sep = [] \<longleftrightarrow> xs = [] \<or> xs = [[]]"
  by (induction xs sep rule: Join.induct) auto

lemma HasPrefix_iff: "HasPrefix s p \<longleftrightarrow> (\<exists>t. s = p @ t)"
  by (induction s p rule: HasPrefix.induct) auto

lemma HasPrefix_append [simp]: "HasPrefix (p @ s) p"
  by (auto simp: HasPrefix_iff)

lemma Contains_iff: "Contains s sub \<longleftrightarrow> (\<exists>a b. s = a @ sub @ b)"
proof (induction s)
  case Nil
  then show ?case by auto
next
  case (Cons x xs)
  show ?case
  proof
    assume "Contains (x # xs) sub"
    then consider "HasPrefix (x # xs) sub" | "Contains xs sub" by auto
    then show "\<exists>a b. x # xs = a @ sub @ b"
    proof cases
      case 1
      then obtain b where "x # xs = [] @ sub @ b" by (auto simp: HasPrefix_iff)
      then show ?thesis by blast
    next
      case 2
      then obtain a b where "xs = a @ sub @ b" using Cons.IH by blast
      then have "x # xs = (x # a) @ sub @ b" by simp
      then show ?thesis by blast
    qed
  next
    assume "\<exists>a b. x # xs = a @ sub @ b"
    then obtain a b where ab: "x # xs = a @ sub @ b" by blast
    show "Contains (x # xs) sub"
    proof (cases a)
      case Nil
      with ab have "HasPrefix (x # xs) sub" by (simp only: HasPrefix_append append_Nil)
      then show ?thesis by simp
    next
      case (Cons y ys)
      with ab have "xs = ys @ sub @ b" by simp
      with \<open>Contains xs sub = (\<exists>a b. xs = a @ sub @ b)\<close> show ?thesis by auto
    qed
  qed
qed

text \<open>A member of a comma separated list is a substring of it (the converse fails).\<close>

lemma Split_member_Contains:
  assumes "x \<in> set (Split c s)"
  shows "Contains s x"
proof -
  from assms obtain as bs where "Split c s = as @ x # bs" by (meson split_list)
  then have "s = Join (as @ x # bs) [c]" by (metis Join_Split)
  moreover have "\<exists>a b. Join (as @ x # bs) [c] = a @ x @ b"
  proof (induction as)
    case Nil
    show ?case by (cases bs) (auto intro: exI [of _ "[]"])
  next
    case (Cons y as)
    then obtain a b where "Join (as @ x # bs) [c] = a @ x @ b" by blast
    then have "Join ((y # as) @ x # bs) [c] = (y @ [c] @ a) @ x @ b"
      by (simp add: Join_Cons)
    then show ?case by blast
  qed
  ultimately show ?thesis by (auto simp: Contains_iff)
qed

lemma EqualFold_refl [simp]: "EqualFold s s"
  by (simp add: EqualFold_def)

lemma EqualFold_sym: "EqualFold s t \<longleftrightarrow> EqualFold t s"
  by (auto simp: EqualFold_def)

lemma TrimSpace_Nil [simp]: "TrimSpace [] = []"
  by (simp add: TrimSpace_def)

lemma TrimSpace_id:
  assumes "\<forall>c \<in> set s. \<not> is_space c"
  shows "TrimSpace s = s"
proof -
  have drop: "dropWhile is_space xs = xs" if "\<forall>c \<in> set xs. \<not> is_space c" for xs
    using that by (cases xs) auto
  from assms have "dropWhile is_space s = s" "dropWhile is_space (rev s) = rev s"
    by (simp_all add: drop)
  then show ?thesis by (simp add: TrimSpace_def)
qed

lemma find_SomeD: "find P xs = Some x \<Longrightarrow> x \<in> set xs \<and> P x"
  by (induction xs) (auto split: if_splits)

section \<open>Decimal numbers: strconv\<close>

definition digit_char :: "nat \<Rightarrow> char" where
  "digit_char d = char_of (48 + d)"

definition is_digit :: "char \<Rightarrow> bool" where
  "is_digit c \<longleftrightarrow> 48 \<le> (of_char c :: nat) \<and> (of_char c :: nat) \<le> 57"

definition digit_val :: "char \<Rightarrow> nat" where
  "digit_val c = of_char c - 48"

fun nat_digits :: "nat \<Rightarrow> string" where
  "nat_digits n = (if n < 10 then [digit_char n] else nat_digits (n div 10) @ [digit_char (n mod 10)])"

declare nat_digits.simps [simp del]

definition Itoa :: "int \<Rightarrow> string" where
  "Itoa i = (if i < 0 then CHR ''-'' # nat_digits (nat (- i)) else nat_digits (nat i))"

datatype NumError = ErrSyntax | ErrRange

text \<open>
  \<open>strconv.ParseUint(s, 10, 64)\<close> reads left to right: the first byte that is not a digit is a
  syntax error with value 0, the first digit that overflows 64 bits a range error with the
  greatest value.
\<close>

fun ParseUint_loop :: "nat \<Rightarrow> string \<Rightarrow> nat \<times> NumError option" where
  "ParseUint_loop n [] = (n, None)"
| "ParseUint_loop n (c # cs) =
     (if \<not> is_digit c then (0, Some ErrSyntax)
      else if n * 10 + digit_val c > 2 ^ 64 - 1 then (2 ^ 64 - 1, Some ErrRange)
      else ParseUint_loop (n * 10 + digit_val c) cs)"

definition ParseUint :: "string \<Rightarrow> nat \<times> NumError option" where
  "ParseUint s = (if s = [] then (0, Some ErrSyntax) else ParseUint_loop 0 s)"

text \<open>\<open>strconv.Atoi\<close> on a 64-bit platform: out of range values are clamped, and reported.\<close>

definition Atoi :: "string \<Rightarrow> int \<times> NumError option" where
  "Atoi s = (case s of [] \<Rightarrow> (0, Some ErrSyntax) | c # cs \<Rightarrow>
     (let neg = (c = CHR ''-'');
          digits = (if c = CHR ''-'' \<or> c = CHR ''+'' then cs else s)
      in case ParseUint digits of
           (u, Some ErrSyntax) \<Rightarrow> (0, Some ErrSyntax)
         | (u, e) \<Rightarrow>
             if \<not> neg \<and> 2 ^ 63 \<le> u then (2 ^ 63 - 1, Some ErrRange)
             else if neg \<and> 2 ^ 63 < u then (- (2 ^ 63), Some ErrRange)
             else (if neg then - int u else int u, e)))"

lemma of_char_digit: "d < 10 \<Longrightarrow> (of_char (digit_char d) :: nat) = 48 + d"
  by (simp add: digit_char_def)

lemma is_digit_digit_char [simp]: "d < 10 \<Longrightarrow> is_digit (digit_char d)"
  by (simp add: is_digit_def of_char_digit)

lemma digit_val_digit_char [simp]: "d < 10 \<Longrightarrow> digit_val (digit_char d) = d"
  by (simp add: digit_val_def of_char_digit)

lemma nat_digits_neq_Nil [simp]: "nat_digits n \<noteq> []"
  by (subst nat_digits.simps) simp

lemma nat_digits_are_digits: "c \<in> set (nat_digits n) \<Longrightarrow> is_digit c"
proof (induction n arbitrary: c rule: nat_digits.induct)
  case (1 n)
  then show ?case
    by (cases "n < 10") (auto simp: nat_digits.simps [of n])
qed

lemma ParseUint_loop_append:
  "ParseUint_loop n cs = (m, None) \<Longrightarrow> ParseUint_loop n (cs @ ds) = ParseUint_loop m ds"
  by (induction n cs rule: ParseUint_loop.induct) (auto split: if_splits)

lemma ParseUint_loop_nat_digits:
  "n \<le> 2 ^ 64 - 1 \<Longrightarrow> ParseUint_loop 0 (nat_digits n) = (n, None)"
proof (induction n rule: nat_digits.induct)
  case (1 n)
  show ?case
  proof (cases "n < 10")
    case True
    then show ?thesis by (simp add: nat_digits.simps [of n])
  next
    case False
    from 1 have "ParseUint_loop 0 (nat_digits (n div 10)) = (n div 10, None)"
      using False by (simp add: div_le_dividend [THEN le_trans])
    moreover have "n div 10 * 10 + n mod 10 = n" by simp
    ultimately show ?thesis using False 1(2)
      by (simp add: nat_digits.simps [of n] ParseUint_loop_append)
  qed
qed

text \<open>The decimal printer and the parser are inverse on every 64-bit integer.\<close>

lemma Atoi_Itoa: "- (2 ^ 63) \<le> i \<Longrightarrow> i < 2 ^ 63 \<Longrightarrow> Atoi (Itoa i) = (i, None)"
proof (cases "i < 0")
  case True
  assume "- (2 ^ 63) \<le> i"
  with True have "nat (- i) \<le> 2 ^ 63" by simp
  then have "ParseUint (nat_digits (nat (- i))) = (nat (- i), None)"
    by (simp add: ParseUint_def ParseUint_loop_nat_digits)
  with True \<open>nat (- i) \<le> 2 ^ 63\<close> show ?thesis by (simp add: Atoi_def Itoa_def)
next
  case False
  assume "i < 2 ^ 63"
  with False have lt: "nat i < 2 ^ 63" by simp
  then have parse: "ParseUint (nat_digits (nat i)) = (nat i, None)"
    by (simp add: ParseUint_def ParseUint_loop_nat_digits)
  obtain c cs where ccs: "nat_digits (nat i) = c # cs" by (cases "nat_digits (nat i)") auto
  then have "is_digit c" using nat_digits_are_digits [of c "nat i"] by simp
  then have "c \<noteq> CHR ''-''" "c \<noteq> CHR ''+''" by (auto simp: is_digit_def)
  with False lt parse ccs show ?thesis by (simp add: Atoi_def Itoa_def)
qed

definition FormatBool :: "bool \<Rightarrow> string" where
  "FormatBool b = (if b then ''true'' else ''false'')"

section \<open>64-bit wrap-around\<close>

definition int64 :: "int \<Rightarrow> int" where
  "int64 i = sint (word_of_int i :: 64 word)"

lemma int64_id: "- (2 ^ 63) \<le> i \<Longrightarrow> i < 2 ^ 63 \<Longrightarrow> int64 i = i"
  unfolding int64_def by (subst sint_sbintrunc') (rule signed_take_bit_int_eq_self, simp_all)

lemma int64_bounds: "- (2 ^ 63) \<le> int64 i \<and> int64 i < 2 ^ 63"
  using sint_greater_eq [of "word_of_int i :: 64 word"] sint_less [of "word_of_int i :: 64 word"]
  by (simp add: int64_def)

section \<open>Go maps with string keys\<close>

type_synonym gomap = "(string \<rightharpoonup> string) option"

definition mget :: "gomap \<Rightarrow> string \<Rightarrow> string option" where
  "mget m k = (case m of None \<Rightarrow> None | Some f \<Rightarrow> f k)"

text \<open>\<open>m[k]\<close> as an expression: the zero value of the element type when the key is absent.\<close>

definition mval :: "gomap \<Rightarrow> string \<Rightarrow> string" where
  "mval m k = (case mget m k of None \<Rightarrow> [] | Some v \<Rightarrow> v)"

text \<open>\<open>m[k] = v\<close>: \<open>None\<close> is the run-time panic of a write to the nil map.\<close>

definition mput :: "gomap \<Rightarrow> string \<Rightarrow> string \<Rightarrow> gomap option" where
  "mput m k v = (case m of None \<Rightarrow> None | Some f \<Rightarrow> Some (Some (f(k \<mapsto> v))))"

text \<open>The same write on a map known to be made.\<close>

definition mset_key :: "(string \<rightharpoonup> string) \<Rightarrow> string \<Rightarrow> string \<Rightarrow> gomap" where
  "mset_key f k v = Some (f(k \<mapsto> v))"

definition mdelete :: "gomap \<Rightarrow> string \<Rightarrow> gomap" where
  "mdelete m k = map_option (\<lambda>f. f(k := None)) m"

text \<open>\<open>if m == nil { m = make(map[string]string) }\<close>\<close>

definition made :: "gomap \<Rightarrow> (string \<rightharpoonup> string)" where
  "made m = (case m of None \<Rightarrow> Map.empty | Some f \<Rightarrow> f)"

lemma mget_simps [simp]:
  "mget None k = None"
  "mget (Some f) k = f k"
  by (simp_all add: mget_def)

lemma made_simps [simp]:
  "made None = Map.empty"
  "made (Some f) = f"
  by (simp_all add: made_def)

lemma mget_made: "made m k = mget m k"
  by (cases m) auto

lemma mget_mset_key [simp]: "mget (mset_key f k v) k' = (if k' = k then Some v else f k')"
  by (simp add: mset_key_def)

lemma mget_mdelete [simp]: "mget (mdelete m k) k' = (if k' = k then None else mget m k')"
  by (cases m) (auto simp: mdelete_def)

lemma mdelete_None_iff [simp]: "mdelete m k = None \<longleftrightarrow> m = None"
  by (simp add: mdelete_def)

lemma mget_mput: "mput m k v = Some m' \<Longrightarrow> mget m' k' = (if k' = k then Some v else mget m k')"
  by (auto simp: mput_def split: option.splits)

section \<open>Weakest preconditions for the state monad\<close>

definition wp :: "('s, 'a) state \<Rightarrow> ('a \<Rightarrow> 's \<Rightarrow> bool) \<Rightarrow> 's \<Rightarrow> bool" where
  "wp m Q s = (case run_state m s of (a, s') \<Rightarrow> Q a s')"

text \<open>
  \<open>if err := m; err != nil { return err }\<close>: the error of the first step is the result, otherwise
  the continuation runs. \<open>bindE\<close> is for a call that returns a value or an error, \<open>thenE\<close> for one
  that returns an error only.
\<close>

definition bindE :: "('s, 'e + 'a) state \<Rightarrow> ('a \<Rightarrow> ('s, 'e + 'b) state) \<Rightarrow> ('s, 'e + 'b) state" where
  "bindE m f = do { r \<leftarrow> m; case r of Inl e \<Rightarrow> State_Monad.return (Inl e) | Inr a \<Rightarrow> f a }"

definition thenE :: "('s, 'e option) state \<Rightarrow> ('s, 'e + 'b) state \<Rightarrow> ('s, 'e + 'b) state" where
  "thenE m k = do { r \<leftarrow> m; case r of Some e \<Rightarrow> State_Monad.return (Inl e) | None \<Rightarrow> k }"

definition throw :: "'e \<Rightarrow> ('s, 'e + 'a) state" where
  "throw e = State_Monad.return (Inl e)"

definition ok :: "'a \<Rightarrow> ('s, 'e + 'a) state" where
  "ok a = State_Monad.return (Inr a)"

lemma wp_return [wp_simps]: "wp (State_Monad.return a) Q s = Q a s"
  by (simp add: wp_def)

lemma wp_throw [wp_simps]: "wp (throw e) Q s = Q (Inl e) s"
  by (simp add: throw_def wp_return)

lemma wp_ok [wp_simps]: "wp (ok a) Q s = Q (Inr a) s"
  by (simp add: ok_def wp_return)

lemma wp_bind [wp_simps]: "wp (State_Monad.bind m f) Q s = wp m (\<lambda>a. wp (f a) Q) s"
  by (simp add: wp_def split: prod.splits)

lemma wp_update [wp_simps]: "wp (State_Monad.update f) Q s = Q () (f s)"
  by (simp add: wp_def State_Monad.update_def)

lemma wp_get [wp_simps]: "wp State_Monad.get Q s = Q s s"
  by (simp add: wp_def)

lemma wp_if [wp_simps]: "wp (if b then m else n) Q s = (if b then wp m Q s else wp n Q s)"
  by simp

lemma wp_case_sum [wp_simps]:
  "wp (case r of Inl e \<Rightarrow> f e | Inr a \<Rightarrow> g a) Q s
     = (case r of Inl e \<Rightarrow> wp (f e) Q s | Inr a \<Rightarrow> wp (g a) Q s)"
  by (simp split: sum.splits)

lemma wp_case_option [wp_simps]:
  "wp (case r of None \<Rightarrow> f | Some a \<Rightarrow> g a) Q s
     = (case r of None \<Rightarrow> wp f Q s | Some a \<Rightarrow> wp (g a) Q s)"
  by (simp split: option.splits)

lemma wp_case_prod [wp_simps]:
  "wp (case p of (a, b) \<Rightarrow> f a b) Q s = (case p of (a, b) \<Rightarrow> wp (f a b) Q s)"
  by (simp split: prod.splits)

lemma wp_bindE [wp_simps]:
  "wp (bindE m f) Q s = wp m (\<lambda>r s'. case r of Inl e \<Rightarrow> Q (Inl e) s' | Inr a \<Rightarrow> wp (f a) Q s') s"
  by (simp add: bindE_def wp_def split: prod.splits sum.splits)

lemma wp_thenE [wp_simps]:
  "wp (thenE m k) Q s = wp m (\<lambda>r s'. case r of Some e \<Rightarrow> Q (Inl e) s' | None \<Rightarrow> wp k Q s') s"
  by (simp add: thenE_def wp_def split: prod.splits option.splits)

lemma wp_conseq: "wp m Q s \<Longrightarrow> (\<And>a s'. Q a s' \<Longrightarrow> R a s') \<Longrightarrow> wp m R s"
  by (auto simp: wp_def split: prod.splits)

lemma wp_run: "wp m Q s \<Longrightarrow> run_state m s = (a, s') \<Longrightarrow> Q a s'"
  by (simp add: wp_def)

lemma wp_conj: "wp m Q s \<Longrightarrow> wp m R s \<Longrightarrow> wp m (\<lambda>a s'. Q a s' \<and> R a s') s"
  by (simp add: wp_def split: prod.splits)

lemma wpI: "(\<And>a s'. run_state m s = (a, s') \<Longrightarrow> Q a s') \<Longrightarrow> wp m Q s"
  by (simp add: wp_def split: prod.splits)

text \<open>Sequencing, with an intermediate assertion for the first computation.\<close>

lemma wp_bind_rule:
  assumes "wp m P s" and "\<And>a s'. P a s' \<Longrightarrow> wp (f a) Q s'"
  shows "wp (State_Monad.bind m f) Q s"
  using wp_conseq [OF assms] by (simp add: wp_bind)

lemma wp_bindE_rule:
  assumes "wp m P s" and "\<And>e s'. P (Inl e) s' \<Longrightarrow> Q (Inl e) s'" and "\<And>a s'. P (Inr a) s' \<Longrightarrow> wp (f a) Q s'"
  shows "wp (bindE m f) Q s"
  unfolding wp_bindE by (rule wp_conseq [OF assms(1)]) (auto split: sum.splits intro: assms(2,3))

lemma wp_thenE_rule:
  assumes "wp m P s" and "\<And>e s'. P (Some e) s' \<Longrightarrow> Q (Inl e) s'" and "\<And>s'. P None s' \<Longrightarrow> wp k Q s'"
  shows "wp (thenE m k) Q s"
  unfolding wp_thenE by (rule wp_conseq [OF assms(1)]) (auto split: option.splits intro: assms(2,3))

lemma wp_final: "wp m P s \<Longrightarrow> (\<And>a s'. P a s' \<Longrightarrow> Q a s') \<Longrightarrow> wp m Q s"
  by (rule wp_conseq)

section \<open>Partial removal\<close>

text \<open>Some of the entries at the given keys are gone, and nothing else changed.\<close>

definition drops :: "'k set \<Rightarrow> ('k \<rightharpoonup> 'v) \<Rightarrow> ('k \<rightharpoonup> 'v) \<Rightarrow> bool" where
  "drops K f g \<longleftrightarrow> (\<forall>k. g k = f k \<or> g k = None \<and> k \<in> K)"

lemma drops_refl [simp]: "drops K f f"
  by (simp add: drops_def)

lemma drops_mono: "drops K f g \<Longrightarrow> K \<subseteq> L \<Longrightarrow> drops L f g"
  unfolding drops_def by blast

lemma drops_trans: "drops K f g \<Longrightarrow> drops K g h \<Longrightarrow> drops K f h"
  unfolding drops_def by metis

lemma drops_step: "drops K (f(k := None)) g \<Longrightarrow> k \<in> K \<Longrightarrow> drops K f g"
  unfolding drops_def by (metis fun_upd_apply)

lemma drops_upd: "k \<in> K \<Longrightarrow> drops K f (f(k := None))"
  by (simp add: drops_def)

lemma drops_gone: "drops K f g \<Longrightarrow> f k = None \<Longrightarrow> g k = None"
  unfolding drops_def by metis

lemma drops_cases: "drops K f g \<Longrightarrow> g k = f k \<or> g k = None"
  by (auto simp: drops_def)

lemma dropsD: "drops K f g \<Longrightarrow> k \<notin> K \<Longrightarrow> g k = f k"
  unfolding drops_def by blast

end
