(* ===== verification/Kube_Types.thy ===== *)
theory Kube_Types
  imports Prelude
begin

text \<open>
  The objects the operator reads and writes. Go embeds \<open>metav1.ObjectMeta\<close> in every object;
  here every object is a record extension of \<open>ObjectMeta\<close>, so \<open>Name\<close>, \<open>Labels\<close> and
  \<open>Annotations\<close> are shared selectors as the promoted fields are in Go. Of the Kubernetes types
  the fields the operator uses are kept. The operator's own types (\<open>FileIntegrity\<close> and
  \<open>FileIntegrityNodeStatus\<close>, \<open>src/pkg/apis/fileintegrity/v1alpha1/fileintegrity_types.go\<close>)
  are complete. Go's \<open>int\<close> fields are \<open>int\<close>, times are seconds, a pointer is an \<open>option\<close>.
\<close>

section \<open>Errors\<close>

text \<open>
  The errors the code tells apart: the API status errors behind \<open>kerr.IsNotFound\<close> and
  \<open>kerr.IsAlreadyExists\<close>, any other API error, an error the operator makes itself, an error
  wrapped with \<open>%w\<close>, and a run-time panic, which ends a reconcile like an error does.
\<close>

datatype error =
    NotFound string
  | AlreadyExists string
  | Conflict string
  | ApiError string
  | GoError string
  | Wrapped string error
  | Panic string

fun IsNotFound :: "error \<Rightarrow> bool" where
  "IsNotFound (NotFound _) = True"
| "IsNotFound (Wrapped _ e) = IsNotFound e"
| "IsNotFound _ = False"

fun IsAlreadyExists :: "error \<Rightarrow> bool" where
  "IsAlreadyExists (AlreadyExists _) = True"
| "IsAlreadyExists (Wrapped _ e) = IsAlreadyExists e"
| "IsAlreadyExists _ = False"

fun is_panic :: "error \<Rightarrow> bool" where
  "is_panic (Panic _) = True"
| "is_panic _ = False"

lemma not_found_not_exists: "IsNotFound e \<Longrightarrow> \<not> IsAlreadyExists e"
  by (induction e) auto

section \<open>Metadata\<close>

type_synonym NamespacedName = "string \<times> string"

record OwnerReference =
  orAPIVersion :: string
  orKind :: string
  orName :: string
  orUID :: string
  orController :: bool

record ObjectMeta =
  Name :: string
  Namespace :: string
  Labels :: gomap
  Annotations :: gomap
  OwnerReferences :: "OwnerReference list"
  CreationTimestamp :: int
  UID :: string

definition nsname :: "('z) ObjectMeta_scheme \<Rightarrow> NamespacedName" where
  "nsname obj = (Namespace obj, Name obj)"

lemma nsname_simps [simp]:
  "nsname (obj\<lparr>Labels := l\<rparr>) = nsname obj"
  "nsname (obj\<lparr>Annotations := l\<rparr>) = nsname obj"
  "nsname (obj\<lparr>OwnerReferences := rs\<rparr>) = nsname obj"
  "nsname (obj\<lparr>CreationTimestamp := t\<rparr>) = nsname obj"
  "nsname (obj\<lparr>UID := u\<rparr>) = nsname obj"
  by (simp_all add: nsname_def)

section \<open>Kubernetes objects\<close>

record ConfigMap = ObjectMeta +
  Data :: gomap

type_synonym Node = ObjectMeta
type_synonym Pod = ObjectMeta

record PriorityClass = ObjectMeta +
  pcValue :: int

record Toleration =
  tolKey :: string
  tolOperator :: string
  tolValue :: string
  tolEffect :: string

datatype MountPropagationMode = MountPropagationHostToContainer

record VolumeMount =
  vmName :: string
  vmMountPath :: string
  vmMountPropagation :: "MountPropagationMode option"

record SecurityContext =
  Privileged :: "bool option"
  RunAsUser :: "int option"

datatype EnvVar = EnvValue string string | EnvFieldRef string string

record ResourceRequirements =
  reqMemory :: string
  reqCPU :: string
  limMemory :: string
  limCPU :: string

record Container =
  cSecurityContext :: "SecurityContext option"
  cName :: string
  cImage :: string
  cCommand :: "string list"
  cArgs :: "string list"
  cEnv :: "EnvVar list"
  cVolumeMounts :: "VolumeMount list"
  cResources :: ResourceRequirements

datatype VolumeSource = HostPath string | ConfigMapVolume string "int option" | EmptyDir

record Volume =
  volName :: string
  volSource :: VolumeSource

record PodSpec =
  psNodeSelector :: gomap
  psTolerations :: "Toleration list option"
  psPriorityClassName :: string
  psServiceAccountName :: string
  psInitContainers :: "Container list"
  psContainers :: "Container list"
  psVolumes :: "Volume list"

record PodTemplateSpec =
  tmplLabels :: gomap
  tmplSpec :: PodSpec

record DaemonSetSpec =
  dssSelector :: gomap
  dssTemplate :: PodTemplateSpec

text \<open>The counters of \<open>appsv1.DaemonSetStatus\<close> are \<open>int32\<close>.\<close>

record DaemonSetStatus =
  DesiredNumberScheduled :: int
  NumberAvailable :: int
  UpdatedNumberScheduled :: int
  NumberUnavailable :: int

record DaemonSet = ObjectMeta +
  dsSpec :: DaemonSetSpec
  dsStatus :: DaemonSetStatus

definition no_status :: DaemonSetStatus where
  "no_status = \<lparr>DesiredNumberScheduled = 0, NumberAvailable = 0, UpdatedNumberScheduled = 0,
     NumberUnavailable = 0\<rparr>"

record Deployment = ObjectMeta +
  depContainers :: "Container list"

section \<open>The operator's own types\<close>

datatype FileIntegrityStatusPhase =
  PhaseUnset | PhaseInitializing | PhaseActive | PhasePending | PhaseError

datatype FileIntegrityNodeCondition =
  NodeConditionSucceeded | NodeConditionFailed | NodeConditionErrored

record FileIntegrityConfig =
  cfgName :: string
  cfgNamespace :: string
  cfgKey :: string
  GracePeriod :: int
  MaxBackups :: int
  InitialDelay :: int

record FileIntegritySpec =
  NodeSelector :: gomap
  Config :: FileIntegrityConfig
  Debug :: bool
  Tolerations :: "Toleration list option"
  PriorityClassName :: string

record FileIntegrity = ObjectMeta +
  fiSpec :: FileIntegritySpec
  Phase :: FileIntegrityStatusPhase

record FileIntegrityScanResult =
  LastProbeTime :: int
  Condition :: FileIntegrityNodeCondition
  ResultConfigMapName :: string
  ResultConfigMapNamespace :: string
  ErrorMsg :: string
  FilesAdded :: int
  FilesChanged :: int
  FilesRemoved :: int

record FileIntegrityNodeStatus = ObjectMeta +
  NodeName :: string
  Results :: "FileIntegrityScanResult list"
  LastResult :: FileIntegrityScanResult

fun phase_string :: "FileIntegrityStatusPhase \<Rightarrow> string" where
  "phase_string PhaseUnset = ''''"
| "phase_string PhaseInitializing = ''Initializing''"
| "phase_string PhaseActive = ''Active''"
| "phase_string PhasePending = ''Pending''"
| "phase_string PhaseError = ''Error''"

fun condition_string :: "FileIntegrityNodeCondition \<Rightarrow> string" where
  "condition_string NodeConditionSucceeded = ''Succeeded''"
| "condition_string NodeConditionFailed = ''Failed''"
| "condition_string NodeConditionErrored = ''Errored''"

end
