(* ===== verification/Common.thy ===== *)
theory Common
  imports Kube_Types
begin

text \<open>
  Package \<open>common\<close> (\<open>src/pkg/common\<close>) without the calls to the API server: the constants, the
  annotation bookkeeping for hold-off and re-init, the labels of config maps, AIDE exit codes and
  messages, and how the operator finds its namespace. The environment of the process (variables,
  the service account file, \<open>/proc/sys/crypto/fips_enabled\<close>) is an argument.
\<close>

section \<open>Constants: constants.go\<close>

definition AideConfigLabelKey :: string where
  "AideConfigLabelKey = ''file-integrity.openshift.io/aide-conf''"
definition AideConfigUpdatedAnnotationKey :: string where
  "AideConfigUpdatedAnnotationKey = ''file-integrity.openshift.io/updated''"
definition AideDatabaseReinitAnnotationKey :: string where
  "AideDatabaseReinitAnnotationKey = ''file-integrity.openshift.io/re-init''"
definition AideDatabaseReinitOnFailedAnnotationKey :: string where
  "AideDatabaseReinitOnFailedAnnotationKey = ''file-integrity.openshift.io/re-init-on-failed''"
definition IntegrityLogLabelKey :: string where
  "IntegrityLogLabelKey = ''file-integrity.openshift.io/log''"
definition IntegrityPodLabelKey :: string where
  "IntegrityPodLabelKey = ''file-integrity.openshift.io/pod''"
definition IntegrityLogResultLabelKey :: string where
  "IntegrityLogResultLabelKey = ''file-integrity.openshift.io/result-log''"
definition IntegrityOwnerLabelKey :: string where
  "IntegrityOwnerLabelKey = ''file-integrity.openshift.io/owner''"
definition IntegrityReinitOwnerLabelKey :: string where
  "IntegrityReinitOwnerLabelKey = ''file-integrity.openshift.io/reinit-owner''"
definition IntegrityConfigMapNodeLabelKey :: string where
  "IntegrityConfigMapNodeLabelKey = ''file-integrity.openshift.io/node''"
definition IntegrityLogContentKey :: string where
  "IntegrityLogContentKey = ''integritylog''"
definition IntegrityLogErrorAnnotationKey :: string where
  "IntegrityLogErrorAnnotationKey = ''file-integrity.openshift.io/log-errormsg''"
definition CompressedLogsIndicatorLabelKey :: string where
  "CompressedLogsIndicatorLabelKey = ''file-integrity.openshift.io/compressed''"
definition IntegrityLogFilesAddedAnnotation :: string where
  "IntegrityLogFilesAddedAnnotation = ''file-integrity.openshift.io/files-added''"
definition IntegrityLogFilesRemovedAnnotation :: string where
  "IntegrityLogFilesRemovedAnnotation = ''file-integrity.openshift.io/files-removed''"
definition IntegrityLogFilesChangedAnnotation :: string where
  "IntegrityLogFilesChangedAnnotation = ''file-integrity.openshift.io/files-changed''"
definition AideReinitScriptConfigMapName :: string where
  "AideReinitScriptConfigMapName = ''aide-reinit''"
definition PauseConfigMapName :: string where "PauseConfigMapName = ''aide-pause''"
definition PausePath :: string where "PausePath = ''/scripts/pause.sh''"
definition AideScriptConfigMapPrefix :: string where "AideScriptConfigMapPrefix = ''aide-script''"
definition AideScriptPath :: string where "AideScriptPath = ''/scripts/aide.sh''"
definition DaemonSetPrefix :: string where "DaemonSetPrefix = ''aide''"
definition DefaultConfDataKey :: string where "DefaultConfDataKey = ''aide.conf''"
definition AideScriptKey :: string where "AideScriptKey = ''aide.sh''"
definition AidePauseScriptKey :: string where "AidePauseScriptKey = ''pause.sh''"
definition OperatorServiceAccountName :: string where
  "OperatorServiceAccountName = ''file-integrity-operator''"
definition DaemonServiceAccountName :: string where
  "DaemonServiceAccountName = ''file-integrity-daemon''"
definition ReinitDaemonSetPrefix :: string where "ReinitDaemonSetPrefix = ''aide-ini''"
definition IntegrityHoldoffAnnotationKey :: string where
  "IntegrityHoldoffAnnotationKey = ''file-integrity.openshift.io/holdoff''"

lemmas key_defs =
  AideConfigLabelKey_def AideConfigUpdatedAnnotationKey_def AideDatabaseReinitAnnotationKey_def
  AideDatabaseReinitOnFailedAnnotationKey_def IntegrityLogLabelKey_def IntegrityPodLabelKey_def
  IntegrityLogResultLabelKey_def IntegrityOwnerLabelKey_def IntegrityReinitOwnerLabelKey_def
  IntegrityConfigMapNodeLabelKey_def IntegrityLogContentKey_def IntegrityLogErrorAnnotationKey_def
  CompressedLogsIndicatorLabelKey_def IntegrityLogFilesAddedAnnotation_def
  IntegrityLogFilesRemovedAnnotation_def IntegrityLogFilesChangedAnnotation_def
  AideReinitScriptConfigMapName_def PauseConfigMapName_def DefaultConfDataKey_def AideScriptKey_def
  AidePauseScriptKey_def IntegrityHoldoffAnnotationKey_def

text \<open>The two node lists of a FileIntegrity live under different keys.\<close>

lemma holdoff_neq_reinit [simp]:
  "IntegrityHoldoffAnnotationKey \<noteq> AideDatabaseReinitAnnotationKey"
  "AideDatabaseReinitAnnotationKey \<noteq> IntegrityHoldoffAnnotationKey"
  "AideDatabaseReinitOnFailedAnnotationKey \<noteq> AideDatabaseReinitAnnotationKey"
  "AideDatabaseReinitAnnotationKey \<noteq> AideDatabaseReinitOnFailedAnnotationKey"
  by (simp_all add: key_defs)

section \<open>The process environment\<close>

record Env =
  LookupEnv :: "string \<rightharpoonup> string"
  FileIntegrityNamespace :: string

definition Getenv :: "Env \<Rightarrow> string \<Rightarrow> string" where
  "Getenv env k = (case LookupEnv env k of None \<Rightarrow> '''' | Some v \<Rightarrow> v)"

datatype FileIntegrityComponent = OPERATOR

fun componentDefaults :: "FileIntegrityComponent \<Rightarrow> string \<times> string" where
  "componentDefaults OPERATOR =
     (''quay.io/file-integrity-operator/file-integrity-operator:latest'', ''RELATED_IMAGE_OPERATOR'')"

definition GetComponentImage :: "Env \<Rightarrow> string \<Rightarrow> FileIntegrityComponent \<Rightarrow> string" where
  "GetComponentImage env override component =
     (let (defaultImage, envVar) = componentDefaults component;
          imageTag = Getenv env envVar
      in if length override > 0 then override
         else if imageTag = '''' then defaultImage
         else imageTag)"

section \<open>Labels and annotations of config maps\<close>

definition IsAideConfig :: "gomap \<Rightarrow> bool" where
  "IsAideConfig labels \<longleftrightarrow> mget labels AideConfigLabelKey \<noteq> None"

definition IsIntegrityLog :: "gomap \<Rightarrow> bool" where
  "IsIntegrityLog labels \<longleftrightarrow> mget labels IntegrityLogLabelKey \<noteq> None"

definition IsIntegrityLogAnError :: "ConfigMap \<Rightarrow> bool" where
  "IsIntegrityLogAnError cm \<longleftrightarrow> mget (Annotations cm) IntegrityLogErrorAnnotationKey \<noteq> None"

definition IsIntegrityLogAFailure :: "ConfigMap \<Rightarrow> bool" where
  "IsIntegrityLogAFailure cm \<longleftrightarrow> mval (Data cm) IntegrityLogContentKey \<noteq> ''''"

definition GetConfigMapOwnerName :: "ConfigMap \<Rightarrow> error + string" where
  "GetConfigMapOwnerName cm = (case mget (Labels cm) IntegrityOwnerLabelKey of
       None \<Rightarrow> Inl (GoError (''ConfigMap '' @ [CHR 0x27] @ Name cm @ [CHR 0x27] @ '' had no owner label''))
     | Some owner \<Rightarrow> Inr owner)"

definition GetConfigMapNodeName :: "ConfigMap \<Rightarrow> error + string" where
  "GetConfigMapNodeName cm = (case mget (Labels cm) IntegrityConfigMapNodeLabelKey of
       None \<Rightarrow> Inl (GoError (''ConfigMap '' @ [CHR 0x27] @ Name cm @ [CHR 0x27] @ '' had no node label''))
     | Some owner \<Rightarrow> Inr owner)"

section \<open>Hold-off and re-init annotations\<close>

abbreviation comma :: char where "comma \<equiv> CHR '',''"

definition IsNodeIn :: "('z) ObjectMeta_scheme \<Rightarrow> string \<Rightarrow> string \<Rightarrow> bool" where
  "IsNodeIn fi nodeName annotation =
     (case Annotations fi of None \<Rightarrow> False
      | Some ann \<Rightarrow> (case ann annotation of None \<Rightarrow> False
          | Some nodeList \<Rightarrow>
              if nodeList = '''' then True
              else list_ex (\<lambda>node. node = nodeName) (Split comma nodeList)))"

definition IsNodeInHoldoff :: "('z) ObjectMeta_scheme \<Rightarrow> string \<Rightarrow> bool" where
  "IsNodeInHoldoff fi nodeName = IsNodeIn fi nodeName IntegrityHoldoffAnnotationKey"

definition IsNodeInReinit :: "('z) ObjectMeta_scheme \<Rightarrow> string \<Rightarrow> bool" where
  "IsNodeInReinit fi nodeName = IsNodeIn fi nodeName AideDatabaseReinitAnnotationKey"

text \<open>The nodes, whether the annotation exists, whether it means every node.\<close>

definition HasReinitAnnotation :: "('z) ObjectMeta_scheme \<Rightarrow> string list \<times> bool \<times> bool" where
  "HasReinitAnnotation fi =
     (case Annotations fi of None \<Rightarrow> ([], False, False)
      | Some ann \<Rightarrow> (case ann AideDatabaseReinitAnnotationKey of
            None \<Rightarrow> ([], False, False)
          | Some nodeList \<Rightarrow>
              if nodeList = '''' then ([], True, True)
              else (Split comma nodeList, True, False)))"

definition GetAddedNodeHoldoffAnnotation :: "('z) ObjectMeta_scheme \<Rightarrow> string \<Rightarrow> gomap \<times> bool" where
  "GetAddedNodeHoldoffAnnotation fi nodeName =
     (let ann = made (Annotations fi) in
      case mget (Annotations fi) IntegrityHoldoffAnnotationKey of
        None \<Rightarrow> (mset_key ann IntegrityHoldoffAnnotationKey nodeName, True)
      | Some nodeList \<Rightarrow>
          (let AddedNode = TrimSpace nodeName in
           if nodeList = '''' then (Some ann, False)
           else
             (let nodes = Split comma nodeList in
              if list_ex (\<lambda>n. EqualFold (TrimSpace n) AddedNode) nodes then (Some ann, False)
              else (mset_key ann IntegrityHoldoffAnnotationKey
                      (Join (nodes @ [AddedNode]) '',''), True))))"

definition GetRemovedNodeHoldoffAnnotation :: "('z) ObjectMeta_scheme \<Rightarrow> string \<Rightarrow> gomap \<times> bool" where
  "GetRemovedNodeHoldoffAnnotation fi nodeName =
     (if \<not> IsNodeInHoldoff fi nodeName then (None, False)
      else
        (let ann = made (Annotations fi) in
         case ann IntegrityHoldoffAnnotationKey of
           None \<Rightarrow> (None, False)
         | Some nodeList \<Rightarrow>
             (let removedNode = TrimSpace nodeName;
                  nodes = Split comma nodeList;
                  newNodes = filter (\<lambda>existingNode. \<not> EqualFold existingNode removedNode)
                               (map TrimSpace nodes)
              in if length newNodes = 0 then (mdelete (Some ann) IntegrityHoldoffAnnotationKey, True)
                 else (mset_key ann IntegrityHoldoffAnnotationKey (Join newNodes '',''), True))))"

text \<open>
  The loop of \<open>GetAddedNodeReinitAnnotation\<close> over the nodes to add, with the annotations and
  \<open>needChange\<close> as its state; \<open>nodeList\<close> is the value found before the loop and is not updated.
\<close>

fun addReinitLoop :: "string \<Rightarrow> string list \<Rightarrow> (string \<rightharpoonup> string) \<times> bool \<Rightarrow> (string \<rightharpoonup> string) \<times> bool" where
  "addReinitLoop nodeList [] st = st"
| "addReinitLoop nodeList (node # rest) (ann, needChange) =
     (if Contains nodeList node then addReinitLoop nodeList rest (ann, needChange)
      else addReinitLoop nodeList rest
             (ann(AideDatabaseReinitAnnotationKey \<mapsto> nodeList @ '','' @ node), True))"

definition GetAddedNodeReinitAnnotation :: "('z) ObjectMeta_scheme \<Rightarrow> string list \<Rightarrow> gomap \<times> bool" where
  "GetAddedNodeReinitAnnotation fi nodeName =
     (if length nodeName = 0 then (None, False)
      else
        (let ann = made (Annotations fi) in
         case mget (Annotations fi) AideDatabaseReinitAnnotationKey of
           Some nodeList \<Rightarrow>
             if nodeList = '''' then (None, False)
             else (let (ann', needChange) = addReinitLoop nodeList nodeName (ann, False)
                   in (Some ann', needChange))
         | None \<Rightarrow> (mset_key ann AideDatabaseReinitAnnotationKey (Join nodeName '',''), True)))"

definition GetRemovedNodeReinitAnnotation :: "('z) ObjectMeta_scheme \<Rightarrow> string \<Rightarrow> gomap \<times> bool" where
  "GetRemovedNodeReinitAnnotation fi nodeName =
     (if \<not> IsNodeInReinit fi nodeName then (None, False)
      else (case Annotations fi of None \<Rightarrow> (None, False)
        | Some ann \<Rightarrow> (case ann AideDatabaseReinitAnnotationKey of
              Some nodeListString \<Rightarrow>
                if nodeName = '''' then (mdelete (Some ann) AideDatabaseReinitAnnotationKey, True)
                else
                  (let nodeList = Split comma nodeListString in
                   if length nodeList = 1 then (mdelete (Some ann) AideDatabaseReinitAnnotationKey, True)
                   else (mset_key ann AideDatabaseReinitAnnotationKey
                           (Join (filter (\<lambda>node. node \<noteq> nodeName) nodeList) '',''), True))
            | None \<Rightarrow> (Some ann, False))))"

section \<open>Daemon sets and errors\<close>

definition DaemonSetIsReady :: "DaemonSet \<Rightarrow> bool" where
  "DaemonSetIsReady ds \<longleftrightarrow> DesiredNumberScheduled (dsStatus ds) > 0 \<and>
     DesiredNumberScheduled (dsStatus ds) = NumberAvailable (dsStatus ds)"

definition DaemonSetIsUpdating :: "DaemonSet \<Rightarrow> bool" where
  "DaemonSetIsUpdating ds \<longleftrightarrow> UpdatedNumberScheduled (dsStatus ds) > 0 \<and>
     (UpdatedNumberScheduled (dsStatus ds) < DesiredNumberScheduled (dsStatus ds)
      \<or> NumberUnavailable (dsStatus ds) > 0)"

definition IgnoreAlreadyExists :: "error option \<Rightarrow> error option" where
  "IgnoreAlreadyExists err = (case err of None \<Rightarrow> None
     | Some e \<Rightarrow> if IsAlreadyExists e then None else Some e)"

definition GetScriptName :: "string \<Rightarrow> string" where
  "GetScriptName fiName = AideScriptConfigMapPrefix @ ''-'' @ fiName"

section \<open>AIDE exit codes\<close>

text \<open>
  What \<open>exec.Command().Run()\<close> returns: an exit error with its code (-1 when the command did not
  exit by itself, as on a signal), or any other error.
\<close>

datatype RunError = ExitError int | OtherRunError string

definition getExitCode :: "RunError option \<Rightarrow> int \<Rightarrow> int" where
  "getExitCode runCmdErr defaultError =
     (case runCmdErr of None \<Rightarrow> 0
      | Some (ExitError rv) \<Rightarrow> if rv \<noteq> -1 then rv else defaultError
      | Some (OtherRunError _) \<Rightarrow> defaultError)"

text \<open>How opening, reading and closing \<open>/proc/sys/crypto/fips_enabled\<close> turns out.\<close>

record FipsFile =
  ffOpen :: "error option"
  ffRead :: "error + string"
  ffClose :: "error option"

definition fipsModeEnabled :: "FipsFile \<Rightarrow> error + bool" where
  "fipsModeEnabled f =
     (let closing = (\<lambda>r. case ffClose f of Some e \<Rightarrow> Inl e | None \<Rightarrow> r) in
      case ffOpen f of Some e \<Rightarrow> Inl e
      | None \<Rightarrow> (case ffRead f of
          Inl e \<Rightarrow> closing (Inl e)
        | Inr d \<Rightarrow> (case d of
            [] \<Rightarrow> closing (Inl (GoError ''/proc/sys/crypto/fips_enabled has no contents''))
          | d0 # _ \<Rightarrow> (case Atoi [d0] of
              (fipsStatus, Some _) \<Rightarrow> closing (Inl (GoError ''invalid syntax''))
            | (fipsStatus, None) \<Rightarrow> closing (Inr (fipsStatus = 1))))))"

definition AIDE_RETFAIL :: int where "AIDE_RETFAIL = 255"
definition AIDE_IO_ERROR :: int where "AIDE_IO_ERROR = 18"
definition MD5_GUARD_ERROR :: int where "MD5_GUARD_ERROR = 64"
definition MD5_GUARD_LIB :: string where "MD5_GUARD_LIB = ''/opt/libaide_md5_guard.so''"

definition aideErrBase :: int where "aideErrBase = 14"
definition aideErrFips :: int where "aideErrFips = 20"
definition aideErrPossibleFips :: int where "aideErrPossibleFips = 21"
definition aideErrSentinel :: int where "aideErrSentinel = 22"

lemmas aide_code_defs = AIDE_RETFAIL_def AIDE_IO_ERROR_def MD5_GUARD_ERROR_def aideErrBase_def
  aideErrFips_def aideErrPossibleFips_def aideErrSentinel_def

definition GetAideExitCode :: "FipsFile \<Rightarrow> RunError option \<Rightarrow> int" where
  "GetAideExitCode fips runCmdError =
     (let ecode = getExitCode runCmdError aideErrSentinel;
          enabled = (case fipsModeEnabled fips of Inl _ \<Rightarrow> False | Inr b \<Rightarrow> b)
      in if ecode = MD5_GUARD_ERROR then (if enabled then aideErrFips else aideErrPossibleFips)
         else if ecode = AIDE_RETFAIL then (if enabled then aideErrFips else aideErrPossibleFips)
         else ecode)"

definition aideErrLookup :: "(int \<times> string) list" where
  "aideErrLookup =
     [(14, ''Error writing error''),
      (15, ''Invalid argument error''),
      (16, ''Unimplemented function error''),
      (17, ''Invalid configureline error''),
      (18, ''IO error''),
      (19, ''Version mismatch error''),
      (aideErrFips, ''Use of FIPS disallowed algorithm under FIPS mode''),
      (aideErrPossibleFips, ''Possible use of FIPS disallowed algorithm''),
      (aideErrSentinel, ''Unexpected error'')]"

text \<open>The slice access after the clamp; \<open>None\<close> is an index out of range.\<close>

definition GetAideErrorMessage :: "int \<Rightarrow> string option" where
  "GetAideErrorMessage rv =
     (let rv1 = (if rv < aideErrBase \<or> rv > aideErrSentinel then aideErrSentinel else rv);
          i = rv1 - aideErrBase
      in if 0 \<le> i \<and> i < int (length aideErrLookup) then Some (snd (aideErrLookup ! nat i)) else None)"

section \<open>The operator's namespace: var.go\<close>

datatype SAFile = SANotExist | SAReadError error | SABytes string

definition ErrNoNamespace :: error where
  "ErrNoNamespace = GoError ''namespace not found for current environment''"

definition GetOperatorNamespace :: "SAFile \<Rightarrow> error + string" where
  "GetOperatorNamespace sa = (case sa of SANotExist \<Rightarrow> Inl ErrNoNamespace
     | SAReadError e \<Rightarrow> Inl e | SABytes nsBytes \<Rightarrow> Inr (TrimSpace nsBytes))"

definition GetWatchNamespace :: "(string \<rightharpoonup> string) \<Rightarrow> SAFile \<Rightarrow> error + string" where
  "GetWatchNamespace lookupEnv sa = (case lookupEnv ''WATCH_NAMESPACE'' of
       None \<Rightarrow> Inl (GoError ''WATCH_NAMESPACE must be set'')
     | Some ns \<Rightarrow> if ns = '''' then GetOperatorNamespace sa else Inr ns)"

text \<open>The package's \<open>init\<close>: the value of the variable \<open>FileIntegrityNamespace\<close>.\<close>

definition init_FileIntegrityNamespace :: "SAFile \<Rightarrow> string" where
  "init_FileIntegrityNamespace sa = (case GetOperatorNamespace sa of
       Inl _ \<Rightarrow> ''openshift-file-integrity'' | Inr ns \<Rightarrow> ns)"

text \<open>\<open>ResourceExists\<close>: the discovery call's answer is an argument, per group version its kinds.\<close>

definition ResourceExists :: "error + (string \<times> string list) list \<Rightarrow> string \<Rightarrow> string \<Rightarrow> error + bool" where
  "ResourceExists discovered apiGroupVersion kind = (case discovered of Inl e \<Rightarrow> Inl e
     | Inr apiLists \<Rightarrow> Inr (list_ex (\<lambda>(gv, kinds). gv = apiGroupVersion \<and> list_ex (\<lambda>k. k = kind) kinds) apiLists))"

end
