(* ===== verification/Metrics.thy ===== *)
theory Metrics
  imports Kube_Types
begin

text \<open>
  The controller metrics, \<open>src/pkg/controller/metrics/metrics.go\<close>. A Prometheus counter vector is
  the function from label values to the count (a child that was never used counts 0); the gauge
  vector keeps which children exist, since reading a gauge through \<open>WithLabelValues\<close> creates it.
\<close>

type_synonym CounterVec = "string list \<Rightarrow> nat"
type_synonym GaugeVec = "string list \<rightharpoonup> int"

record Metrics =
  metricFileIntegrityPhase :: CounterVec
  metricFileIntegrityError :: CounterVec
  metricFileIntegrityPause :: CounterVec
  metricFileIntegrityUnpause :: CounterVec
  metricFileIntegrityReinit :: CounterVec
  metricFileIntegrityNodeStatus :: CounterVec
  metricFileIntegrityNodeStatusError :: CounterVec
  metricFileIntegrityDaemonsetUpdate :: CounterVec
  metricFileIntegrityReinitDaemonsetUpdate :: CounterVec
  metricFileIntegrityNodeStatusGauge :: GaugeVec

definition metricLabelValuePhaseInit :: string where "metricLabelValuePhaseInit = ''Initializing''"
definition metricLabelValuePhaseActive :: string where "metricLabelValuePhaseActive = ''Active''"
definition metricLabelValuePhasePending :: string where "metricLabelValuePhasePending = ''Pending''"
definition metricLabelValuePhaseError :: string where "metricLabelValuePhaseError = ''Error''"
definition metricLabelValueReinitNode :: string where "metricLabelValueReinitNode = ''node''"
definition metricLabelValueReinitDemand :: string where "metricLabelValueReinitDemand = ''demand''"
definition metricLabelValueReinitConfig :: string where "metricLabelValueReinitConfig = ''config''"
definition metricLabelValueOperatorDaemonsetUpdate :: string where
  "metricLabelValueOperatorDaemonsetUpdate = ''update''"
definition metricLabelValueOperatorDaemonsetDelete :: string where
  "metricLabelValueOperatorDaemonsetDelete = ''delete''"
definition metricLabelValueOperatorDaemonsetPodKill :: string where
  "metricLabelValueOperatorDaemonsetPodKill = ''podkill''"

lemmas metric_label_defs =
  metricLabelValuePhaseInit_def metricLabelValuePhaseActive_def metricLabelValuePhasePending_def
  metricLabelValuePhaseError_def metricLabelValueReinitNode_def metricLabelValueReinitDemand_def
  metricLabelValueReinitConfig_def metricLabelValueOperatorDaemonsetUpdate_def
  metricLabelValueOperatorDaemonsetDelete_def metricLabelValueOperatorDaemonsetPodKill_def

definition NewControllerMetrics :: Metrics where
  "NewControllerMetrics =
     \<lparr>metricFileIntegrityPhase = (\<lambda>_. 0), metricFileIntegrityError = (\<lambda>_. 0),
      metricFileIntegrityPause = (\<lambda>_. 0), metricFileIntegrityUnpause = (\<lambda>_. 0),
      metricFileIntegrityReinit = (\<lambda>_. 0), metricFileIntegrityNodeStatus = (\<lambda>_. 0),
      metricFileIntegrityNodeStatusError = (\<lambda>_. 0), metricFileIntegrityDaemonsetUpdate = (\<lambda>_. 0),
      metricFileIntegrityReinitDaemonsetUpdate = (\<lambda>_. 0),
      metricFileIntegrityNodeStatusGauge = Map.empty\<rparr>"

text \<open>\<open>vec.WithLabelValues(ls...).Inc()\<close>\<close>

definition Inc :: "string list \<Rightarrow> CounterVec \<Rightarrow> CounterVec" where
  "Inc ls v = v(ls := Suc (v ls))"

definition IncFileIntegrityPhaseInit :: "Metrics \<Rightarrow> Metrics" where
  "IncFileIntegrityPhaseInit m =
     m\<lparr>metricFileIntegrityPhase := Inc [metricLabelValuePhaseInit] (metricFileIntegrityPhase m)\<rparr>"

definition IncFileIntegrityPhaseActive :: "Metrics \<Rightarrow> Metrics" where
  "IncFileIntegrityPhaseActive m =
     m\<lparr>metricFileIntegrityPhase := Inc [metricLabelValuePhaseActive] (metricFileIntegrityPhase m)\<rparr>"

definition IncFileIntegrityPhasePending :: "Metrics \<Rightarrow> Metrics" where
  "IncFileIntegrityPhasePending m =
     m\<lparr>metricFileIntegrityPhase := Inc [metricLabelValuePhasePending] (metricFileIntegrityPhase m)\<rparr>"

definition IncFileIntegrityPhaseError :: "Metrics \<Rightarrow> Metrics" where
  "IncFileIntegrityPhaseError m =
     m\<lparr>metricFileIntegrityPhase := Inc [metricLabelValuePhaseError] (metricFileIntegrityPhase m)\<rparr>"

definition IncFileIntegrityError :: "string \<Rightarrow> Metrics \<Rightarrow> Metrics" where
  "IncFileIntegrityError reason m =
     m\<lparr>metricFileIntegrityError := Inc [reason] (metricFileIntegrityError m)\<rparr>"

definition IncFileIntegrityDaemonsetUpdate :: "Metrics \<Rightarrow> Metrics" where
  "IncFileIntegrityDaemonsetUpdate m =
     m\<lparr>metricFileIntegrityDaemonsetUpdate :=
         Inc [metricLabelValueOperatorDaemonsetUpdate] (metricFileIntegrityDaemonsetUpdate m)\<rparr>"

definition IncFileIntegrityDaemonsetDelete :: "Metrics \<Rightarrow> Metrics" where
  "IncFileIntegrityDaemonsetDelete m =
     m\<lparr>metricFileIntegrityDaemonsetUpdate :=
         Inc [metricLabelValueOperatorDaemonsetDelete] (metricFileIntegrityDaemonsetUpdate m)\<rparr>"

definition IncFileIntegrityDaemonsetPodKill :: "Metrics \<Rightarrow> Metrics" where
  "IncFileIntegrityDaemonsetPodKill m =
     m\<lparr>metricFileIntegrityDaemonsetUpdate :=
         Inc [metricLabelValueOperatorDaemonsetPodKill] (metricFileIntegrityDaemonsetUpdate m)\<rparr>"

definition IncFileIntegrityReinitDaemonsetUpdate :: "Metrics \<Rightarrow> Metrics" where
  "IncFileIntegrityReinitDaemonsetUpdate m =
     m\<lparr>metricFileIntegrityReinitDaemonsetUpdate :=
         Inc [metricLabelValueOperatorDaemonsetUpdate] (metricFileIntegrityReinitDaemonsetUpdate m)\<rparr>"

definition IncFileIntegrityReinitDaemonsetDelete :: "Metrics \<Rightarrow> Metrics" where
  "IncFileIntegrityReinitDaemonsetDelete m =
     m\<lparr>metricFileIntegrityReinitDaemonsetUpdate :=
         Inc [metricLabelValueOperatorDaemonsetDelete] (metricFileIntegrityReinitDaemonsetUpdate m)\<rparr>"

definition IncFileIntegrityPause :: "string \<Rightarrow> Metrics \<Rightarrow> Metrics" where
  "IncFileIntegrityPause node m =
     m\<lparr>metricFileIntegrityPause := Inc [node] (metricFileIntegrityPause m)\<rparr>"

definition IncFileIntegrityUnpause :: "string \<Rightarrow> Metrics \<Rightarrow> Metrics" where
  "IncFileIntegrityUnpause node m =
     m\<lparr>metricFileIntegrityUnpause := Inc [node] (metricFileIntegrityUnpause m)\<rparr>"

text \<open>The re-init counter's labels are the pair (by, node).\<close>

definition IncFileIntegrityReinitByDemand :: "Metrics \<Rightarrow> Metrics" where
  "IncFileIntegrityReinitByDemand m =
     m\<lparr>metricFileIntegrityReinit :=
         Inc [metricLabelValueReinitDemand, ''''] (metricFileIntegrityReinit m)\<rparr>"

definition IncFileIntegrityReinitByConfig :: "Metrics \<Rightarrow> Metrics" where
  "IncFileIntegrityReinitByConfig m =
     m\<lparr>metricFileIntegrityReinit :=
         Inc [metricLabelValueReinitConfig, ''''] (metricFileIntegrityReinit m)\<rparr>"

definition IncFileIntegrityReinitByNode :: "string \<Rightarrow> Metrics \<Rightarrow> Metrics" where
  "IncFileIntegrityReinitByNode node m =
     m\<lparr>metricFileIntegrityReinit :=
         Inc [metricLabelValueReinitNode, node] (metricFileIntegrityReinit m)\<rparr>"

text \<open>The node status counter's labels are the pair (condition, node).\<close>

definition IncFileIntegrityNodeStatus :: "string \<Rightarrow> string \<Rightarrow> Metrics \<Rightarrow> Metrics" where
  "IncFileIntegrityNodeStatus condition node m =
     m\<lparr>metricFileIntegrityNodeStatus := Inc [condition, node] (metricFileIntegrityNodeStatus m)\<rparr>"

definition IncFileIntegrityNodeStatusError :: "string \<Rightarrow> string \<Rightarrow> Metrics \<Rightarrow> Metrics" where
  "IncFileIntegrityNodeStatusError errMsg node m =
     m\<lparr>metricFileIntegrityNodeStatusError :=
         Inc [errMsg, node] (metricFileIntegrityNodeStatusError m)\<rparr>"

definition SetFileIntegrityNodeStatusGaugeBad :: "string \<Rightarrow> Metrics \<Rightarrow> Metrics" where
  "SetFileIntegrityNodeStatusGaugeBad node m =
     m\<lparr>metricFileIntegrityNodeStatusGauge := (metricFileIntegrityNodeStatusGauge m)([node] \<mapsto> 1)\<rparr>"

definition SetFileIntegrityNodeStatusGaugeGood :: "string \<Rightarrow> Metrics \<Rightarrow> Metrics" where
  "SetFileIntegrityNodeStatusGaugeGood node m =
     m\<lparr>metricFileIntegrityNodeStatusGauge := (metricFileIntegrityNodeStatusGauge m)([node] \<mapsto> 0)\<rparr>"

text \<open>
  \<open>GetFileIntegrityNodeStatus\<close>: \<open>WithLabelValues\<close> returns the child for the node, making it with
  value 0 when there is none, and never \<open>nil\<close>; \<open>Collect\<close> then sends exactly that child, whose
  gauge value is set. The three error returns of the source answer a nil child, a failed write
  of the child and an empty channel; none can arise from a gauge child, so the result is the
  value and \<open>found = true\<close>.
\<close>

definition GetFileIntegrityNodeStatus :: "string \<Rightarrow> Metrics \<Rightarrow> (error + int \<times> bool) \<times> Metrics" where
  "GetFileIntegrityNodeStatus node m =
     (let child = (case metricFileIntegrityNodeStatusGauge m [node] of None \<Rightarrow> 0 | Some v \<Rightarrow> v)
      in (Inr (child, True),
          m\<lparr>metricFileIntegrityNodeStatusGauge :=
              (metricFileIntegrityNodeStatusGauge m)([node] \<mapsto> child)\<rparr>))"

text \<open>What the gauge shows for a node that was never reported is 0, the value of a healthy node.\<close>

definition gauge_value :: "Metrics \<Rightarrow> string \<Rightarrow> int" where
  "gauge_value m node = (case metricFileIntegrityNodeStatusGauge m [node] of None \<Rightarrow> 0 | Some v \<Rightarrow> v)"

lemma GetFileIntegrityNodeStatus_value:
  "fst (GetFileIntegrityNodeStatus node m) = Inr (gauge_value m node, True)"
  by (simp add: GetFileIntegrityNodeStatus_def gauge_value_def Let_def)

lemma gauge_value_Get [simp]: "gauge_value (snd (GetFileIntegrityNodeStatus node m)) n = gauge_value m n"
  by (auto simp: GetFileIntegrityNodeStatus_def gauge_value_def Let_def split: option.splits)

lemma gauge_value_Bad: "gauge_value (SetFileIntegrityNodeStatusGaugeBad n m) n' = (if n' = n then 1 else gauge_value m n')"
  by (simp add: SetFileIntegrityNodeStatusGaugeBad_def gauge_value_def)

lemma gauge_value_Good: "gauge_value (SetFileIntegrityNodeStatusGaugeGood n m) n' = (if n' = n then 0 else gauge_value m n')"
  by (simp add: SetFileIntegrityNodeStatusGaugeGood_def gauge_value_def)

lemma gauge_value_counters [simp]:
  "gauge_value (IncFileIntegrityNodeStatus c n m) n' = gauge_value m n'"
  "gauge_value (IncFileIntegrityNodeStatusError e n m) n' = gauge_value m n'"
  by (simp_all add: IncFileIntegrityNodeStatus_def IncFileIntegrityNodeStatusError_def gauge_value_def)

end
