(* ===== verification/Client.thy ===== *)
theory Client
  imports Common Metrics
begin

text \<open>
  The API server as the controllers see it. The server is not part of the repository: a controller
  takes a \<open>client\<close>, a record of the calls it makes per kind of object, as an argument. The
  \<open>world\<close> is what the calls act on: the objects visible through the API, and the operator's own
  metrics and emitted events.

  What the controllers rely on is the locale \<open>api_laws\<close>: a read does not change anything and
  returns what is stored, a NotFound means absence, a write that succeeds stores the submitted
  object (up to the fields the server owns, relation \<open>served\<close>) under its name and leaves every
  other object alone, a write that fails changes nothing. Any call may fail with any other error at
  any time. \<open>kube_api\<close> collects the laws for all kinds; it is interpreted on \<open>mem_client\<close>, an
  in-memory server with an arbitrary plan of injected failures, so the laws can hold together with
  failures and without them. Reads are taken to be up to date and no other writer interferes within
  one reconcile.
\<close>

section \<open>The world\<close>

datatype EventType = EventTypeNormal | EventTypeWarning

record Event =
  evObject :: string
  evType :: EventType
  evReason :: string
  evMessage :: string

record world =
  ConfigMaps :: "ConfigMap list"
  DaemonSets :: "DaemonSet list"
  FileIntegrities :: "FileIntegrity list"
  NodeStatuses :: "FileIntegrityNodeStatus list"
  Nodes :: "Node list"
  Pods :: "Pod list"
  PriorityClasses :: "PriorityClass list"
  Deployments :: "Deployment list"
  metrics :: Metrics
  events :: "Event list"

type_synonym 'a io = "(world, 'a) state"

definition lookup :: "('z) ObjectMeta_scheme list \<Rightarrow> NamespacedName \<Rightarrow> ('z) ObjectMeta_scheme option" where
  "lookup os k = find (\<lambda>obj. nsname obj = k) os"

definition met :: "(Metrics \<Rightarrow> Metrics) \<Rightarrow> unit io" where
  "met f = State_Monad.update (\<lambda>w. w\<lparr>metrics := f (metrics w)\<rparr>)"

text \<open>\<open>Recorder.Eventf\<close>: the event is appended to the log.\<close>

definition Eventf :: "string \<Rightarrow> EventType \<Rightarrow> string \<Rightarrow> string \<Rightarrow> unit io" where
  "Eventf obj t reason msg = State_Monad.update (\<lambda>w. w\<lparr>events := events w @
     [\<lparr>evObject = obj, evType = t, evReason = reason, evMessage = msg\<rparr>]\<rparr>)"

lemma wp_met [wp_simps]: "wp (met f) Q w = Q () (w\<lparr>metrics := f (metrics w)\<rparr>)"
  by (simp add: met_def wp_simps)

lemma wp_Eventf [wp_simps]: "wp (Eventf n t r m) Q w = Q () (w\<lparr>events := events w @
     [\<lparr>evObject = n, evType = t, evReason = r, evMessage = m\<rparr>]\<rparr>)"
  by (simp add: Eventf_def wp_simps)

lemma lookup_nsname: "lookup os k = Some obj \<Longrightarrow> nsname obj = k"
  by (auto simp: lookup_def find_Some_iff)

lemma lookup_Nil [simp]: "lookup [] k = None"
  by (simp add: lookup_def)

lemma lookup_Cons [simp]: "lookup (obj # os) k = (if nsname obj = k then Some obj else lookup os k)"
  by (simp add: lookup_def)

section \<open>The client\<close>

record ListOptions =
  loNamespace :: string
  loSelector :: gomap

text \<open>\<open>labels.SelectorFromSet\<close>: every required label is there; nil requires nothing.\<close>

definition selector_matches :: "gomap \<Rightarrow> gomap \<Rightarrow> bool" where
  "selector_matches sel ls \<longleftrightarrow> made sel \<subseteq>\<^sub>m made ls"

definition listed :: "ListOptions \<Rightarrow> ('z) ObjectMeta_scheme \<Rightarrow> bool" where
  "listed opts obj \<longleftrightarrow> (loNamespace opts = '''' \<or> Namespace obj = loNamespace opts)
     \<and> selector_matches (loSelector opts) (Labels obj)"

record 'o api =
  Get :: "NamespacedName \<Rightarrow> (error + 'o) io"
  ListObjs :: "ListOptions \<Rightarrow> (error + 'o list) io"
  Create :: "'o \<Rightarrow> error option io"
  Update :: "'o \<Rightarrow> error option io"
  Delete :: "'o \<Rightarrow> error option io"

record client =
  cms :: "ConfigMap api"
  dss :: "DaemonSet api"
  fis :: "FileIntegrity api"
  nss :: "FileIntegrityNodeStatus api"
  nodes :: "Node api"
  pods :: "Pod api"
  pcs :: "PriorityClass api"
  deps :: "Deployment api"
  StatusUpdate :: "FileIntegrity \<Rightarrow> error option io"
  SetControllerReference_ds :: "FileIntegrity \<Rightarrow> DaemonSet \<Rightarrow> error + DaemonSet"
  SetControllerReference_ns :: "FileIntegrity \<Rightarrow> FileIntegrityNodeStatus \<Rightarrow> error + FileIntegrityNodeStatus"

text \<open>Deleting the objects of a list in order, stopping at the first error.\<close>

fun deleteLoop :: "'o api \<Rightarrow> 'o list \<Rightarrow> error option io" where
  "deleteLoop api [] = State_Monad.return None"
| "deleteLoop api (obj # os) = do {
     err \<leftarrow> Delete api obj;
     case err of Some e \<Rightarrow> State_Monad.return (Some e) | None \<Rightarrow> deleteLoop api os }"

section \<open>What the server promises\<close>

text \<open>
  The stored object is the submitted one except for what the server owns or normalises: the
  creation time and UID of every object, the status of kinds that have a status subresource, an
  empty map or list that comes back as \<open>nil\<close>, and the default mode of a config map volume.
  \<open>canon\<close> functions forget exactly that, and \<open>served\<close> compares the rest.
\<close>

definition canon_meta :: "('z) ObjectMeta_scheme \<Rightarrow> ('z) ObjectMeta_scheme" where
  "canon_meta obj = obj\<lparr>CreationTimestamp := 0, UID := '''', Labels := Some (made (Labels obj)),
     Annotations := Some (made (Annotations obj))\<rparr>"

definition served_meta :: "('z) ObjectMeta_scheme \<Rightarrow> ('z) ObjectMeta_scheme \<Rightarrow> bool" where
  "served_meta obj obj' \<longleftrightarrow> canon_meta obj' = canon_meta obj"

definition canon_cm :: "ConfigMap \<Rightarrow> ConfigMap" where
  "canon_cm cm = (canon_meta cm)\<lparr>Data := Some (made (Data cm))\<rparr>"

definition served_cm :: "ConfigMap \<Rightarrow> ConfigMap \<Rightarrow> bool" where
  "served_cm obj obj' \<longleftrightarrow> canon_cm obj' = canon_cm obj"

fun canon_volume :: "VolumeSource \<Rightarrow> VolumeSource" where
  "canon_volume (ConfigMapVolume n _) = ConfigMapVolume n None"
| "canon_volume v = v"

definition canon_pod :: "PodSpec \<Rightarrow> PodSpec" where
  "canon_pod p = p\<lparr>psNodeSelector := Some (made (psNodeSelector p)),
     psTolerations := Some (case psTolerations p of None \<Rightarrow> [] | Some ts \<Rightarrow> ts),
     psVolumes := map (\<lambda>v. v\<lparr>volSource := canon_volume (volSource v)\<rparr>) (psVolumes p)\<rparr>"

definition canon_ds :: "DaemonSet \<Rightarrow> DaemonSet" where
  "canon_ds ds = (canon_meta ds)\<lparr>dsStatus := no_status,
     dsSpec := (dsSpec ds)\<lparr>dssTemplate := (dssTemplate (dsSpec ds))\<lparr>
       tmplSpec := canon_pod (tmplSpec (dssTemplate (dsSpec ds)))\<rparr>\<rparr>\<rparr>"

definition served_ds :: "DaemonSet \<Rightarrow> DaemonSet \<Rightarrow> bool" where
  "served_ds obj obj' \<longleftrightarrow> canon_ds obj' = canon_ds obj"

definition served_fi :: "FileIntegrity \<Rightarrow> FileIntegrity \<Rightarrow> bool" where
  "served_fi obj obj' \<longleftrightarrow> (canon_meta obj')\<lparr>Phase := PhaseUnset\<rparr> = (canon_meta obj)\<lparr>Phase := PhaseUnset\<rparr>"

lemma canon_meta_sel [simp]:
  "Name (canon_meta obj) = Name obj" "Namespace (canon_meta obj) = Namespace obj"
  "nsname (canon_meta obj) = nsname obj" "OwnerReferences (canon_meta obj) = OwnerReferences obj"
  "mget (Labels (canon_meta obj)) k = mget (Labels obj) k"
  "mget (Annotations (canon_meta obj)) k = mget (Annotations obj) k"
  "ObjectMeta.more (canon_meta obj) = ObjectMeta.more obj"
  by (simp_all add: canon_meta_def nsname_def mget_def made_def split: option.splits)

lemma served_metaD:
  assumes "served_meta obj obj'"
  shows "nsname obj' = nsname obj" "mget (Labels obj') k = mget (Labels obj) k"
    "mget (Annotations obj') k = mget (Annotations obj) k" "ObjectMeta.more obj' = ObjectMeta.more obj"
  using assms unfolding served_meta_def by (metis canon_meta_sel)+

lemma served_nsD:
  assumes "served_meta (ns :: FileIntegrityNodeStatus) ns'"
  shows "NodeName ns' = NodeName ns" "Results ns' = Results ns" "LastResult ns' = LastResult ns"
  using assms by (cases ns; cases ns'; simp add: served_meta_def canon_meta_def)+

lemma served_cmD:
  assumes "served_cm cm cm'"
  shows "nsname cm' = nsname cm" "mget (Labels cm') k = mget (Labels cm) k"
    "mget (Annotations cm') k = mget (Annotations cm) k" "mget (Data cm') k = mget (Data cm) k"
proof -
  have "canon_cm cm' = canon_cm cm" using assms by (simp add: served_cm_def)
  then have "nsname (canon_cm cm') = nsname (canon_cm cm)"
    "mget (Labels (canon_cm cm')) k = mget (Labels (canon_cm cm)) k"
    "mget (Annotations (canon_cm cm')) k = mget (Annotations (canon_cm cm)) k"
    "mget (Data (canon_cm cm')) k = mget (Data (canon_cm cm)) k" by simp_all
  then show "nsname cm' = nsname cm" "mget (Labels cm') k = mget (Labels cm) k"
    "mget (Annotations cm') k = mget (Annotations cm) k" "mget (Data cm') k = mget (Data cm) k"
    by (simp_all add: canon_cm_def nsname_def mget_made canon_meta_def)
qed

lemma served_fiD:
  assumes "served_fi fi fi'"
  shows "nsname fi' = nsname fi" "mget (Labels fi') k = mget (Labels fi) k"
    "mget (Annotations fi') k = mget (Annotations fi) k" "fiSpec fi' = fiSpec fi"
proof -
  have eq: "(canon_meta fi')\<lparr>Phase := PhaseUnset\<rparr> = (canon_meta fi)\<lparr>Phase := PhaseUnset\<rparr>"
    using assms by (simp add: served_fi_def)
  from arg_cong [OF eq, of nsname] show "nsname fi' = nsname fi" by (simp add: nsname_def)
  from arg_cong [OF eq, of "\<lambda>x. mget (Labels x) k"] show "mget (Labels fi') k = mget (Labels fi) k" by simp
  from arg_cong [OF eq, of "\<lambda>x. mget (Annotations x) k"]
  show "mget (Annotations fi') k = mget (Annotations fi) k" by simp
  from arg_cong [OF eq, of fiSpec] show "fiSpec fi' = fiSpec fi" by (simp add: canon_meta_def)
qed

lemma served_fi_meta:
  assumes "served_fi fi fi'"
  shows "Name fi' = Name fi \<and> Namespace fi' = Namespace fi \<and> OwnerReferences fi' = OwnerReferences fi"
  using assms by (cases fi; cases fi') (simp add: served_fi_def canon_meta_def)

lemma served_dsD:
  assumes "served_ds ds ds'"
  shows "nsname ds' = nsname ds" "mget (Labels ds') k = mget (Labels ds) k"
    "mget (Annotations ds') k = mget (Annotations ds) k"
    "psContainers (tmplSpec (dssTemplate (dsSpec ds'))) = psContainers (tmplSpec (dssTemplate (dsSpec ds)))"
    "mget (psNodeSelector (tmplSpec (dssTemplate (dsSpec ds')))) k
      = mget (psNodeSelector (tmplSpec (dssTemplate (dsSpec ds)))) k"
proof -
  have eq: "canon_ds ds' = canon_ds ds" using assms by (simp add: served_ds_def)
  from arg_cong [OF eq, of nsname] show "nsname ds' = nsname ds"
    by (simp add: nsname_def canon_ds_def)
  from arg_cong [OF eq, of "\<lambda>x. mget (Labels x) k"] show "mget (Labels ds') k = mget (Labels ds) k"
    by (simp add: canon_ds_def)
  from arg_cong [OF eq, of "\<lambda>x. mget (Annotations x) k"]
  show "mget (Annotations ds') k = mget (Annotations ds) k" by (simp add: canon_ds_def)
  from arg_cong [OF eq, of "\<lambda>x. psContainers (tmplSpec (dssTemplate (dsSpec x)))"]
  show "psContainers (tmplSpec (dssTemplate (dsSpec ds'))) = psContainers (tmplSpec (dssTemplate (dsSpec ds)))"
    by (simp add: canon_ds_def canon_pod_def)
  from arg_cong [OF eq, of "\<lambda>x. mget (psNodeSelector (tmplSpec (dssTemplate (dsSpec x)))) k"]
  show "mget (psNodeSelector (tmplSpec (dssTemplate (dsSpec ds')))) k
      = mget (psNodeSelector (tmplSpec (dssTemplate (dsSpec ds)))) k"
    by (simp add: canon_ds_def canon_pod_def mget_made)
qed

locale api_laws =
  fixes api :: "(('z) ObjectMeta_scheme) api"
    and sel :: "world \<Rightarrow> ('z) ObjectMeta_scheme list"
    and upd :: "(('z) ObjectMeta_scheme list \<Rightarrow> ('z) ObjectMeta_scheme list) \<Rightarrow> world \<Rightarrow> world"
    and served :: "('z) ObjectMeta_scheme \<Rightarrow> ('z) ObjectMeta_scheme \<Rightarrow> bool"
  assumes get_law: "run_state (Get api k) w = (r, w') \<Longrightarrow>
      w' = w \<and> (case r of Inr obj \<Rightarrow> lookup (sel w) k = Some obj
                | Inl e \<Rightarrow> \<not> is_panic e \<and> (IsNotFound e \<longrightarrow> lookup (sel w) k = None))"
    and list_law: "run_state (ListObjs api opts) w = (rs, w') \<Longrightarrow>
      w' = w \<and> (case rs of Inr os \<Rightarrow> distinct (map nsname os) \<and>
                     (\<forall>obj. obj \<in> set os \<longleftrightarrow> lookup (sel w) (nsname obj) = Some obj \<and> listed opts obj)
                | Inl e \<Rightarrow> \<not> is_panic e \<and> (IsNotFound e \<longrightarrow> lookup (sel w) = Map.empty))"
    and create_law: "run_state (Create api obj) w = (err, w') \<Longrightarrow>
      (case err of None \<Rightarrow> lookup (sel w) (nsname obj) = None \<and>
                     (\<exists>obj' os. served obj obj' \<and> w' = upd (\<lambda>_. os) w
                         \<and> lookup os = (lookup (sel w))(nsname obj \<mapsto> obj'))
       | Some e \<Rightarrow> \<not> is_panic e \<and> w' = w \<and> (IsAlreadyExists e \<longrightarrow> lookup (sel w) (nsname obj) \<noteq> None))"
    and update_law: "run_state (Update api obj) w = (err, w') \<Longrightarrow>
      (case err of None \<Rightarrow> lookup (sel w) (nsname obj) \<noteq> None \<and>
                     (\<exists>obj' os. served obj obj' \<and> w' = upd (\<lambda>_. os) w
                         \<and> lookup os = (lookup (sel w))(nsname obj \<mapsto> obj'))
       | Some e \<Rightarrow> \<not> is_panic e \<and> w' = w \<and> (IsNotFound e \<longrightarrow> lookup (sel w) (nsname obj) = None))"
    and delete_law: "run_state (Delete api obj) w = (err, w') \<Longrightarrow>
      (case err of None \<Rightarrow> lookup (sel w) (nsname obj) \<noteq> None \<and>
                     (\<exists>os. w' = upd (\<lambda>_. os) w \<and> lookup os = (lookup (sel w))(nsname obj := None))
       | Some e \<Rightarrow> \<not> is_panic e \<and> w' = w \<and> (IsNotFound e \<longrightarrow> lookup (sel w) (nsname obj) = None))"
    and sel_upd: "sel (upd f w) = f (sel w)"
    and upd_upd: "upd f (upd g w) = upd (f \<circ> g) w"
    and upd_same: "upd (\<lambda>_. sel w) w = w"
begin

text \<open>The laws as rules for weakest preconditions.\<close>

lemma wp_Get:
  assumes "\<And>e. \<not> is_panic e \<Longrightarrow> (IsNotFound e \<Longrightarrow> lookup (sel w) k = None) \<Longrightarrow> Q (Inl e) w"
    and "\<And>obj. lookup (sel w) k = Some obj \<Longrightarrow> nsname obj = k \<Longrightarrow> Q (Inr obj) w"
  shows "wp (Get api k) Q w"
proof (rule wpI)
  fix r w' assume "run_state (Get api k) w = (r, w')"
  from get_law [OF this] assms show "Q r w'" by (cases r) (auto dest: lookup_nsname)
qed

lemma wp_List:
  assumes "\<And>e. \<not> is_panic e \<Longrightarrow> (IsNotFound e \<Longrightarrow> lookup (sel w) = Map.empty) \<Longrightarrow> Q (Inl e) w"
    and "\<And>os. distinct (map nsname os) \<Longrightarrow>
           (\<And>obj. obj \<in> set os \<longleftrightarrow> lookup (sel w) (nsname obj) = Some obj \<and> listed opts obj) \<Longrightarrow> Q (Inr os) w"
  shows "wp (ListObjs api opts) Q w"
proof (rule wpI)
  fix r w' assume "run_state (ListObjs api opts) w = (r, w')"
  from list_law [OF this] assms show "Q r w'" by (cases r) auto
qed

lemma wp_Create:
  assumes "\<And>e. \<not> is_panic e \<Longrightarrow> (IsAlreadyExists e \<Longrightarrow> lookup (sel w) (nsname obj) \<noteq> None) \<Longrightarrow> Q (Some e) w"
    and "\<And>obj' os. served obj obj' \<Longrightarrow> lookup (sel w) (nsname obj) = None \<Longrightarrow>
           lookup os = (lookup (sel w))(nsname obj \<mapsto> obj') \<Longrightarrow> Q None (upd (\<lambda>_. os) w)"
  shows "wp (Create api obj) Q w"
proof (rule wpI)
  fix r w' assume "run_state (Create api obj) w = (r, w')"
  from create_law [OF this] assms show "Q r w'" by (cases r) auto
qed

lemma wp_Update:
  assumes "\<And>e. \<not> is_panic e \<Longrightarrow> (IsNotFound e \<Longrightarrow> lookup (sel w) (nsname obj) = None) \<Longrightarrow> Q (Some e) w"
    and "\<And>obj' os. served obj obj' \<Longrightarrow> lookup (sel w) (nsname obj) \<noteq> None \<Longrightarrow>
           lookup os = (lookup (sel w))(nsname obj \<mapsto> obj') \<Longrightarrow> Q None (upd (\<lambda>_. os) w)"
  shows "wp (Update api obj) Q w"
proof (rule wpI)
  fix r w' assume "run_state (Update api obj) w = (r, w')"
  from update_law [OF this] assms show "Q r w'" by (cases r) auto
qed

lemma wp_Delete:
  assumes "\<And>e. \<not> is_panic e \<Longrightarrow> (IsNotFound e \<Longrightarrow> lookup (sel w) (nsname obj) = None) \<Longrightarrow> Q (Some e) w"
    and "\<And>os. lookup (sel w) (nsname obj) \<noteq> None \<Longrightarrow>
           lookup os = (lookup (sel w))(nsname obj := None) \<Longrightarrow> Q None (upd (\<lambda>_. os) w)"
  shows "wp (Delete api obj) Q w"
proof (rule wpI)
  fix r w' assume "run_state (Delete api obj) w = (r, w')"
  from delete_law [OF this] assms show "Q r w'" by (cases r) auto
qed

text \<open>A loop of deletions removes only what it is given, and all of it unless it stops at an error.\<close>

lemma wp_deleteLoop:
  "wp (deleteLoop api os) (\<lambda>r w'. \<exists>os'. w' = upd (\<lambda>_. os') w
     \<and> (\<forall>k. lookup os' k = lookup (sel w) k \<or> lookup os' k = None \<and> k \<in> nsname ` set os)
     \<and> (case r of None \<Rightarrow> \<forall>obj\<in>set os. lookup os' (nsname obj) = None | Some e \<Rightarrow> \<not> is_panic e)) w"
proof (induction os arbitrary: w)
  case Nil
  show ?case using upd_same [of w] by (auto simp: wp_simps intro!: exI [of _ "sel w"])
next
  case (Cons obj os)
  show ?case
  proof (simp add: wp_simps, rule wp_Delete, goal_cases)
    case (1 e)
    then show ?case using upd_same [of w] by (auto simp: wp_simps intro!: exI [of _ "sel w"])
  next
    case (2 os1)
    show ?case
    proof (simp add: wp_simps, rule wp_conseq [OF Cons.IH], elim exE conjE, goal_cases)
      case (1 r w' os')
      have "lookup os' k = lookup (sel w) k \<or> lookup os' k = None \<and> k \<in> insert (nsname obj) (nsname ` set os)" for k
        using 1(2) [rule_format, of k] by (auto simp: sel_upd 2(2) split: if_splits)
      moreover have "lookup os' (nsname obj) = None"
        using 1(2) [rule_format, of "nsname obj"] by (auto simp: sel_upd 2(2))
      ultimately show ?case using 1(1,3) by (auto simp: upd_upd comp_def split: option.splits intro!: exI [of _ os'])
    qed
  qed
qed

end

text \<open>
  The controller reference to a FileIntegrity, and the controller of an object: its first owner reference that says so.
\<close>

definition fi_owner :: "FileIntegrity \<Rightarrow> OwnerReference" where
  "fi_owner fi = \<lparr>orAPIVersion = ''fileintegrity.openshift.io/v1alpha1'', orKind = ''FileIntegrity'',
     orName = Name fi, orUID = UID fi, orController = True\<rparr>"

definition GetControllerOf :: "('z) ObjectMeta_scheme \<Rightarrow> OwnerReference option" where
  "GetControllerOf obj = find orController (OwnerReferences obj)"

locale kube_api =
  fixes cl :: client
  assumes cms_laws: "api_laws (cms cl) ConfigMaps ConfigMaps_update served_cm"
    and dss_laws: "api_laws (dss cl) DaemonSets DaemonSets_update served_ds"
    and fis_laws: "api_laws (fis cl) FileIntegrities FileIntegrities_update served_fi"
    and nss_laws: "api_laws (nss cl) NodeStatuses NodeStatuses_update served_meta"
    and nodes_laws: "api_laws (nodes cl) Nodes Nodes_update served_meta"
    and pods_laws: "api_laws (pods cl) Pods Pods_update served_meta"
    and pcs_laws: "api_laws (pcs cl) PriorityClasses PriorityClasses_update served_meta"
    and deps_laws: "api_laws (deps cl) Deployments Deployments_update served_meta"
    and status_law: "run_state (StatusUpdate cl fi) w = (r, w') \<Longrightarrow>
      (case r of None \<Rightarrow> (\<exists>old fil. lookup (FileIntegrities w) (nsname fi) = Some old
                   \<and> w' = w\<lparr>FileIntegrities := fil\<rparr>
                   \<and> lookup fil = (lookup (FileIntegrities w))(nsname fi \<mapsto> old\<lparr>Phase := Phase fi\<rparr>))
       | Some e \<Rightarrow> \<not> is_panic e \<and> w' = w)"
    and phase_law: "run_state (Update (fis cl) fi) w = (None, w') \<Longrightarrow> lookup (FileIntegrities w) (nsname fi) = Some old \<Longrightarrow>
      lookup (FileIntegrities w') (nsname fi) = Some fi' \<Longrightarrow> Phase fi = Phase old \<Longrightarrow> Phase fi' = Phase old"
    and owner_ds: "SetControllerReference_ds cl fi ds = Inr ds' \<Longrightarrow>
      \<exists>refs. ds' = ds\<lparr>OwnerReferences := refs\<rparr>"
    and owner_ns: "SetControllerReference_ns cl fi ns = Inr ns' \<Longrightarrow>
      \<exists>refs. ns' = ns\<lparr>OwnerReferences := refs\<rparr>"
    and controller_ds: "SetControllerReference_ds cl fi ds = Inr ds' \<Longrightarrow> GetControllerOf ds' = Some (fi_owner fi)"
    and controller_ns: "SetControllerReference_ns cl fi ns = Inr ns' \<Longrightarrow> GetControllerOf ns' = Some (fi_owner fi)"
    and owner_errors: "SetControllerReference_ds cl fi ds = Inl e \<Longrightarrow> \<not> is_panic e"
      "SetControllerReference_ns cl fi ns = Inl e \<Longrightarrow> \<not> is_panic e"
begin

sublocale cm: api_laws "cms cl" ConfigMaps ConfigMaps_update served_cm by (rule cms_laws)
sublocale ds: api_laws "dss cl" DaemonSets DaemonSets_update served_ds by (rule dss_laws)
sublocale fi: api_laws "fis cl" FileIntegrities FileIntegrities_update served_fi by (rule fis_laws)
sublocale ns: api_laws "nss cl" NodeStatuses NodeStatuses_update served_meta by (rule nss_laws)
sublocale node: api_laws "nodes cl" Nodes Nodes_update served_meta by (rule nodes_laws)
sublocale pod: api_laws "pods cl" Pods Pods_update served_meta by (rule pods_laws)
sublocale pc: api_laws "pcs cl" PriorityClasses PriorityClasses_update served_meta by (rule pcs_laws)
sublocale dep: api_laws "deps cl" Deployments Deployments_update served_meta by (rule deps_laws)

lemma wp_StatusUpdate:
  assumes "\<And>e. \<not> is_panic e \<Longrightarrow> Q (Some e) w"
    and "\<And>old fil. lookup (FileIntegrities w) (nsname fi) = Some old \<Longrightarrow>
           lookup fil = (lookup (FileIntegrities w))(nsname fi \<mapsto> old\<lparr>Phase := Phase fi\<rparr>) \<Longrightarrow>
           Q None (w\<lparr>FileIntegrities := fil\<rparr>)"
  shows "wp (StatusUpdate cl fi) Q w"
proof (rule wpI)
  fix r w' assume "run_state (StatusUpdate cl fi) w = (r, w')"
  from status_law [OF this] assms show "Q r w'" by (cases r) auto
qed

text \<open>An update of a FileIntegrity as it is stored but for its metadata and spec keeps its phase.\<close>

lemma wp_Update_fi:
  assumes "\<And>e. \<not> is_panic e \<Longrightarrow> Q (Some e) w"
    and "\<And>old fi' os. lookup (FileIntegrities w) (nsname fi) = Some old \<Longrightarrow> served_fi fi fi' \<Longrightarrow> (Phase fi = Phase old \<Longrightarrow> Phase fi' = Phase old) \<Longrightarrow>
           lookup os = (lookup (FileIntegrities w))(nsname fi \<mapsto> fi') \<Longrightarrow> Q None (w\<lparr>FileIntegrities := os\<rparr>)"
  shows "wp (Update (fis cl) fi) Q w"
proof (rule wpI)
  fix r w' assume run: "run_state (Update (fis cl) fi) w = (r, w')"
  show "Q r w'"
  proof (cases r)
    case (Some e)
    with fi.update_law [OF run] assms(1) show ?thesis by simp
  next
    case None
    with fi.update_law [OF run] obtain old fi' os where stored: "lookup (FileIntegrities w) (nsname fi) = Some old" "served_fi fi fi'"
      and w': "w' = w\<lparr>FileIntegrities := os\<rparr>" "lookup os = (lookup (FileIntegrities w))(nsname fi \<mapsto> fi')" by auto
    with phase_law [of fi w w' old fi'] run None have "Phase fi = Phase old \<Longrightarrow> Phase fi' = Phase old" by simp
    from assms(2) [OF stored this w'(2)] show ?thesis by (simp add: None w'(1))
  qed
qed

end

section \<open>An in-memory server\<close>

text \<open>
  \<open>faults verb key\<close> says whether the call fails and with which error; an injected error is never
  NotFound, AlreadyExists or a panic (\<open>honest\<close>), those are only answered when they are true.
\<close>

type_synonym faults = "string \<Rightarrow> NamespacedName \<Rightarrow> error option"

definition honest :: "faults \<Rightarrow> bool" where
  "honest f \<longleftrightarrow> (\<forall>v k e. f v k = Some e \<longrightarrow> \<not> IsNotFound e \<and> \<not> IsAlreadyExists e \<and> \<not> is_panic e)"

definition no_faults :: faults where
  "no_faults v k = None"

fun uniq :: "('z) ObjectMeta_scheme list \<Rightarrow> ('z) ObjectMeta_scheme list" where
  "uniq [] = []"
| "uniq (obj # os) = obj # filter (\<lambda>x. nsname x \<noteq> nsname obj) (uniq os)"

definition mem_api :: "faults \<Rightarrow> string \<Rightarrow> (world \<Rightarrow> ('z) ObjectMeta_scheme list)
    \<Rightarrow> ((('z) ObjectMeta_scheme list \<Rightarrow> ('z) ObjectMeta_scheme list) \<Rightarrow> world \<Rightarrow> world)
    \<Rightarrow> (('z) ObjectMeta_scheme) api" where
  "mem_api f kind sel upd =
     \<lparr>Get = (\<lambda>k. State (\<lambda>w. case f (''get '' @ kind) k of Some e \<Rightarrow> (Inl e, w)
        | None \<Rightarrow> (case lookup (sel w) k of None \<Rightarrow> (Inl (NotFound (snd k)), w) | Some obj \<Rightarrow> (Inr obj, w)))),
      ListObjs = (\<lambda>opts. State (\<lambda>w. case f (''list '' @ kind) (loNamespace opts, '''') of Some e \<Rightarrow> (Inl e, w)
        | None \<Rightarrow> (Inr (filter (listed opts) (uniq (sel w))), w))),
      Create = (\<lambda>obj. State (\<lambda>w. case f (''create '' @ kind) (nsname obj) of Some e \<Rightarrow> (Some e, w)
        | None \<Rightarrow> (case lookup (sel w) (nsname obj) of Some _ \<Rightarrow> (Some (AlreadyExists (Name obj)), w)
            | None \<Rightarrow> (None, upd (\<lambda>_. sel w @ [obj]) w)))),
      Update = (\<lambda>obj. State (\<lambda>w. case f (''update '' @ kind) (nsname obj) of Some e \<Rightarrow> (Some e, w)
        | None \<Rightarrow> (case lookup (sel w) (nsname obj) of None \<Rightarrow> (Some (NotFound (Name obj)), w)
            | Some _ \<Rightarrow> (None, upd (\<lambda>_. map (\<lambda>x. if nsname x = nsname obj then obj else x) (sel w)) w)))),
      Delete = (\<lambda>obj. State (\<lambda>w. case f (''delete '' @ kind) (nsname obj) of Some e \<Rightarrow> (Some e, w)
        | None \<Rightarrow> (case lookup (sel w) (nsname obj) of None \<Rightarrow> (Some (NotFound (Name obj)), w)
            | Some _ \<Rightarrow> (None, upd (\<lambda>_. filter (\<lambda>x. nsname x \<noteq> nsname obj) (sel w)) w))))\<rparr>"

definition mem_client :: "faults \<Rightarrow> client" where
  "mem_client f =
     \<lparr>cms = mem_api f ''configmaps'' ConfigMaps ConfigMaps_update,
      dss = mem_api f ''daemonsets'' DaemonSets DaemonSets_update,
      fis = mem_api f ''fileintegrities'' FileIntegrities FileIntegrities_update,
      nss = mem_api f ''fileintegritynodestatuses'' NodeStatuses NodeStatuses_update,
      nodes = mem_api f ''nodes'' Nodes Nodes_update,
      pods = mem_api f ''pods'' Pods Pods_update,
      pcs = mem_api f ''priorityclasses'' PriorityClasses PriorityClasses_update,
      deps = mem_api f ''deployments'' Deployments Deployments_update,
      StatusUpdate = (\<lambda>fi. State (\<lambda>w. case f ''status fileintegrities'' (nsname fi) of Some e \<Rightarrow> (Some e, w)
        | None \<Rightarrow> (case lookup (FileIntegrities w) (nsname fi) of None \<Rightarrow> (Some (NotFound (Name fi)), w)
            | Some old \<Rightarrow> (None, w\<lparr>FileIntegrities :=
                map (\<lambda>x. if nsname x = nsname fi then old\<lparr>Phase := Phase fi\<rparr> else x) (FileIntegrities w)\<rparr>)))),
      SetControllerReference_ds = (\<lambda>fi ds. Inr (ds\<lparr>OwnerReferences := [fi_owner fi]\<rparr>)),
      SetControllerReference_ns = (\<lambda>fi ns. Inr (ns\<lparr>OwnerReferences := [fi_owner fi]\<rparr>))\<rparr>"

lemma lookup_append: "lookup (os @ os') k = (case lookup os k of None \<Rightarrow> lookup os' k | Some x \<Rightarrow> Some x)"
  by (induction os) auto

lemma lookup_replace:
  assumes "lookup os (nsname obj) \<noteq> None" and "nsname obj' = nsname obj"
  shows "lookup (map (\<lambda>x. if nsname x = nsname obj then obj' else x) os) = (lookup os)(nsname obj \<mapsto> obj')"
proof
  fix k
  have other: "k \<noteq> nsname obj \<Longrightarrow> lookup (map (\<lambda>x. if nsname x = nsname obj then obj' else x) os) k = lookup os k"
    using assms(2) by (induction os) auto
  have here: "lookup os (nsname obj) \<noteq> None \<Longrightarrow>
      lookup (map (\<lambda>x. if nsname x = nsname obj then obj' else x) os) (nsname obj) = Some obj'"
    using assms(2) by (induction os) auto
  show "lookup (map (\<lambda>x. if nsname x = nsname obj then obj' else x) os) k = ((lookup os)(nsname obj \<mapsto> obj')) k"
    using other here assms(1) by auto
qed

lemma lookup_filter_key:
  "lookup (filter (\<lambda>x. nsname x \<noteq> k) os) = (lookup os)(k := None)"
proof
  fix k' show "lookup (filter (\<lambda>x. nsname x \<noteq> k) os) k' = ((lookup os)(k := None)) k'"
    by (induction os) auto
qed

lemma uniq_lookup: "x \<in> set (uniq os) \<longleftrightarrow> lookup os (nsname x) = Some x"
  by (induction os) auto

lemma distinct_uniq: "distinct (map nsname (uniq os))"
  by (induction os) (auto simp: distinct_map inj_on_def)

lemma honestD: "honest f \<Longrightarrow> f v k = Some e \<Longrightarrow> \<not> IsNotFound e \<and> \<not> IsAlreadyExists e \<and> \<not> is_panic e"
  unfolding honest_def by blast

lemma distinct_filter_keys: "distinct (map nsname os) \<Longrightarrow> distinct (map nsname (filter P os))"
  by (induction os) auto

lemma mem_api_laws:
  assumes "honest f" and "\<And>g w. sel (upd g w) = g (sel w)"
    and "\<And>obj. served obj obj" and "\<And>g h w. upd g (upd h w) = upd (g \<circ> h) w" and "\<And>w. upd (\<lambda>_. sel w) w = w"
  shows "api_laws (mem_api f kind sel upd) sel upd served"
proof (unfold_locales, goal_cases)
  case (1 k w r w')
  then show ?case by (auto simp: mem_api_def split: option.splits dest: honestD [OF assms(1)])
next
  case (2 opts w r w')
  have "distinct (map nsname (filter (listed opts) (uniq (sel w))))"
    by (rule distinct_filter_keys) (rule distinct_uniq)
  with 2 show ?case by (auto simp: mem_api_def uniq_lookup split: option.splits dest: honestD [OF assms(1)])
next
  case (3 obj w r w')
  show ?case
  proof (cases r)
    case None
    with 3 assms(3) show ?thesis
      by (auto simp: mem_api_def lookup_append fun_eq_iff split: option.splits
          intro!: exI [of _ obj] exI [of _ "sel w @ [obj]"])
  qed (use 3 in \<open>auto simp: mem_api_def split: option.splits dest: honestD [OF assms(1)]\<close>)
next
  case (4 obj w r w')
  show ?case
  proof (cases r)
    case None
    with 4 assms(3) show ?thesis
      by (auto simp: mem_api_def lookup_replace split: option.splits
          intro!: exI [of _ obj] exI [of _ "map (\<lambda>x. if nsname x = nsname obj then obj else x) (sel w)"])
  qed (use 4 in \<open>auto simp: mem_api_def split: option.splits dest: honestD [OF assms(1)]\<close>)
next
  case (5 obj w r w')
  show ?case
  proof (cases r)
    case None
    with 5 show ?thesis
      by (auto simp: mem_api_def lookup_filter_key split: option.splits
          intro!: exI [of _ "filter (\<lambda>x. nsname x \<noteq> nsname obj) (sel w)"])
  qed (use 5 in \<open>auto simp: mem_api_def split: option.splits dest: honestD [OF assms(1)]\<close>)
next
  case (6 g w)
  show ?case by (rule assms(2))
next
  case (7 g h w)
  show ?case by (rule assms(4))
next
  case (8 w)
  show ?case by (rule assms(5))
qed

lemma served_refl [simp]: "served_meta obj obj" "served_cm cm cm" "served_ds ds ds" "served_fi fi fi"
  by (simp_all add: served_meta_def served_cm_def served_ds_def served_fi_def)

lemma mem_client_api:
  assumes "honest f"
  shows "kube_api (mem_client f)"
proof (rule kube_api.intro, goal_cases)
  case (9 fi w r w')
  show ?case
  proof (cases r)
    case None
    with 9 obtain old where "lookup (FileIntegrities w) (nsname fi) = Some old"
      by (auto simp: mem_client_def split: option.splits)
    moreover have "nsname (old\<lparr>Phase := Phase fi\<rparr>) = nsname fi"
      using lookup_nsname [OF calculation] by (simp add: nsname_def)
    ultimately show ?thesis using 9 None
      by (auto simp: mem_client_def lookup_replace split: option.splits)
  qed (use 9 in \<open>auto simp: mem_client_def split: option.splits dest: honestD [OF assms]\<close>)
next
  case (10 fi w w' old fi')
  then show ?case by (auto simp: mem_client_def mem_api_def lookup_replace split: option.splits)
qed (auto simp: mem_client_def GetControllerOf_def fi_owner_def intro!: mem_api_laws assms)

lemma honest_no_faults [simp]: "honest no_faults"
  by (simp add: honest_def no_faults_def)

interpretation mem: kube_api "mem_client no_faults"
  by (rule mem_client_api) simp

section \<open>Frames\<close>

text \<open>
  What a step may touch: config maps, daemon sets, FileIntegrities and node statuses at the given
  keys, and pods by deletion. Nodes, priority classes and deployments are never written.
\<close>

definition eq_off :: "'k set \<Rightarrow> ('k \<Rightarrow> 'v) \<Rightarrow> ('k \<Rightarrow> 'v) \<Rightarrow> bool" where
  "eq_off K f g \<longleftrightarrow> (\<forall>k. k \<notin> K \<longrightarrow> g k = f k)"

lemma eq_off_refl [simp]: "eq_off K f f"
  by (simp add: eq_off_def)

lemma eq_off_trans: "eq_off K f g \<Longrightarrow> eq_off K g h \<Longrightarrow> eq_off K f h"
  by (simp add: eq_off_def)

lemma eq_off_mono: "eq_off K f g \<Longrightarrow> K \<subseteq> L \<Longrightarrow> eq_off L f g"
  unfolding eq_off_def by blast

lemma eq_off_upd: "k \<in> K \<Longrightarrow> eq_off K f (f(k := v))"
  by (auto simp: eq_off_def)

lemma eq_offD: "eq_off K f g \<Longrightarrow> k \<notin> K \<Longrightarrow> g k = f k"
  by (simp add: eq_off_def)

definition frame :: "NamespacedName set \<Rightarrow> NamespacedName set \<Rightarrow> NamespacedName set \<Rightarrow> NamespacedName set
    \<Rightarrow> world \<Rightarrow> world \<Rightarrow> bool" where
  "frame C D F N w w' \<longleftrightarrow>
     Nodes w' = Nodes w \<and> PriorityClasses w' = PriorityClasses w \<and> Deployments w' = Deployments w \<and>
     eq_off C (lookup (ConfigMaps w)) (lookup (ConfigMaps w')) \<and>
     eq_off D (lookup (DaemonSets w)) (lookup (DaemonSets w')) \<and>
     eq_off F (lookup (FileIntegrities w)) (lookup (FileIntegrities w')) \<and>
     eq_off N (lookup (NodeStatuses w)) (lookup (NodeStatuses w')) \<and>
     lookup (Pods w') \<subseteq>\<^sub>m lookup (Pods w)"

lemma frame_refl [simp]: "frame C D F N w w"
  by (simp add: frame_def)

lemma frame_trans: "frame C D F N w w' \<Longrightarrow> frame C D F N w' w'' \<Longrightarrow> frame C D F N w w''"
  by (auto simp: frame_def intro: eq_off_trans map_le_trans)

lemma frame_mono: "frame C D F N w w' \<Longrightarrow> C \<subseteq> C' \<Longrightarrow> D \<subseteq> D' \<Longrightarrow> F \<subseteq> F' \<Longrightarrow> N \<subseteq> N' \<Longrightarrow> frame C' D' F' N' w w'"
  by (auto simp: frame_def intro: eq_off_mono)

lemma frame_metrics [simp]:
  "frame C D F N w (w'\<lparr>metrics := m\<rparr>) = frame C D F N w w'"
  "frame C D F N w (w'\<lparr>events := es\<rparr>) = frame C D F N w w'"
  "frame C D F N (w\<lparr>metrics := m\<rparr>) w' = frame C D F N w w'"
  "frame C D F N (w\<lparr>events := es\<rparr>) w' = frame C D F N w w'"
  by (simp_all add: frame_def)

lemma frame_store:
  "lookup os = (lookup (ConfigMaps w))(k := x) \<Longrightarrow> k \<in> C \<Longrightarrow> frame C D F N w (w\<lparr>ConfigMaps := os\<rparr>)"
  "lookup ds = (lookup (DaemonSets w))(k := y) \<Longrightarrow> k \<in> D \<Longrightarrow> frame C D F N w (w\<lparr>DaemonSets := ds\<rparr>)"
  "lookup fs = (lookup (FileIntegrities w))(k := z) \<Longrightarrow> k \<in> F \<Longrightarrow> frame C D F N w (w\<lparr>FileIntegrities := fs\<rparr>)"
  "lookup ns = (lookup (NodeStatuses w))(k := v) \<Longrightarrow> k \<in> N \<Longrightarrow> frame C D F N w (w\<lparr>NodeStatuses := ns\<rparr>)"
  by (auto simp: frame_def eq_off_upd)

lemma frame_keeps:
  assumes "frame C D F N w w'"
  shows "k \<notin> C \<Longrightarrow> lookup (ConfigMaps w') k = lookup (ConfigMaps w) k"
    "k \<notin> D \<Longrightarrow> lookup (DaemonSets w') k = lookup (DaemonSets w) k"
    "k \<notin> F \<Longrightarrow> lookup (FileIntegrities w') k = lookup (FileIntegrities w) k"
    "k \<notin> N \<Longrightarrow> lookup (NodeStatuses w') k = lookup (NodeStatuses w) k"
    "Nodes w' = Nodes w" "PriorityClasses w' = PriorityClasses w" "Deployments w' = Deployments w"
  using assms by (auto simp: frame_def dest: eq_offD)

lemma frame_then_store:
  assumes "frame C D F N w0 w"
  shows "lookup os = (lookup (ConfigMaps w))(k := x) \<Longrightarrow> k \<in> C \<Longrightarrow> frame C D F N w0 (w\<lparr>ConfigMaps := os\<rparr>)"
    "lookup ds = (lookup (DaemonSets w))(k := y) \<Longrightarrow> k \<in> D \<Longrightarrow> frame C D F N w0 (w\<lparr>DaemonSets := ds\<rparr>)"
    "lookup fs = (lookup (FileIntegrities w))(k := z) \<Longrightarrow> k \<in> F \<Longrightarrow> frame C D F N w0 (w\<lparr>FileIntegrities := fs\<rparr>)"
    "lookup ns = (lookup (NodeStatuses w))(k := v) \<Longrightarrow> k \<in> N \<Longrightarrow> frame C D F N w0 (w\<lparr>NodeStatuses := ns\<rparr>)"
  by (rule frame_trans [OF assms], rule frame_store; assumption)+

end
