(* ===== verification/Names.thy ===== *)
theory Names
  imports Common
begin

text \<open>
  Object names, \<open>src/pkg/common/name.go\<close> and the name functions of \<open>util.go\<close>: a friendly name,
  or a prefix and the SHA-1 of it when it is too long. SHA-1 (Go's \<open>crypto/sha1\<close>) is written out
  on 32-bit words, so the bounds on the names need no assumption about the hash.
\<close>

unbundle bit_operations_syntax

section \<open>SHA-1\<close>

type_synonym w32 = "32 word"

definition sha1_pad :: "nat list \<Rightarrow> nat list" where
  "sha1_pad msg =
     (let n = length msg;
          zeros = (119 - n mod 64) mod 64
      in msg @ [128] @ replicate zeros 0 @ map (\<lambda>i. (8 * n) div 256 ^ (7 - i) mod 256) [0..<8])"

fun be_words :: "nat list \<Rightarrow> w32 list" where
  "be_words (a # b # c # d # bs) =
     (of_nat a * 16777216 + of_nat b * 65536 + of_nat c * 256 + of_nat d) # be_words bs"
| "be_words _ = []"

text \<open>The message schedule, newest word first: \<open>ws ! 2\<close> is the word three steps back.\<close>

fun sha1_expand :: "nat \<Rightarrow> w32 list \<Rightarrow> w32 list" where
  "sha1_expand 0 ws = ws"
| "sha1_expand (Suc k) ws =
     sha1_expand k (word_rotl 1 ((ws ! 2) XOR (ws ! 7) XOR (ws ! 13) XOR (ws ! 15)) # ws)"

type_synonym sha1_state = "w32 \<times> w32 \<times> w32 \<times> w32 \<times> w32"

definition sha1_f :: "nat \<Rightarrow> w32 \<Rightarrow> w32 \<Rightarrow> w32 \<Rightarrow> w32" where
  "sha1_f t b c d =
     (if t < 20 then (b AND c) OR ((NOT b) AND d)
      else if t < 40 then b XOR c XOR d
      else if t < 60 then (b AND c) OR (b AND d) OR (c AND d)
      else b XOR c XOR d)"

definition sha1_k :: "nat \<Rightarrow> w32" where
  "sha1_k t = (if t < 20 then 0x5A827999 else if t < 40 then 0x6ED9EBA1
     else if t < 60 then 0x8F1BBCDC else 0xCA62C1D6)"

fun sha1_rounds :: "nat \<Rightarrow> w32 list \<Rightarrow> sha1_state \<Rightarrow> sha1_state" where
  "sha1_rounds t [] st = st"
| "sha1_rounds t (w # ws) (a, b, c, d, e) =
     sha1_rounds (Suc t) ws
       (word_rotl 5 a + sha1_f t b c d + e + sha1_k t + w, a, word_rotl 30 b, c, d)"

definition sha1_block :: "nat list \<Rightarrow> sha1_state \<Rightarrow> sha1_state" where
  "sha1_block blk st =
     (let ws = rev (sha1_expand 64 (rev (be_words blk)));
          (a, b, c, d, e) = st;
          (a', b', c', d', e') = sha1_rounds 0 ws st
      in (a + a', b + b', c + c', d + d', e + e'))"

function sha1_blocks :: "nat list \<Rightarrow> sha1_state \<Rightarrow> sha1_state" where
  "sha1_blocks bs st = (if bs = [] then st else sha1_blocks (drop 64 bs) (sha1_block (take 64 bs) st))"
  by pat_completeness auto
termination
  by (relation "measure (\<lambda>(bs, st). length bs)") auto

declare sha1_blocks.simps [simp del]

definition sha1_sum :: "string \<Rightarrow> sha1_state" where
  "sha1_sum s = sha1_blocks (sha1_pad (map of_char s))
     (0x67452301, 0xEFCDAB89, 0x98BADCFE, 0x10325476, 0xC3D2E1F0)"

definition hex_digit :: "nat \<Rightarrow> char" where
  "hex_digit n = (if n < 10 then char_of (48 + n) else char_of (87 + n))"

definition hex32 :: "w32 \<Rightarrow> string" where
  "hex32 w = map (\<lambda>i. hex_digit (unat w div 16 ^ (7 - i) mod 16)) [0..<8]"

text \<open>\<open>fmt.Sprintf("%x", hasher.Sum(nil))\<close>\<close>

definition sha1_hex :: "string \<Rightarrow> string" where
  "sha1_hex s = (case sha1_sum s of (a, b, c, d, e) \<Rightarrow> hex32 a @ hex32 b @ hex32 c @ hex32 d @ hex32 e)"

lemma length_sha1_hex [simp]: "length (sha1_hex s) = 40"
  by (simp add: sha1_hex_def hex32_def split: prod.splits)

section \<open>Names of bounded length\<close>

text \<open>The formatted name is the argument \<open>friendlyName\<close>.\<close>

definition LengthName :: "nat \<Rightarrow> string \<Rightarrow> string \<Rightarrow> error + string" where
  "LengthName maxLen hashPrefix friendlyName =
     (if length friendlyName < maxLen then Inr friendlyName
      else
        (let hashedName = hashPrefix @ sha1_hex friendlyName in
         if length hashedName \<ge> maxLen
         then Inl (GoError (''Cannot shorten '' @ friendlyName @ '' with prefix '' @ hashPrefix))
         else Inr hashedName))"

definition maxDNSLen :: nat where "maxDNSLen = 64"

definition DNSLengthName :: "string \<Rightarrow> string \<Rightarrow> string" where
  "DNSLengthName hashPrefix friendlyName =
     (case LengthName maxDNSLen hashPrefix friendlyName of Inl _ \<Rightarrow> '''' | Inr name \<Rightarrow> name)"

definition DaemonSetName :: "string \<Rightarrow> string" where
  "DaemonSetName name = DNSLengthName DaemonSetPrefix (DaemonSetPrefix @ ''-'' @ name)"

definition ReinitDaemonSetName :: "string \<Rightarrow> string" where
  "ReinitDaemonSetName name = DNSLengthName ReinitDaemonSetPrefix (ReinitDaemonSetPrefix @ ''-'' @ name)"

definition ReinitDaemonSetNodeName :: "string \<Rightarrow> string \<Rightarrow> string" where
  "ReinitDaemonSetNodeName name node =
     (if length node = 0 then ReinitDaemonSetName name
      else DNSLengthName ReinitDaemonSetPrefix (ReinitDaemonSetPrefix @ ''-'' @ name @ ''-'' @ node))"

lemmas name_defs = DaemonSetName_def ReinitDaemonSetName_def ReinitDaemonSetNodeName_def
  DaemonSetPrefix_def ReinitDaemonSetPrefix_def

text \<open>With a prefix of at most 23 bytes the hashed name always fits: the error cannot occur.\<close>

lemma LengthName_ok:
  assumes "length hashPrefix < 24"
  shows "\<exists>name. LengthName maxDNSLen hashPrefix friendlyName = Inr name \<and> length name < 64
    \<and> (length friendlyName < 64 \<longrightarrow> name = friendlyName)
    \<and> (length friendlyName \<ge> 64 \<longrightarrow> name = hashPrefix @ sha1_hex friendlyName)"
  using assms by (auto simp: LengthName_def maxDNSLen_def Let_def)

lemma DNSLengthName_cases:
  assumes "length hashPrefix < 24"
  shows "DNSLengthName hashPrefix f = (if length f < 64 then f else hashPrefix @ sha1_hex f)"
  using LengthName_ok [OF assms, of f] by (auto simp: DNSLengthName_def)

lemma DaemonSetName_eq: "DaemonSetName name =
    (if length name < 59 then ''aide-'' @ name else ''aide'' @ sha1_hex (''aide-'' @ name))"
  by (simp add: DaemonSetName_def DaemonSetPrefix_def DNSLengthName_cases)

lemma ReinitDaemonSetName_eq: "ReinitDaemonSetName name =
    (if length name < 55 then ''aide-ini-'' @ name else ''aide-ini'' @ sha1_hex (''aide-ini-'' @ name))"
  by (simp add: ReinitDaemonSetName_def ReinitDaemonSetPrefix_def DNSLengthName_cases)

text \<open>
  Every daemon set name the operator makes is a non-empty string of at most 63 bytes that
  starts with the prefix of its kind, whatever the lengths of the FileIntegrity and node names:
  the error branch of the name shortener is never taken for them.
\<close>

theorem daemonset_names_bounded:
  "length (DaemonSetName name) \<le> 63 \<and> HasPrefix (DaemonSetName name) DaemonSetPrefix
   \<and> length (ReinitDaemonSetNodeName name node) \<le> 63
   \<and> HasPrefix (ReinitDaemonSetNodeName name node) ReinitDaemonSetPrefix"
  by (simp add: name_defs DNSLengthName_cases HasPrefix_iff)

text \<open>
  Names up to 58 bytes are kept readable, so two such FileIntegrity objects never share a
  daemon set name.
\<close>

theorem daemonset_names_injective:
  assumes "length a < 59" and "length b < 59" and "DaemonSetName a = DaemonSetName b"
  shows "a = b"
  using assms by (simp add: DaemonSetName_eq)

theorem daemonset_names_injective_witness:
  "DaemonSetName ''worker-fileintegrity'' \<noteq> DaemonSetName ''master-fileintegrity''"
  using daemonset_names_injective [of "''worker-fileintegrity''" "''master-fileintegrity''"] by auto

text \<open>
  The names of the scanning and the re-init daemon sets are not separate: a FileIntegrity whose
  name is "ini-" followed by another one's name owns a scanning daemon set with the name of the other
  one's re-init daemon set.
\<close>

theorem daemonset_names_clash:
  assumes "length name < 55"
  shows "DaemonSetName (''ini-'' @ name) = ReinitDaemonSetNodeName name ''''"
  using assms by (simp add: DaemonSetName_eq ReinitDaemonSetName_eq ReinitDaemonSetNodeName_def)

theorem daemonset_names_clash_witness:
  "DaemonSetName ''ini-worker'' = ReinitDaemonSetNodeName ''worker'' ''''"
  using daemonset_names_clash [of "''worker''"] by simp

end
