(* ===== verification/Aide_Config.thy ===== *)
theory Aide_Config
  imports Common
begin

text \<open>
  The AIDE configuration: \<open>src/pkg/controller/fileintegrity/config.go\<close> turns a user's
  \<open>aide.conf\<close> into one that works on the host file system mounted below \<open>/hostroot\<close>;
  \<open>config_defaults.go\<close> holds the scripts and the default configuration.
\<close>

abbreviation newline :: char where "newline \<equiv> CHR 0x0A"

section \<open>config.go\<close>

text \<open>What one iteration of the loop appends to \<open>conv\<close>.\<close>

definition prepareLine :: "string \<Rightarrow> string" where
  "prepareLine line =
     (if HasPrefix line ''@@define DBDIR'' then ''@@define DBDIR /hostroot/etc/kubernetes'' @ [newline]
      else if HasPrefix line ''@@define LOGDIR'' then ''@@define LOGDIR /hostroot/etc/kubernetes'' @ [newline]
      else if HasPrefix line ''database='' then ''database=file:@@'' @ ''{DBDIR}/aide.db.gz'' @ [newline]
      else if HasPrefix line ''database_out='' then ''database_out=file:@@'' @ ''{DBDIR}/aide.db.gz.new'' @ [newline]
      else if HasPrefix line ''report_url=file'' then ''report_url=file:@@'' @ ''{LOGDIR}/aide.log.new'' @ [newline]
      else if HasPrefix line ''/'' then
        (if HasPrefix line ''/hostroot'' then line @ [newline]
         else ''/hostroot'' @ line @ [newline])
      else if HasPrefix line ''!/'' then
        (if HasPrefix line ''!/hostroot'' then line @ [newline]
         else ''!/hostroot'' @ drop 1 line @ [newline])
      else if line \<noteq> [newline] then line @ [newline]
      else '''')"

fun prepareLoop :: "string \<Rightarrow> string list \<Rightarrow> string" where
  "prepareLoop conv [] = conv"
| "prepareLoop conv (line # temp) = prepareLoop (conv @ prepareLine line) temp"

definition prepareAideConf :: "string \<Rightarrow> error + string" where
  "prepareAideConf inp =
     (let temp = Split newline inp in
      if length temp = 0 then Inl (GoError ''input empty'')
      else
        (let conv = prepareLoop '''' temp in
         if conv = '''' then Inl (Panic ''slice bounds out of range'')
         else Inr (take (length conv - 1) conv)))"

section \<open>config_defaults.go\<close>

definition aideLogPath :: string where "aideLogPath = ''/hostroot/etc/kubernetes/aide.log''"

definition unlines :: "string list \<Rightarrow> string" where
  "unlines ls = concat (map (\<lambda>l. l @ [newline]) ls)"

definition aideReinitContainerScript :: string where
  "aideReinitContainerScript = unlines [''#!/bin/sh'', ''    touch /hostroot/run/aide.reinit'']"

definition aidePauseContainerScript :: string where
  "aidePauseContainerScript = unlines
     [''#!/bin/sh'',
      CHR 0x09 # ''sleep infinity & PID=$!'',
      CHR 0x09 # ''trap '' @ [CHR 0x22] @ ''kill $PID'' @ [CHR 0x22] @ '' INT TERM'',
      CHR 0x09 # ''wait $PID || true'']"

definition CommonStart018_lines :: "string list" where
  "CommonStart018_lines =
     [''@@define DBDIR /hostroot/etc/kubernetes'',
      ''@@define LOGDIR /hostroot/etc/kubernetes'',
      ''database_in=file:@@'' @ ''{DBDIR}/aide.db.gz'',
      ''database_out=file:@@'' @ ''{DBDIR}/aide.db.gz.new'',
      ''gzip_dbout=yes'',
      ''log_level=warning'',
      ''report_level=changed_attributes'',
      ''report_url=file:@@'' @ ''{LOGDIR}/aide.log.new'',
      ''report_url=stdout'',
      ''PERMS = p+u+g+acl+selinux+xattrs'',
      ''CONTENTEX = sha512+ftype+p+u+g+n+acl+selinux+xattrs'',
      '''',
      ''/hostroot/boot/        CONTENTEX'',
      ''/hostroot/root/'' @ [CHR 0x5C] @ ''..* PERMS'',
      ''/hostroot/root/   CONTENTEX'',
      ''!/hostroot/root/'' @ [CHR 0x5C] @ ''.kube'',
      ''!/hostroot/usr/src/'',
      ''!/hostroot/usr/tmp/'']"

definition CommonEnd018_lines :: "string list" where
  "CommonEnd018_lines = [''# Catch everything else in /etc'', ''/hostroot/etc/    CONTENTEX'']"

definition CommonStart_lines :: "string list" where
  "CommonStart_lines =
     [''@@define DBDIR /hostroot/etc/kubernetes'',
      ''@@define LOGDIR /hostroot/etc/kubernetes'',
      ''database=file:@@'' @ ''{DBDIR}/aide.db.gz'',
      ''database_out=file:@@'' @ ''{DBDIR}/aide.db.gz.new'',
      ''gzip_dbout=yes'',
      ''verbose=5'',
      ''report_url=file:@@'' @ ''{LOGDIR}/aide.log.new'',
      ''report_url=stdout'',
      ''PERMS = p+u+g+acl+selinux+xattrs'',
      ''CONTENT_EX = sha512+ftype+p+u+g+n+acl+selinux+xattrs'',
      '''',
      ''/hostroot/boot/        CONTENT_EX'',
      ''/hostroot/root/'' @ [CHR 0x5C] @ ''..* PERMS'',
      ''/hostroot/root/   CONTENT_EX'',
      ''!/hostroot/root/'' @ [CHR 0x5C] @ ''.kube'',
      ''!/hostroot/usr/src/'',
      ''!/hostroot/usr/tmp/'',
      '''',
      ''/hostroot/usr/    CONTENT_EX'']"

definition CommonEnd_lines :: "string list" where
  "CommonEnd_lines = [''# Catch everything else in /etc'', ''/hostroot/etc/    CONTENT_EX'']"

definition Exclude_lines :: "string list" where
  "Exclude_lines =
     [''# OpenShift specific excludes'',
      ''!/hostroot/opt/'',
      ''!/hostroot/var'',
      ''!/hostroot/etc/NetworkManager/system-connections/'',
      ''!/hostroot/etc/mtab$'',
      ''!/hostroot/etc/.*~'',
      ''!/hostroot/etc/kubernetes/static-pod-resources'',
      ''!/hostroot/etc/kubernetes/aide.*'',
      ''!/hostroot/etc/kubernetes/manifests'',
      ''!/hostroot/etc/kubernetes/kubelet-ca.crt'',
      ''!/hostroot/etc/docker/certs.d'',
      ''!/hostroot/etc/selinux/targeted'',
      ''!/hostroot/etc/openvswitch/conf.db'',
      ''!/hostroot/etc/kubernetes/cni/net.d'',
      ''!/hostroot/etc/kubernetes/cni/net.d/*'',
      ''!/hostroot/etc/machine-config-daemon/currentconfig$'',
      ''!/hostroot/etc/machine-config-daemon/node-annotation.json*'',
      ''!/hostroot/etc/pki/ca-trust/extracted/java/cacerts$'',
      ''!/hostroot/etc/cvo/updatepayloads'',
      ''!/hostroot/etc/cni/multus/certs'',
      ''!/hostroot/etc/kubernetes/compliance-operator'',
      ''!/hostroot/etc/kubernetes/node-feature-discovery'',
      ''!/hostroot/etc/mco/internal-registry-pull-secret.json$'']"

text \<open>The last part of either configuration has no newline at its end.\<close>

definition GetAideConfigDefault :: "Env \<Rightarrow> string" where
  "GetAideConfigDefault env =
     (if Getenv env ''AIDE_VERSION'' = ''0.18''
      then unlines CommonStart018_lines @ unlines Exclude_lines @ Join CommonEnd018_lines [newline]
      else unlines CommonStart_lines @ unlines Exclude_lines @ Join CommonEnd_lines [newline])"

section \<open>The preparation line by line\<close>

definition prepared :: "string \<Rightarrow> string" where
  "prepared line = butlast (prepareLine line)"

lemmas prepared_consts = prepareLine_def HasPrefix_iff

lemma prepareLine_snoc: "newline \<notin> set line \<Longrightarrow> prepareLine line = prepared line @ [newline]"
  unfolding prepared_def by (simp add: prepareLine_def butlast_append) auto

lemma prepared_no_newline: "newline \<notin> set line \<Longrightarrow> newline \<notin> set (prepared line)"
  by (auto simp: prepared_def prepareLine_def butlast_append dest: in_set_dropD)

lemma prepareLoop_concat: "prepareLoop conv ls = conv @ concat (map prepareLine ls)"
  by (induction ls arbitrary: conv) auto

lemma concat_snoc_Join:
  "ls \<noteq> [] \<Longrightarrow> concat (map (\<lambda>l. f l @ [c]) ls) = Join (map f ls) [c] @ [c]"
  by (induction ls rule: induct_list012) auto

lemma unlines_Join: "ls \<noteq> [] \<Longrightarrow> unlines ls @ Join ls' [newline] = Join (ls @ [Join ls' [newline]]) [newline]"
  unfolding unlines_def using concat_snoc_Join [of ls "\<lambda>l. l" newline] by (simp add: Join_snoc)

lemma prepareAideConf_Join:
  "prepareAideConf inp = Inr (Join (map prepared (Split newline inp)) [newline])"
proof -
  let ?ls = "Split newline inp"
  have no_nl: "newline \<notin> set l" if "l \<in> set ?ls" for l
    using that by (rule Split_parts_no_sep)
  have "prepareLoop [] ?ls = concat (map (\<lambda>l. prepared l @ [newline]) ?ls)"
    by (simp add: prepareLoop_concat prepareLine_snoc no_nl cong: map_cong)
  also have "\<dots> = Join (map prepared ?ls) [newline] @ [newline]"
    by (rule concat_snoc_Join) simp
  finally show ?thesis by (simp add: prepareAideConf_def Let_def)
qed

lemma Split_prepared:
  "Split newline (Join (map prepared (Split newline inp)) [newline]) = map prepared (Split newline inp)"
  by (rule Split_Join) (auto simp: prepared_no_newline Split_parts_no_sep)

text \<open>The lines that are replaced by a fixed one, with their replacement.\<close>

definition fixed_lines :: "(string \<times> string) list" where
  "fixed_lines =
     [(''@@define DBDIR'', ''@@define DBDIR /hostroot/etc/kubernetes''),
      (''@@define LOGDIR'', ''@@define LOGDIR /hostroot/etc/kubernetes''),
      (''database='', ''database=file:@@'' @ ''{DBDIR}/aide.db.gz''),
      (''database_out='', ''database_out=file:@@'' @ ''{DBDIR}/aide.db.gz.new''),
      (''report_url=file'', ''report_url=file:@@'' @ ''{LOGDIR}/aide.log.new'')]"

definition selection_line :: "string \<Rightarrow> string" where
  "selection_line line =
     (if HasPrefix line ''/'' \<and> \<not> HasPrefix line ''/hostroot'' then ''/hostroot'' @ line
      else if HasPrefix line ''!/'' \<and> \<not> HasPrefix line ''!/hostroot'' then ''!/hostroot'' @ drop 1 line
      else line)"

lemma slash_not_bang: "HasPrefix line ''/'' \<Longrightarrow> \<not> HasPrefix line ''!/''"
  by (cases line) auto

lemma selection_line_eq:
  "(if HasPrefix line ''/'' then if HasPrefix line ''/hostroot'' then line else ''/hostroot'' @ line
    else if HasPrefix line ''!/'' then if HasPrefix line ''!/hostroot'' then line else ''!/hostroot'' @ drop 1 line
    else line) = selection_line line"
  using slash_not_bang [of line] by (simp only: selection_line_def) auto

lemma butlast_chain:
  "line \<noteq> [n] \<Longrightarrow>
   butlast (if A then a @ [n] else if B then b @ [n] else if C then c @ c' @ [n] else if D then d @ d' @ [n]
      else if E then e @ e' @ [n] else if F then (if G then line @ [n] else g @ line @ [n])
      else if H then (if I then line @ [n] else h @ line' @ [n]) else if line \<noteq> [n] then line @ [n] else [])
   = (if A then a else if B then b else if C then c @ c' else if D then d @ d' else if E then e @ e'
      else if F then (if G then line else g @ line) else if H then (if I then line else h @ line') else line)"
  by (simp add: butlast_append)

lemma find_chain:
  "(case find (\<lambda>(p, _). P p) [(p1, a), (p2, b), (p3, c), (p4, d), (p5, e)] of Some (_, l) \<Rightarrow> l | None \<Rightarrow> z)
   = (if P p1 then a else if P p2 then b else if P p3 then c else if P p4 then d else if P p5 then e else z)"
  by simp

lemma prepared_eq:
  "newline \<notin> set line \<Longrightarrow> prepared line =
     (case find (\<lambda>(p, _). HasPrefix line p) fixed_lines of
        Some (_, l) \<Rightarrow> l | None \<Rightarrow> selection_line line)"
  unfolding prepared_def prepareLine_def fixed_lines_def find_chain
  by (subst butlast_chain) (auto simp only: selection_line_eq list.set)

lemma fixed_lines_found_all:
  "list_all (\<lambda>(p, l). find (\<lambda>(p, _). HasPrefix l p) fixed_lines = Some (p, l) \<and> newline \<notin> set l) fixed_lines"
  by code_simp

lemma fixed_lines_found:
  "(p, l) \<in> set fixed_lines \<Longrightarrow> find (\<lambda>(p, _). HasPrefix l p) fixed_lines = Some (p, l) \<and> newline \<notin> set l"
  using fixed_lines_found_all by (auto simp: list_all_iff)

lemma prepared_fixed: "(p, l) \<in> set fixed_lines \<Longrightarrow> prepared l = l"
  using fixed_lines_found [of p l] by (simp add: prepared_eq)

lemma selection_line_idem: "selection_line (selection_line line) = selection_line line"
  by (auto simp: selection_line_def)

lemma selection_line_not_fixed:
  "find (\<lambda>(p, _). HasPrefix line p) fixed_lines = None \<Longrightarrow>
     find (\<lambda>(p, _). HasPrefix (selection_line line) p) fixed_lines = None"
  by (auto simp: selection_line_def fixed_lines_def split: if_splits)

lemma prepared_idem:
  assumes "newline \<notin> set line"
  shows "prepared (prepared line) = prepared line"
proof (cases "find (\<lambda>(p, _). HasPrefix line p) fixed_lines")
  case None
  have "newline \<notin> set (prepared line)" using assms by (rule prepared_no_newline)
  with None assms show ?thesis
    by (simp add: prepared_eq selection_line_not_fixed selection_line_idem)
next
  case (Some pl)
  then obtain p l where pl: "pl = (p, l)" "(p, l) \<in> set fixed_lines"
    using find_SomeD [OF Some] by (cases pl) auto
  with Some assms show ?thesis by (simp add: prepared_eq prepared_fixed)
qed

section \<open>Properties of the preparation\<close>

text \<open>
  Preparing a configuration always succeeds (neither the input-empty error nor the slice
  panic can happen) and works line by line: the prepared file has exactly the prepared lines of the
  input, in order.
\<close>

theorem prepareAideConf_lines:
  "\<exists>out. prepareAideConf inp = Inr out \<and> Split newline out = map prepared (Split newline inp)"
  by (simp add: prepareAideConf_Join Split_prepared)

text \<open>
  Preparing a prepared configuration changes nothing: the controller compares the stored
  configuration with the freshly prepared one, and a user may feed the operator's own file back.
\<close>

theorem prepareAideConf_idempotent:
  assumes "prepareAideConf inp = Inr out"
  shows "prepareAideConf out = Inr out"
proof -
  from assms have out: "out = Join (map prepared (Split newline inp)) [newline]"
    by (simp add: prepareAideConf_Join)
  have "map prepared (map prepared (Split newline inp)) = map prepared (Split newline inp)"
    by (auto simp: prepared_idem Split_parts_no_sep)
  then show ?thesis unfolding out prepareAideConf_Join [of "Join _ _"] Split_prepared by (simp only:)
qed

theorem prepareAideConf_idempotent_witness:
  "prepareAideConf ''/hostroot/etc  CONTENT_EX'' = Inr ''/hostroot/etc  CONTENT_EX''"
  by (rule prepareAideConf_idempotent [where inp = "''/etc  CONTENT_EX''"])
     (simp add: prepareAideConf_def prepareLine_def)

text \<open>The beginnings of the replaced lines exclude each other, and are no beginnings of selection lines.\<close>

lemma fixed_line_found:
  assumes "(p, r) \<in> set fixed_lines" and "HasPrefix l p"
  shows "find (\<lambda>(p, _). HasPrefix l p) fixed_lines = Some (p, r)"
proof -
  from assms(2) obtain t where l: "l = p @ t" by (auto simp: HasPrefix_iff)
  have "\<forall>(p, r)\<in>set fixed_lines. find (\<lambda>(p', _). HasPrefix (p @ t) p') fixed_lines = Some (p, r)"
    unfolding fixed_lines_def by simp
  with assms(1) show ?thesis unfolding l by blast
qed

lemma prepared_cases:
  assumes "newline \<notin> set l"
  shows "(p, r) \<in> set fixed_lines \<Longrightarrow> HasPrefix l p \<Longrightarrow> prepared l = r"
    and "HasPrefix l ''/'' \<Longrightarrow> prepared l = (if HasPrefix l ''/hostroot'' then l else ''/hostroot'' @ l)"
    and "HasPrefix l ''!/'' \<Longrightarrow> prepared l = (if HasPrefix l ''!/hostroot'' then l else ''!/hostroot'' @ drop 1 l)"
    and "\<not> HasPrefix l ''/'' \<Longrightarrow> \<not> HasPrefix l ''!/'' \<Longrightarrow> \<forall>(p, r)\<in>set fixed_lines. \<not> HasPrefix l p \<Longrightarrow> prepared l = l"
proof -
  show "prepared l = r" if "(p, r) \<in> set fixed_lines" "HasPrefix l p"
    using fixed_line_found [OF that] by (simp add: prepared_eq [OF assms])
  show "prepared l = (if HasPrefix l ''/hostroot'' then l else ''/hostroot'' @ l)" if "HasPrefix l ''/''"
  proof -
    have "find (\<lambda>(p, _). HasPrefix l p) fixed_lines = None" using that by (cases l) (simp_all add: fixed_lines_def)
    then show ?thesis using that slash_not_bang [OF that] by (simp add: prepared_eq [OF assms] selection_line_def)
  qed
  show "prepared l = (if HasPrefix l ''!/hostroot'' then l else ''!/hostroot'' @ drop 1 l)" if "HasPrefix l ''!/''"
  proof -
    have "find (\<lambda>(p, _). HasPrefix l p) fixed_lines = None" "\<not> HasPrefix l ''/''" using that by (cases l; simp add: fixed_lines_def)+
    then show ?thesis using that by (simp add: prepared_eq [OF assms] selection_line_def)
  qed
  show "prepared l = l" if "\<not> HasPrefix l ''/''" "\<not> HasPrefix l ''!/''" "\<forall>(p, r)\<in>set fixed_lines. \<not> HasPrefix l p"
    using that by (simp add: prepared_eq [OF assms] fixed_lines_def selection_line_def)
qed

text \<open>
  C32. Preparing a configuration always succeeds, keeps the number and order of the lines, and changes nothing when done again. Line by line: the
  five settings of database, log and their directories become the operator's own; a line that starts with / or !/ gets /hostroot in front of its path unless the
  path starts with /hostroot already (which /hostrootx does too); every other line stays as it is, comments as well as AIDE's =/path.
\<close>

theorem prepareAideConf_spec:
  "\<exists>out. prepareAideConf inp = Inr out \<and> prepareAideConf out = Inr out \<and> length (Split newline out) = length (Split newline inp) \<and>
     (\<forall>i < length (Split newline inp). let l = Split newline inp ! i; l' = Split newline out ! i in
        (\<forall>(p, r)\<in>set fixed_lines. HasPrefix l p \<longrightarrow> l' = r) \<and>
        (HasPrefix l ''/'' \<longrightarrow> l' = (if HasPrefix l ''/hostroot'' then l else ''/hostroot'' @ l)) \<and>
        (HasPrefix l ''!/'' \<longrightarrow> l' = (if HasPrefix l ''!/hostroot'' then l else ''!/hostroot'' @ drop 1 l)) \<and>
        (\<not> HasPrefix l ''/'' \<and> \<not> HasPrefix l ''!/'' \<and> (\<forall>(p, r)\<in>set fixed_lines. \<not> HasPrefix l p) \<longrightarrow> l' = l))"
proof -
  let ?in = "Split newline inp" let ?out = "Join (map prepared ?in) [newline]"
  have out: "prepareAideConf inp = Inr ?out" by (rule prepareAideConf_Join)
  have lines: "Split newline ?out = map prepared ?in" by (rule Split_prepared)
  have nl: "newline \<notin> set (?in ! i)" if "i < length ?in" for i by (rule Split_parts_no_sep [of _ _ inp]) (use that in simp)
  show ?thesis using prepareAideConf_idempotent [OF out] prepared_cases [OF nl]
    by (intro exI [of _ ?out]) (auto simp: out lines Let_def)
qed

theorem prepareAideConf_spec_witness:
  "prepareAideConf ''/etc  CONTENT_EX'' = Inr ''/hostroot/etc  CONTENT_EX'' \<and> prepareAideConf ''=/etc  PERMS'' = Inr ''=/etc  PERMS''"
proof -
  have "\<exists>out. prepareAideConf ''/etc  CONTENT_EX'' = Inr out \<and> length (Split newline out) = 1 \<and> Split newline out ! 0 = ''/hostroot/etc  CONTENT_EX''"
    using prepareAideConf_spec [of "''/etc  CONTENT_EX''"] by (auto simp: Let_def)
  moreover have "\<exists>out. prepareAideConf ''=/etc  PERMS'' = Inr out \<and> length (Split newline out) = 1 \<and> Split newline out ! 0 = ''=/etc  PERMS''"
    using prepareAideConf_spec [of "''=/etc  PERMS''"] by (auto simp: Let_def fixed_lines_def)
  moreover have "out = x" if "length (Split newline out) = 1" "Split newline out ! 0 = x" for out x
    using that Join_Split [of newline out] by (cases "Split newline out") auto
  ultimately show ?thesis by metis
qed

text \<open>
  AIDE's equals directives are not rewritten, although the function's comment promises
  /hostroot in front of any file directive: =/path keeps naming the container's own file.
\<close>

theorem prepareAideConf_equals_untouched:
  assumes "newline \<notin> set path"
  shows "prepareAideConf (''=/'' @ path) = Inr (''=/'' @ path)"
  using assms by (simp add: prepareAideConf_Join Split_no_sep prepared_eq fixed_lines_def selection_line_def)

theorem prepareAideConf_equals_untouched_witness:
  "prepareAideConf ''=/etc  CONTENT_EX'' = Inr ''=/etc  CONTENT_EX''"
  using prepareAideConf_equals_untouched [of "''etc  CONTENT_EX''"] by simp

lemma default_fixpoint:
  assumes "ls \<noteq> []" "ls' \<noteq> []" "ls'' \<noteq> []"
    and "\<forall>l \<in> set (ls @ ls' @ ls''). newline \<notin> set l \<and> prepared l = l"
  shows "prepareAideConf (unlines ls @ unlines ls' @ Join ls'' [newline])
           = Inr (unlines ls @ unlines ls' @ Join ls'' [newline])"
proof -
  have step: "unlines xs @ Join ys [newline] = Join (xs @ ys) [newline]" if "ys \<noteq> []" for xs ys
    using that by (induction xs) (auto simp: unlines_def Join_Cons)
  have eq: "unlines ls @ unlines ls' @ Join ls'' [newline] = Join (ls @ ls' @ ls'') [newline]"
    using assms(3) by (simp add: step)
  have "Split newline (Join (ls @ ls' @ ls'') [newline]) = ls @ ls' @ ls''"
    using assms by (intro Split_Join) auto
  moreover have "map prepared (ls @ ls' @ ls'') = ls @ ls' @ ls''"
    using assms(4) by (intro map_idI) auto
  ultimately show ?thesis unfolding eq prepareAideConf_Join by simp
qed

lemma selection_prepared: "newline \<notin> set l \<Longrightarrow>
    list_all (\<lambda>(p, _). \<not> HasPrefix l p) fixed_lines \<Longrightarrow> selection_line l = l \<Longrightarrow> prepared l = l"
  by (auto simp: prepared_eq fixed_lines_def)

definition settled :: "string \<Rightarrow> bool" where
  "settled l \<longleftrightarrow> newline \<notin> set l \<and>
     (case find (\<lambda>(p, _). HasPrefix l p) fixed_lines of Some (_, l') \<Rightarrow> l' = l | None \<Rightarrow> selection_line l = l)"

lemma settled_prepared: "settled l \<Longrightarrow> newline \<notin> set l \<and> prepared l = l"
  by (auto simp: settled_def prepared_eq split: option.splits)

lemma Exclude_lines_settled: "list_all settled Exclude_lines"
  unfolding Exclude_lines_def by (simp add: settled_def fixed_lines_def selection_line_def)

lemma Start_lines_settled: "list_all settled CommonStart_lines" "list_all settled CommonEnd_lines"
  unfolding CommonStart_lines_def CommonEnd_lines_def
  by (simp_all add: settled_def fixed_lines_def selection_line_def)

lemma Start018_lines_settled: "list_all settled CommonStart018_lines" "list_all settled CommonEnd018_lines"
  unfolding CommonStart018_lines_def CommonEnd018_lines_def
  by (simp_all add: settled_def fixed_lines_def selection_line_def)

lemmas default_lines_neq = CommonStart_lines_def CommonEnd_lines_def CommonStart018_lines_def
  CommonEnd018_lines_def Exclude_lines_def

text \<open>
  The default configuration, of either AIDE version, is already prepared: giving it to the
  operator as a user configuration yields the same file, hence no re-initialisation.
\<close>

theorem default_config_is_prepared:
  "prepareAideConf (GetAideConfigDefault env) = Inr (GetAideConfigDefault env)"
proof -
  note settled = Exclude_lines_settled Start_lines_settled Start018_lines_settled
  have "CommonStart_lines \<noteq> []" "CommonEnd_lines \<noteq> []" "CommonStart018_lines \<noteq> []"
    "CommonEnd018_lines \<noteq> []" "Exclude_lines \<noteq> []"
    by (simp_all add: default_lines_neq)
  with settled show ?thesis
    unfolding GetAideConfigDefault_def
    by (cases "Getenv env ''AIDE_VERSION'' = ''0.18''")
       (simp_all add: default_fixpoint list_all_iff settled_prepared ball_Un)
qed

end
