(* ===== verification/DaemonSets.thy ===== *)
theory DaemonSets
  imports Client Names Aide_Config
begin

text \<open>
  The objects the FileIntegrity controller renders and how it brings an existing daemon set up to
  date: the object builders and the \<open>updateDS\<close> functions of
  \<open>src/pkg/controller/fileintegrity/fileintegrity_controller.go\<close>. An \<open>updateDS\<close> function
  writes through the pointer it is given and says whether it changed anything; here it returns the
  daemon set and the flag. Those that index \<open>Containers[0]\<close> panic on a pod without containers.
\<close>

section \<open>Arguments of the daemon\<close>

definition getMaxBackups :: "FileIntegrity \<Rightarrow> string" where
  "getMaxBackups fi = Itoa (MaxBackups (Config (fiSpec fi)))"

definition getGracePeriod :: "FileIntegrity \<Rightarrow> string" where
  "getGracePeriod fi =
     (let gracePeriod = GracePeriod (Config (fiSpec fi))
      in Itoa (if gracePeriod < 10 then 10 else gracePeriod))"

definition getDebug :: "FileIntegrity \<Rightarrow> string" where
  "getDebug fi = FormatBool (Debug (fiSpec fi))"

definition daemonArgs :: "string \<Rightarrow> FileIntegrity \<Rightarrow> string list" where
  "daemonArgs dsName fi =
     [''daemon'',
      ''--lc-file='' @ aideLogPath,
      ''--lc-config-map-prefix='' @ dsName,
      ''--owner='' @ Name fi,
      ''--namespace='' @ Namespace fi,
      ''--interval='' @ getGracePeriod fi,
      ''--debug='' @ getDebug fi,
      ''--maxbackups='' @ getMaxBackups fi,
      ''--aideconfigdir=/config'']"

section \<open>Config maps\<close>

definition defaultAIDEConfigMap :: "Env \<Rightarrow> string \<Rightarrow> ConfigMap" where
  "defaultAIDEConfigMap env name =
     \<lparr>Name = name, Namespace = FileIntegrityNamespace env,
      Labels = Some [AideConfigLabelKey \<mapsto> '''', IntegrityOwnerLabelKey \<mapsto> name],
      Annotations = None, OwnerReferences = [], CreationTimestamp = 0, UID = '''',
      Data = Some [DefaultConfDataKey \<mapsto> GetAideConfigDefault env]\<rparr>"

definition aideReinitScript :: "Env \<Rightarrow> ConfigMap" where
  "aideReinitScript env =
     \<lparr>Name = AideReinitScriptConfigMapName, Namespace = FileIntegrityNamespace env,
      Labels = None, Annotations = None, OwnerReferences = [], CreationTimestamp = 0, UID = '''',
      Data = Some [AideScriptKey \<mapsto> aideReinitContainerScript]\<rparr>"

definition aidePauseScript :: "Env \<Rightarrow> ConfigMap" where
  "aidePauseScript env =
     \<lparr>Name = PauseConfigMapName, Namespace = FileIntegrityNamespace env,
      Labels = None, Annotations = None, OwnerReferences = [], CreationTimestamp = 0, UID = '''',
      Data = Some [AidePauseScriptKey \<mapsto> aidePauseContainerScript]\<rparr>"

definition configMapKeyDataMatches :: "ConfigMap \<Rightarrow> ConfigMap \<Rightarrow> string \<Rightarrow> bool" where
  "configMapKeyDataMatches cm1 cm2 key \<longleftrightarrow> mval (Data cm1) key = mval (Data cm2) key"

definition dataMatchesReinitScript :: "Env \<Rightarrow> ConfigMap \<Rightarrow> bool" where
  "dataMatchesReinitScript env cm = configMapKeyDataMatches cm (aideReinitScript env) AideScriptKey"

definition dataMatchesPauseScript :: "Env \<Rightarrow> ConfigMap \<Rightarrow> bool" where
  "dataMatchesPauseScript env cm = configMapKeyDataMatches cm (aidePauseScript env) AidePauseScriptKey"

section \<open>Daemon sets\<close>

definition small_resources :: ResourceRequirements where
  "small_resources = \<lparr>reqMemory = ''10Mi'', reqCPU = ''10m'', limMemory = ''50Mi'', limCPU = ''50m''\<rparr>"

abbreviation host_to_container :: "MountPropagationMode option" where
  "host_to_container \<equiv> Some MountPropagationHostToContainer"

text \<open>The mode is octal 0744.\<close>

definition reinitAideDaemonset :: "Env \<Rightarrow> string \<Rightarrow> FileIntegrity \<Rightarrow> gomap \<Rightarrow> string \<Rightarrow> DaemonSet" where
  "reinitAideDaemonset env reinitDaemonSetName fi matchLabels operatorImage =
     (let img = GetComponentImage env operatorImage OPERATOR; mode = Some 484 in
      \<lparr>Name = reinitDaemonSetName, Namespace = FileIntegrityNamespace env,
       Labels = Some [IntegrityReinitOwnerLabelKey \<mapsto> Name fi],
       Annotations = None, OwnerReferences = [], CreationTimestamp = 0, UID = '''',
       dsSpec =
         \<lparr>dssSelector = Some [''app'' \<mapsto> reinitDaemonSetName],
          dssTemplate =
            \<lparr>tmplLabels = Some [''app'' \<mapsto> reinitDaemonSetName],
             tmplSpec =
               \<lparr>psNodeSelector = matchLabels,
                psTolerations = Tolerations (fiSpec fi),
                psPriorityClassName = PriorityClassName (fiSpec fi),
                psServiceAccountName = OperatorServiceAccountName,
                psInitContainers =
                  [\<lparr>cSecurityContext = Some \<lparr>Privileged = Some True, RunAsUser = Some 0\<rparr>,
                    cName = ''reinit-script'', cImage = img, cCommand = [AideScriptPath],
                    cArgs = [], cEnv = [],
                    cVolumeMounts =
                      [\<lparr>vmName = ''hostroot'', vmMountPath = ''/hostroot'', vmMountPropagation = host_to_container\<rparr>,
                       \<lparr>vmName = AideReinitScriptConfigMapName, vmMountPath = ''/scripts'', vmMountPropagation = None\<rparr>],
                    cResources = small_resources\<rparr>],
                psContainers =
                  [\<lparr>cSecurityContext = None, cName = ''pause-script'', cImage = img,
                    cCommand = [PausePath], cArgs = [], cEnv = [],
                    cVolumeMounts =
                      [\<lparr>vmName = PauseConfigMapName, vmMountPath = ''/scripts'', vmMountPropagation = None\<rparr>],
                    cResources = small_resources\<rparr>],
                psVolumes =
                  [\<lparr>volName = ''hostroot'', volSource = HostPath ''/''\<rparr>,
                   \<lparr>volName = AideReinitScriptConfigMapName,
                    volSource = ConfigMapVolume AideReinitScriptConfigMapName mode\<rparr>,
                   \<lparr>volName = PauseConfigMapName, volSource = ConfigMapVolume PauseConfigMapName mode\<rparr>]\<rparr>\<rparr>\<rparr>,
       dsStatus = no_status\<rparr>)"

abbreviation tab :: char where "tab \<equiv> CHR 0x09"

definition check_folder_script :: string where
  "check_folder_script = Join
     [''if [ ! -d '' @ [CHR 0x22] @ ''/host/etc/kubernetes/static-pod-resources'' @ [CHR 0x22] @ '' ]; then'',
      replicate 9 tab @ ''echo '' @ [CHR 0x22]
        @ ''Directory /etc/kubernetes/static-pod-resources does not exist, exiting.'' @ [CHR 0x22] @ '';'',
      replicate 9 tab @ ''exit 1;'',
      replicate 8 tab @ ''fi''] [newline]"

definition check_folder_container :: "string \<Rightarrow> Container" where
  "check_folder_container img =
     \<lparr>cSecurityContext = Some \<lparr>Privileged = None, RunAsUser = Some 0\<rparr>,
      cName = ''check-folder'', cImage = img, cCommand = [''sh'', ''-c'', check_folder_script],
      cArgs = [], cEnv = [],
      cVolumeMounts =
        [\<lparr>vmName = ''hostroot'', vmMountPath = ''/host'', vmMountPropagation = host_to_container\<rparr>],
      cResources = small_resources\<rparr>"

definition daemon_container :: "string \<Rightarrow> string \<Rightarrow> FileIntegrity \<Rightarrow> Container" where
  "daemon_container img dsName fi =
     \<lparr>cSecurityContext = Some \<lparr>Privileged = Some True, RunAsUser = Some 0\<rparr>,
      cName = ''daemon'', cImage = img, cCommand = [],
      cArgs = daemonArgs dsName fi,
      cEnv = [EnvFieldRef ''NODE_NAME'' ''spec.nodeName'',
              EnvValue ''GODEBUG'' ''madvdontneed=1'',
              EnvValue ''LD_PRELOAD'' MD5_GUARD_LIB],
      cVolumeMounts =
        [\<lparr>vmName = ''hostroot'', vmMountPath = ''/hostroot'', vmMountPropagation = host_to_container\<rparr>,
         \<lparr>vmName = ''config'', vmMountPath = ''/config'', vmMountPropagation = None\<rparr>,
         \<lparr>vmName = ''tmp'', vmMountPath = ''/tmp'', vmMountPropagation = None\<rparr>],
      cResources = \<lparr>reqMemory = ''40Mi'', reqCPU = ''40m'', limMemory = ''600Mi'', limCPU = ''300m''\<rparr>\<rparr>"

definition aideDaemonset :: "Env \<Rightarrow> string \<Rightarrow> FileIntegrity \<Rightarrow> string \<Rightarrow> DaemonSet" where
  "aideDaemonset env dsName fi operatorImage =
     (let img = GetComponentImage env operatorImage OPERATOR in
      \<lparr>Name = dsName, Namespace = FileIntegrityNamespace env,
       Labels = Some [IntegrityOwnerLabelKey \<mapsto> Name fi],
       Annotations = None, OwnerReferences = [], CreationTimestamp = 0, UID = '''',
       dsSpec =
         \<lparr>dssSelector = Some [''app'' \<mapsto> dsName],
          dssTemplate =
            \<lparr>tmplLabels = Some [''app'' \<mapsto> dsName, IntegrityPodLabelKey \<mapsto> '''',
                               IntegrityOwnerLabelKey \<mapsto> Name fi],
             tmplSpec =
               \<lparr>psNodeSelector = NodeSelector (fiSpec fi),
                psTolerations = Tolerations (fiSpec fi),
                psPriorityClassName = PriorityClassName (fiSpec fi),
                psServiceAccountName = DaemonServiceAccountName,
                psInitContainers = [check_folder_container img],
                psContainers = [daemon_container img dsName fi],
                psVolumes =
                  [\<lparr>volName = ''hostroot'', volSource = HostPath ''/''\<rparr>,
                   \<lparr>volName = ''tmp'', volSource = EmptyDir\<rparr>,
                   \<lparr>volName = ''config'', volSource = ConfigMapVolume (Name fi) None\<rparr>]\<rparr>\<rparr>\<rparr>,
       dsStatus = no_status\<rparr>)"

section \<open>Updating an existing daemon set\<close>

abbreviation pod_of :: "DaemonSet \<Rightarrow> PodSpec" where
  "pod_of ds \<equiv> tmplSpec (dssTemplate (dsSpec ds))"

definition set_pod :: "PodSpec \<Rightarrow> DaemonSet \<Rightarrow> DaemonSet" where
  "set_pod p ds = ds\<lparr>dsSpec := (dsSpec ds)\<lparr>dssTemplate := (dssTemplate (dsSpec ds))\<lparr>tmplSpec := p\<rparr>\<rparr>\<rparr>"

definition updateDSNodeSelector :: "DaemonSet \<Rightarrow> FileIntegrity \<Rightarrow> DaemonSet \<times> bool" where
  "updateDSNodeSelector currentDS fi =
     (let expectedNS = NodeSelector (fiSpec fi);
          needsUpdate = (psNodeSelector (pod_of currentDS) \<noteq> expectedNS)
      in (if needsUpdate then set_pod ((pod_of currentDS)\<lparr>psNodeSelector := expectedNS\<rparr>) currentDS
          else currentDS, needsUpdate))"

definition updateDSTolerations :: "DaemonSet \<Rightarrow> FileIntegrity \<Rightarrow> DaemonSet \<times> bool" where
  "updateDSTolerations currentDS fi =
     (let expectedTolerations = Tolerations (fiSpec fi);
          needsUpdate = (psTolerations (pod_of currentDS) \<noteq> expectedTolerations)
      in (if needsUpdate then set_pod ((pod_of currentDS)\<lparr>psTolerations := expectedTolerations\<rparr>) currentDS
          else currentDS, needsUpdate))"

definition updateDSPriorityClassName :: "DaemonSet \<Rightarrow> FileIntegrity \<Rightarrow> DaemonSet \<times> bool" where
  "updateDSPriorityClassName currentDS fi =
     (let expectedPC = PriorityClassName (fiSpec fi);
          needsUpdate = (psPriorityClassName (pod_of currentDS) \<noteq> expectedPC)
      in (if needsUpdate then set_pod ((pod_of currentDS)\<lparr>psPriorityClassName := expectedPC\<rparr>) currentDS
          else currentDS, needsUpdate))"

text \<open>\<open>Containers[0]\<close> of a daemon set.\<close>

definition container0 :: "DaemonSet \<Rightarrow> error + Container" where
  "container0 ds = (case psContainers (pod_of ds) of
       [] \<Rightarrow> Inl (Panic ''index out of range [0] with length 0'')
     | c # _ \<Rightarrow> Inr c)"

definition set_container0 :: "Container \<Rightarrow> DaemonSet \<Rightarrow> DaemonSet" where
  "set_container0 c ds = set_pod ((pod_of ds)\<lparr>psContainers := (psContainers (pod_of ds))[0 := c]\<rparr>) ds"

definition updateDSArgs :: "DaemonSet \<Rightarrow> FileIntegrity \<Rightarrow> error + DaemonSet \<times> bool" where
  "updateDSArgs currentDS fi = (case container0 currentDS of Inl e \<Rightarrow> Inl e
     | Inr c \<Rightarrow>
         (let expectedArgs = daemonArgs (Name currentDS) fi;
              needsUpdate = (cArgs c \<noteq> expectedArgs)
          in Inr (if needsUpdate then set_container0 (c\<lparr>cArgs := expectedArgs\<rparr>) currentDS else currentDS,
                  needsUpdate)))"

definition updateDSContainerVolumes :: "Env \<Rightarrow> DaemonSet \<Rightarrow> FileIntegrity \<Rightarrow> string \<Rightarrow> error + DaemonSet \<times> bool" where
  "updateDSContainerVolumes env currentDS fi operatorImage =
     (let expected = aideDaemonset env (Name currentDS) fi operatorImage in
      case container0 currentDS of Inl e \<Rightarrow> Inl e
      | Inr c \<Rightarrow> (case container0 expected of Inl e \<Rightarrow> Inl e
          | Inr x \<Rightarrow>
              (let needsUpdate = (cVolumeMounts c \<noteq> cVolumeMounts x)
               in Inr (if needsUpdate then set_container0 (c\<lparr>cVolumeMounts := cVolumeMounts x\<rparr>) currentDS
                       else currentDS, needsUpdate))))"

definition updateDSImage :: "Env \<Rightarrow> DaemonSet \<Rightarrow> string \<Rightarrow> error + DaemonSet \<times> bool" where
  "updateDSImage env currentDS operatorImage = (case container0 currentDS of Inl e \<Rightarrow> Inl e
     | Inr c \<Rightarrow>
         (let expectedImg = GetComponentImage env operatorImage OPERATOR;
              needsUpdate = (cImage c \<noteq> expectedImg)
          in Inr (if needsUpdate then set_container0 (c\<lparr>cImage := expectedImg\<rparr>) currentDS else currentDS,
                  needsUpdate)))"

text \<open>
  The update of an existing daemon set in \<open>FileIntegrityControllerReconcile\<close>: the six functions in
  the order of the code, and the disjunction of their answers.
\<close>

definition updateDS :: "Env \<Rightarrow> FileIntegrity \<Rightarrow> string \<Rightarrow> DaemonSet \<Rightarrow> error + DaemonSet \<times> bool" where
  "updateDS env fi operatorImage ds =
     (case updateDSArgs ds fi of Inl e \<Rightarrow> Inl e | Inr (ds1, argsNeedUpdate) \<Rightarrow>
      (case updateDSImage env ds1 operatorImage of Inl e \<Rightarrow> Inl e | Inr (ds2, imgNeedsUpdate) \<Rightarrow>
       (let (ds3, nsNeedsUpdate) = updateDSNodeSelector ds2 fi;
            (ds4, tolsNeedsUpdate) = updateDSTolerations ds3 fi;
            (ds5, pcNeedsUpdate) = updateDSPriorityClassName ds4 fi
        in case updateDSContainerVolumes env ds5 fi operatorImage of Inl e \<Rightarrow> Inl e
           | Inr (ds6, volsNeedUpdate) \<Rightarrow>
               Inr (ds6, argsNeedUpdate \<or> imgNeedsUpdate \<or> nsNeedsUpdate \<or> tolsNeedsUpdate
                         \<or> pcNeedsUpdate \<or> volsNeedUpdate))))"

section \<open>The contract of an update\<close>

text \<open>What is left of a daemon set when the six managed fields are blanked.\<close>

definition strip :: "DaemonSet \<Rightarrow> DaemonSet" where
  "strip ds = set_pod ((pod_of ds)\<lparr>psNodeSelector := None, psTolerations := None, psPriorityClassName := '''',
     psContainers := (case psContainers (pod_of ds) of [] \<Rightarrow> []
       | c # cs \<Rightarrow> c\<lparr>cArgs := [], cImage := '''', cVolumeMounts := []\<rparr> # cs)\<rparr>) ds"

abbreviation has_container :: "DaemonSet \<Rightarrow> bool" where
  "has_container ds \<equiv> psContainers (pod_of ds) \<noteq> []"

lemma strip_keeps:
  assumes "strip ds' = strip ds"
  shows "Name ds' = Name ds" "nsname ds' = nsname ds" "Labels ds' = Labels ds"
    "has_container ds' = has_container ds"
proof -
  show "Name ds' = Name ds" using arg_cong [OF assms, of Name] by (simp add: strip_def set_pod_def)
  show "nsname ds' = nsname ds" using arg_cong [OF assms, of nsname]
    by (simp add: strip_def set_pod_def nsname_def)
  show "Labels ds' = Labels ds" using arg_cong [OF assms, of Labels] by (simp add: strip_def set_pod_def)
  show "has_container ds' = has_container ds" using arg_cong [OF assms, of "\<lambda>d. psContainers (pod_of d)"]
    by (auto simp: strip_def set_pod_def split: list.splits)
qed

locale ds_update =
  fixes upd :: "DaemonSet \<Rightarrow> error + DaemonSet \<times> bool"
    and field :: "DaemonSet \<Rightarrow> 'f"
    and want :: "DaemonSet \<Rightarrow> 'f"
  assumes upd_ok: "has_container ds \<Longrightarrow> \<exists>ds' b. upd ds = Inr (ds', b) \<and> field ds' = want ds
      \<and> strip ds' = strip ds \<and> (b \<longleftrightarrow> field ds \<noteq> want ds) \<and> (\<not> b \<longrightarrow> ds' = ds)"
    and want_strip: "strip ds' = strip ds \<Longrightarrow> want ds' = want ds"
begin

lemma no_change: "has_container ds \<Longrightarrow> field ds = want ds \<Longrightarrow> upd ds = Inr (ds, False)"
  using upd_ok [of ds] by auto

lemma keeps_container: "upd ds = Inr (ds', b) \<Longrightarrow> has_container ds \<Longrightarrow> has_container ds'"
  using upd_ok [of ds] strip_keeps(4) [of ds' ds] by auto

lemma idempotent:
  assumes "has_container ds" and "upd ds = Inr (ds', b)"
  shows "upd ds' = Inr (ds', False)"
proof (rule no_change)
  have step: "field ds' = want ds" "strip ds' = strip ds" using assms upd_ok [of ds] by auto
  then show "field ds' = want ds'" using want_strip by metis
qed (rule keeps_container [OF assms(2,1)])

end

text \<open>One update after another, and the sum of two contracts.\<close>

definition upd_seq :: "(DaemonSet \<Rightarrow> error + DaemonSet \<times> bool) \<Rightarrow> (DaemonSet \<Rightarrow> error + DaemonSet \<times> bool)
    \<Rightarrow> DaemonSet \<Rightarrow> error + DaemonSet \<times> bool" where
  "upd_seq u v ds = (case u ds of Inl e \<Rightarrow> Inl e | Inr (ds1, b) \<Rightarrow>
     (case v ds1 of Inl e \<Rightarrow> Inl e | Inr (ds2, c) \<Rightarrow> Inr (ds2, b \<or> c)))"

locale ds_update_pair = u: ds_update u f wu + v: ds_update v g wv
  for u v f g wu wv +
  assumes v_keeps: "v ds = Inr (ds', b) \<Longrightarrow> f ds' = f ds"
    and u_keeps: "u ds = Inr (ds', b) \<Longrightarrow> g ds' = g ds"
begin

lemma seq_ok:
  assumes "has_container ds"
  shows "\<exists>ds' b. upd_seq u v ds = Inr (ds', b) \<and> (f ds', g ds') = (wu ds, wv ds)
      \<and> strip ds' = strip ds \<and> (b \<longleftrightarrow> (f ds, g ds) \<noteq> (wu ds, wv ds)) \<and> (\<not> b \<longrightarrow> ds' = ds)"
proof -
  from u.upd_ok [OF assms] obtain ds1 b where 1: "u ds = Inr (ds1, b)" "f ds1 = wu ds"
      "strip ds1 = strip ds" "b \<longleftrightarrow> f ds \<noteq> wu ds" "\<not> b \<longrightarrow> ds1 = ds" by blast
  have "has_container ds1" using strip_keeps(4) [OF 1(3)] assms by blast
  from v.upd_ok [OF this] obtain ds2 c where 2: "v ds1 = Inr (ds2, c)" "g ds2 = wv ds1"
      "strip ds2 = strip ds1" "c \<longleftrightarrow> g ds1 \<noteq> wv ds1" "\<not> c \<longrightarrow> ds2 = ds1" by blast
  have "f ds2 = wu ds" using v_keeps [OF 2(1)] 1(2) by simp
  moreover have "wv ds1 = wv ds" by (rule v.want_strip) (rule 1(3))
  moreover have "g ds1 = g ds" using u_keeps [OF 1(1)] .
  ultimately show ?thesis using 1 2 by (auto simp: upd_seq_def)
qed

sublocale pair: ds_update "upd_seq u v" "\<lambda>ds. (f ds, g ds)" "\<lambda>ds. (wu ds, wv ds)"
  by (unfold_locales, rule seq_ok) (auto dest: u.want_strip v.want_strip)

end

section \<open>The six updates\<close>

abbreviation first_container :: "DaemonSet \<Rightarrow> Container" where
  "first_container ds \<equiv> hd (psContainers (pod_of ds))"

lemma pod_set_pod [simp]: "pod_of (set_pod p ds) = p"
  by (simp add: set_pod_def)

lemma set_pod_simps [simp]: "Name (set_pod p ds) = Name ds" "set_pod p (set_pod q ds) = set_pod p ds"
  by (simp_all add: set_pod_def)

lemma container0_hd: "has_container ds \<Longrightarrow> container0 ds = Inr (first_container ds)"
  by (cases "psContainers (pod_of ds)") (simp_all add: container0_def)

lemma container0_aide: "container0 (aideDaemonset env n fi img)
    = Inr (daemon_container (GetComponentImage env img OPERATOR) n fi)"
  by (simp add: container0_def aideDaemonset_def Let_def)

lemmas update_defs = updateDSArgs_def updateDSImage_def updateDSContainerVolumes_def
  updateDSNodeSelector_def updateDSTolerations_def updateDSPriorityClassName_def Let_def

interpretation ds_args: ds_update "\<lambda>ds. updateDSArgs ds fi" "\<lambda>ds. cArgs (first_container ds)"
    "\<lambda>ds. daemonArgs (Name ds) fi" for fi
proof (unfold_locales, goal_cases)
  case (1 ds)
  then obtain c cs where "psContainers (pod_of ds) = c # cs" by (cases "psContainers (pod_of ds)") auto
  then show ?case by (simp add: update_defs container0_def set_container0_def strip_def)
qed (metis strip_keeps(1))

interpretation ds_image: ds_update "\<lambda>ds. updateDSImage env ds img" "\<lambda>ds. cImage (first_container ds)"
    "\<lambda>ds. GetComponentImage env img OPERATOR" for env img
proof (unfold_locales, goal_cases)
  case (1 ds)
  then obtain c cs where "psContainers (pod_of ds) = c # cs" by (cases "psContainers (pod_of ds)") auto
  then show ?case by (simp add: update_defs container0_def set_container0_def strip_def)
qed simp

interpretation ds_selector: ds_update "\<lambda>ds. Inr (updateDSNodeSelector ds fi)" "\<lambda>ds. psNodeSelector (pod_of ds)"
    "\<lambda>ds. NodeSelector (fiSpec fi)" for fi
  by unfold_locales (simp_all add: update_defs strip_def)

interpretation ds_tolerations: ds_update "\<lambda>ds. Inr (updateDSTolerations ds fi)" "\<lambda>ds. psTolerations (pod_of ds)"
    "\<lambda>ds. Tolerations (fiSpec fi)" for fi
  by unfold_locales (simp_all add: update_defs strip_def)

interpretation ds_priority: ds_update "\<lambda>ds. Inr (updateDSPriorityClassName ds fi)"
    "\<lambda>ds. psPriorityClassName (pod_of ds)" "\<lambda>ds. PriorityClassName (fiSpec fi)" for fi
  by unfold_locales (simp_all add: update_defs strip_def)

interpretation ds_mounts: ds_update "\<lambda>ds. updateDSContainerVolumes env ds fi img"
    "\<lambda>ds. cVolumeMounts (first_container ds)"
    "\<lambda>ds. cVolumeMounts (daemon_container (GetComponentImage env img OPERATOR) (Name ds) fi)" for env fi img
proof (unfold_locales, goal_cases)
  case (1 ds)
  then obtain c cs where "psContainers (pod_of ds) = c # cs" by (cases "psContainers (pod_of ds)") auto
  then show ?case
    by (simp add: update_defs container0_aide container0_def [of ds] set_container0_def strip_def)
qed (metis strip_keeps(1))

text \<open>An update leaves the fields of the others alone.\<close>

lemma updates_keep [frame_simps]:
  "updateDSArgs ds fi = Inr (ds', b) \<Longrightarrow> cImage (first_container ds') = cImage (first_container ds)
     \<and> cVolumeMounts (first_container ds') = cVolumeMounts (first_container ds)
     \<and> psNodeSelector (pod_of ds') = psNodeSelector (pod_of ds)
     \<and> psTolerations (pod_of ds') = psTolerations (pod_of ds)
     \<and> psPriorityClassName (pod_of ds') = psPriorityClassName (pod_of ds)"
  "updateDSImage env ds img = Inr (ds', b) \<Longrightarrow> cArgs (first_container ds') = cArgs (first_container ds)
     \<and> cVolumeMounts (first_container ds') = cVolumeMounts (first_container ds)
     \<and> psNodeSelector (pod_of ds') = psNodeSelector (pod_of ds)
     \<and> psTolerations (pod_of ds') = psTolerations (pod_of ds)
     \<and> psPriorityClassName (pod_of ds') = psPriorityClassName (pod_of ds)"
  "updateDSContainerVolumes env ds fi img = Inr (ds', b) \<Longrightarrow> cArgs (first_container ds') = cArgs (first_container ds)
     \<and> cImage (first_container ds') = cImage (first_container ds)
     \<and> psNodeSelector (pod_of ds') = psNodeSelector (pod_of ds)
     \<and> psTolerations (pod_of ds') = psTolerations (pod_of ds)
     \<and> psPriorityClassName (pod_of ds') = psPriorityClassName (pod_of ds)"
  by (cases "psContainers (pod_of ds)";
      auto simp: update_defs container0_def set_container0_def split: sum.splits if_splits list.splits)+

lemma scheduling_updates_keep [frame_simps]:
  "updateDSNodeSelector ds fi = (ds', b) \<Longrightarrow> psContainers (pod_of ds') = psContainers (pod_of ds)
     \<and> psTolerations (pod_of ds') = psTolerations (pod_of ds)
     \<and> psPriorityClassName (pod_of ds') = psPriorityClassName (pod_of ds)"
  "updateDSTolerations ds fi = (ds', b) \<Longrightarrow> psContainers (pod_of ds') = psContainers (pod_of ds)
     \<and> psNodeSelector (pod_of ds') = psNodeSelector (pod_of ds)
     \<and> psPriorityClassName (pod_of ds') = psPriorityClassName (pod_of ds)"
  "updateDSPriorityClassName ds fi = (ds', b) \<Longrightarrow> psContainers (pod_of ds') = psContainers (pod_of ds)
     \<and> psNodeSelector (pod_of ds') = psNodeSelector (pod_of ds)
     \<and> psTolerations (pod_of ds') = psTolerations (pod_of ds)"
  by (auto simp: update_defs)

interpretation ds_2: ds_update_pair "\<lambda>ds. updateDSArgs ds fi" "\<lambda>ds. updateDSImage env ds img"
    "\<lambda>ds. cArgs (first_container ds)" "\<lambda>ds. cImage (first_container ds)"
    "\<lambda>ds. daemonArgs (Name ds) fi" "\<lambda>ds. GetComponentImage env img OPERATOR" for fi env img
  by unfold_locales (auto dest: updates_keep)

interpretation ds_3: ds_update_pair "upd_seq (\<lambda>ds. updateDSArgs ds fi) (\<lambda>ds. updateDSImage env ds img)"
    "\<lambda>ds. Inr (updateDSNodeSelector ds fi)"
    "\<lambda>ds. (cArgs (first_container ds), cImage (first_container ds))" "\<lambda>ds. psNodeSelector (pod_of ds)"
    "\<lambda>ds. (daemonArgs (Name ds) fi, GetComponentImage env img OPERATOR)" "\<lambda>ds. NodeSelector (fiSpec fi)" for fi env img
  by unfold_locales (auto simp: upd_seq_def dest!: updates_keep scheduling_updates_keep split: sum.splits prod.splits)

abbreviation first_three :: "Env \<Rightarrow> FileIntegrity \<Rightarrow> string \<Rightarrow> DaemonSet \<Rightarrow> error + DaemonSet \<times> bool" where
  "first_three env fi img \<equiv> upd_seq (upd_seq (\<lambda>ds. updateDSArgs ds fi) (\<lambda>ds. updateDSImage env ds img))
     (\<lambda>ds. Inr (updateDSNodeSelector ds fi))"

interpretation ds_4: ds_update_pair "first_three env fi img" "\<lambda>ds. Inr (updateDSTolerations ds fi)"
    "\<lambda>ds. ((cArgs (first_container ds), cImage (first_container ds)), psNodeSelector (pod_of ds))"
    "\<lambda>ds. psTolerations (pod_of ds)"
    "\<lambda>ds. ((daemonArgs (Name ds) fi, GetComponentImage env img OPERATOR), NodeSelector (fiSpec fi))"
    "\<lambda>ds. Tolerations (fiSpec fi)" for fi env img
  by unfold_locales (auto simp: upd_seq_def dest!: updates_keep scheduling_updates_keep split: sum.splits prod.splits)

interpretation ds_5: ds_update_pair "upd_seq (first_three env fi img) (\<lambda>ds. Inr (updateDSTolerations ds fi))"
    "\<lambda>ds. Inr (updateDSPriorityClassName ds fi)"
    "\<lambda>ds. (((cArgs (first_container ds), cImage (first_container ds)), psNodeSelector (pod_of ds)),
       psTolerations (pod_of ds))"
    "\<lambda>ds. psPriorityClassName (pod_of ds)"
    "\<lambda>ds. (((daemonArgs (Name ds) fi, GetComponentImage env img OPERATOR), NodeSelector (fiSpec fi)),
       Tolerations (fiSpec fi))"
    "\<lambda>ds. PriorityClassName (fiSpec fi)" for fi env img
  by unfold_locales (auto simp: upd_seq_def dest!: updates_keep scheduling_updates_keep split: sum.splits prod.splits)

abbreviation first_five :: "Env \<Rightarrow> FileIntegrity \<Rightarrow> string \<Rightarrow> DaemonSet \<Rightarrow> error + DaemonSet \<times> bool" where
  "first_five env fi img \<equiv> upd_seq (upd_seq (first_three env fi img) (\<lambda>ds. Inr (updateDSTolerations ds fi)))
     (\<lambda>ds. Inr (updateDSPriorityClassName ds fi))"

interpretation ds_6: ds_update_pair "first_five env fi img" "\<lambda>ds. updateDSContainerVolumes env ds fi img"
    "\<lambda>ds. ((((cArgs (first_container ds), cImage (first_container ds)), psNodeSelector (pod_of ds)),
       psTolerations (pod_of ds)), psPriorityClassName (pod_of ds))"
    "\<lambda>ds. cVolumeMounts (first_container ds)"
    "\<lambda>ds. ((((daemonArgs (Name ds) fi, GetComponentImage env img OPERATOR), NodeSelector (fiSpec fi)),
       Tolerations (fiSpec fi)), PriorityClassName (fiSpec fi))"
    "\<lambda>ds. cVolumeMounts (daemon_container (GetComponentImage env img OPERATOR) (Name ds) fi)" for fi env img
  by unfold_locales (auto simp: upd_seq_def dest!: updates_keep scheduling_updates_keep split: sum.splits prod.splits)

lemma updateDS_seq: "updateDS env fi img = upd_seq (first_five env fi img) (\<lambda>ds. updateDSContainerVolumes env ds fi img)"
proof
  fix ds
  show "updateDS env fi img ds = upd_seq (first_five env fi img) (\<lambda>ds. updateDSContainerVolumes env ds fi img) ds"
    by (simp add: updateDS_def upd_seq_def Let_def split: sum.splits prod.splits)
qed

text \<open>The six managed fields as one value.\<close>

definition managed :: "DaemonSet \<Rightarrow> (((((string list \<times> string) \<times> gomap) \<times> Toleration list option) \<times> string) \<times> VolumeMount list)" where
  "managed ds = (((((cArgs (first_container ds), cImage (first_container ds)), psNodeSelector (pod_of ds)),
     psTolerations (pod_of ds)), psPriorityClassName (pod_of ds)), cVolumeMounts (first_container ds))"

lemma managed_aide: "managed (aideDaemonset env n fi img)
  = (((((daemonArgs n fi, GetComponentImage env img OPERATOR), NodeSelector (fiSpec fi)),
       Tolerations (fiSpec fi)), PriorityClassName (fiSpec fi)),
     cVolumeMounts (daemon_container (GetComponentImage env img OPERATOR) n fi))"
  by (simp add: managed_def aideDaemonset_def Let_def daemon_container_def)

text \<open>The managed fields of the daemon set the controller would render now.\<close>

interpretation ds_all: ds_update "updateDS env fi img" managed
    "\<lambda>ds. managed (aideDaemonset env (Name ds) fi img)" for env fi img
  unfolding updateDS_seq managed_aide unfolding managed_def [abs_def]
  by (rule ds_6.pair.ds_update_axioms)

section \<open>Properties\<close>

definition sample_env :: Env where
  "sample_env = \<lparr>LookupEnv = Map.empty, FileIntegrityNamespace = ''ns''\<rparr>"

definition sample_fi :: FileIntegrity where
  "sample_fi = \<lparr>Name = ''f'', Namespace = ''ns'', Labels = None, Annotations = None, OwnerReferences = [],
     CreationTimestamp = 0, UID = ''u'',
     fiSpec = \<lparr>NodeSelector = Some [''role'' \<mapsto> ''worker''],
       Config = \<lparr>cfgName = '''', cfgNamespace = '''', cfgKey = '''', GracePeriod = 5, MaxBackups = 5, InitialDelay = 0\<rparr>,
       Debug = False, Tolerations = None, PriorityClassName = ''''\<rparr>,
     Phase = PhaseUnset\<rparr>"

text \<open>
  C12. Updating an existing daemon set never fails on a pod that has a container, and it is a
  refinement of rendering it anew: afterwards the arguments, image, node selector, tolerations,
  priority class and volume mounts are those of the daemon set the controller would create now,
  every other field is what it was, the answer says exactly whether one of them differed, and with
  the answer false the daemon set is untouched.
\<close>

theorem updateDS_renders:
  assumes "has_container ds"
  shows "\<exists>ds' needsUpdate. updateDS env fi img ds = Inr (ds', needsUpdate)
     \<and> managed ds' = managed (aideDaemonset env (Name ds) fi img) \<and> strip ds' = strip ds
     \<and> (needsUpdate \<longleftrightarrow> managed ds \<noteq> managed (aideDaemonset env (Name ds) fi img))
     \<and> (\<not> needsUpdate \<longrightarrow> ds' = ds)"
  using ds_all.upd_ok [OF assms] .

theorem updateDS_renders_witness:
  "\<exists>ds' needsUpdate. updateDS sample_env sample_fi ''img:2'' (aideDaemonset sample_env ''aide-f'' sample_fi ''img:1'') = Inr (ds', needsUpdate)
     \<and> needsUpdate \<and> cImage (first_container ds') = ''img:2''"
proof -
  let ?ds = "aideDaemonset sample_env ''aide-f'' sample_fi ''img:1''"
  have "has_container ?ds" by (simp add: aideDaemonset_def Let_def)
  from updateDS_renders [OF this, of sample_env sample_fi "''img:2''"] show ?thesis
    by (auto simp: managed_aide) (auto simp: managed_def GetComponentImage_def Let_def)
qed

text \<open>
  Reconciling again finds nothing to do: after an update a second one, for the same FileIntegrity
  and image, answers false and changes nothing, so the daemon pods are restarted once and not in a loop.
\<close>

theorem updateDS_idempotent:
  assumes "has_container ds" and "updateDS env fi img ds = Inr (ds', needsUpdate)"
  shows "updateDS env fi img ds' = Inr (ds', False)"
  by (rule ds_all.idempotent [OF assms])

theorem updateDS_idempotent_witness:
  "\<exists>ds'. updateDS sample_env sample_fi ''img:2'' (aideDaemonset sample_env ''aide-f'' sample_fi ''img:1'') = Inr (ds', True)
     \<and> updateDS sample_env sample_fi ''img:2'' ds' = Inr (ds', False)"
proof -
  let ?ds = "aideDaemonset sample_env ''aide-f'' sample_fi ''img:1''"
  have c: "has_container ?ds" by (simp add: aideDaemonset_def Let_def)
  have "managed ?ds \<noteq> managed (aideDaemonset sample_env (Name ?ds) sample_fi ''img:2'')"
    by (simp add: managed_aide GetComponentImage_def Let_def)
  then obtain ds' where "updateDS sample_env sample_fi ''img:2'' ?ds = Inr (ds', True)"
    using ds_all.upd_ok [OF c, of sample_env sample_fi "''img:2''"] by auto
  with updateDS_idempotent [OF c this] show ?thesis by blast
qed

text \<open>
  A daemon set the controller has just rendered needs no update: created and then reconciled with
  an unchanged FileIntegrity and image, the update answers false and keeps it as it is.
\<close>

theorem aideDaemonset_up_to_date:
  "updateDS env fi img (aideDaemonset env dsName fi img) = Inr (aideDaemonset env dsName fi img, False)"
proof (rule ds_all.no_change)
  show "has_container (aideDaemonset env dsName fi img)" by (simp add: aideDaemonset_def Let_def)
  show "managed (aideDaemonset env dsName fi img)
      = managed (aideDaemonset env (Name (aideDaemonset env dsName fi img)) fi img)"
    by (simp add: aideDaemonset_def Let_def)
qed

text \<open>
  The interval the daemon is started with is never under ten seconds, whatever grace period the
  FileIntegrity asks for, and it is the grace period itself from ten seconds on: the interval flag
  is among the arguments and \<open>strconv.Atoi\<close> reads it back.
\<close>

theorem daemon_interval_at_least_10:
  assumes "GracePeriod (Config (fiSpec fi)) < 2 ^ 63"
  shows "\<exists>n. ''--interval='' @ Itoa n \<in> set (daemonArgs dsName fi) \<and> Atoi (Itoa n) = (n, None)
     \<and> n \<ge> 10 \<and> n = max 10 (GracePeriod (Config (fiSpec fi)))"
proof -
  let ?n = "max 10 (GracePeriod (Config (fiSpec fi)))"
  have "getGracePeriod fi = Itoa ?n" by (simp add: getGracePeriod_def Let_def max_def)
  then have "''--interval='' @ Itoa ?n \<in> set (daemonArgs dsName fi)" by (simp add: daemonArgs_def)
  moreover have "Atoi (Itoa ?n) = (?n, None)" using assms by (intro Atoi_Itoa) simp_all
  ultimately show ?thesis by auto
qed

theorem daemon_interval_at_least_10_witness:
  "\<exists>n. ''--interval='' @ Itoa n \<in> set (daemonArgs ''aide-f'' sample_fi) \<and> Atoi (Itoa n) = (n, None) \<and> n = 10"
  using daemon_interval_at_least_10 [of sample_fi "''aide-f''"] by (simp add: sample_fi_def)

end
