(* ===== verification/Restart.thy ===== *)
theory Restart
  imports Client
begin

text \<open>
  Restarting the daemon pods (\<open>RestartFileIntegrityDs\<close> and \<open>deleteDaemonSetPods\<close> of
  \<open>src/pkg/common/util.go\<close>), shared by the FileIntegrity and the config map controllers.
\<close>

definition deleteDaemonSetPods :: "client \<Rightarrow> Env \<Rightarrow> DaemonSet \<Rightarrow> error option io" where
  "deleteDaemonSetPods cl env ds = do {
     r \<leftarrow> ListObjs (pods cl) \<lparr>loNamespace = FileIntegrityNamespace env, loSelector = Some [''app'' \<mapsto> Name ds]\<rparr>;
     case r of Inl e \<Rightarrow> State_Monad.return (Some e)
     | Inr items \<Rightarrow> deleteLoop (pods cl) items }"

definition RestartFileIntegrityDs :: "client \<Rightarrow> Env \<Rightarrow> string \<Rightarrow> error option io" where
  "RestartFileIntegrityDs cl env dsName = do {
     r \<leftarrow> Get (dss cl) (FileIntegrityNamespace env, dsName);
     case r of Inl e \<Rightarrow> State_Monad.return (Some e)
     | Inr ds \<Rightarrow> deleteDaemonSetPods cl env ds }"

text \<open>The pods of a daemon set: those with its \<open>app\<close> label in the operator's namespace.\<close>

definition pod_of_ds :: "Env \<Rightarrow> string \<Rightarrow> Pod \<Rightarrow> bool" where
  "pod_of_ds env dsName pod \<longleftrightarrow> (FileIntegrityNamespace env = '''' \<or> Namespace pod = FileIntegrityNamespace env)
     \<and> mget (Labels pod) ''app'' = Some dsName"

lemma selector_matches_single: "selector_matches (Some [k \<mapsto> v]) ls \<longleftrightarrow> mget ls k = Some v"
  by (auto simp: selector_matches_def map_le_def mget_made)

lemma listed_pods: "listed \<lparr>loNamespace = FileIntegrityNamespace env, loSelector = Some [''app'' \<mapsto> n]\<rparr> pod
    \<longleftrightarrow> pod_of_ds env n pod"
  by (simp add: listed_def pod_of_ds_def selector_matches_single)

text \<open>Only pods change, only by deletion, and only pods of the daemon set.\<close>

definition pods_deleted :: "Env \<Rightarrow> string \<Rightarrow> world \<Rightarrow> world \<Rightarrow> bool" where
  "pods_deleted env n w w' \<longleftrightarrow> w' = w\<lparr>Pods := Pods w'\<rparr> \<and>
     (\<forall>k. lookup (Pods w') k = lookup (Pods w) k
        \<or> lookup (Pods w') k = None \<and> (\<exists>p. lookup (Pods w) k = Some p \<and> pod_of_ds env n p))"

lemma pods_deleted_refl [simp]: "pods_deleted env n w w"
  by (simp add: pods_deleted_def)

text \<open>The outcome of a restart: it says None only when no pod of the daemon set is left.\<close>

definition restarted :: "Env \<Rightarrow> string \<Rightarrow> world \<Rightarrow> error option \<Rightarrow> world \<Rightarrow> bool" where
  "restarted env n w r w' \<longleftrightarrow> pods_deleted env n w w' \<and>
     (case r of None \<Rightarrow> \<forall>k p. lookup (Pods w') k = Some p \<longrightarrow> \<not> pod_of_ds env n p
      | Some e \<Rightarrow> \<not> is_panic e)"

context kube_api
begin

lemma wp_deleteDaemonSetPods: "wp (deleteDaemonSetPods cl env ds) (restarted env (Name ds) w) w"
  unfolding deleteDaemonSetPods_def
proof (simp add: wp_simps, rule pod.wp_List, goal_cases)
  case (1 e)
  then show ?case by (simp add: wp_simps restarted_def)
next
  case (2 items)
  have mem: "p \<in> set items \<longleftrightarrow> lookup (Pods w) (nsname p) = Some p \<and> pod_of_ds env (Name ds) p" for p
    using 2(2) by (simp add: listed_pods)
  show ?case
  proof (simp add: wp_simps, rule wp_conseq [OF pod.wp_deleteLoop], elim exE conjE, goal_cases)
    case (1 r w' ps)
    have keep: "lookup ps k = lookup (Pods w) k \<or> lookup ps k = None \<and>
        (\<exists>p. lookup (Pods w) k = Some p \<and> pod_of_ds env (Name ds) p)" for k
      using 1(2) [rule_format, of k] mem by auto
    have "\<not> pod_of_ds env (Name ds) p" if "r = None" "lookup ps k = Some p" for k p
      using keep [of k] that 1(3) mem lookup_nsname [of "Pods w" k p] by auto
    with keep 1(1,3) show ?case by (auto simp: restarted_def pods_deleted_def split: option.splits)
  qed
qed

lemma wp_RestartFileIntegrityDs: "wp (RestartFileIntegrityDs cl env n) (restarted env n w) w"
  unfolding RestartFileIntegrityDs_def
proof (simp add: wp_simps, rule ds.wp_Get, goal_cases)
  case (1 e)
  then show ?case by (simp add: wp_simps restarted_def)
next
  case (2 ds)
  then show ?case using wp_deleteDaemonSetPods [of env ds w] by (simp add: wp_simps nsname_def)
qed

end

end
