(* ===== verification/Node_Lists.thy ===== *)
theory Node_Lists
  imports Common
begin

text \<open>
  What the hold-off and re-init annotations promise. Abstractly an annotation is a list of node
  names; \<open>node_entries\<close> reads it off the annotation's value. The locale \<open>node_annotation\<close> is the
  contract both pairs of operations are used under (add appends the node, remove filters it out,
  other annotations stay), stated for values that are proper lists of distinct node names; what
  the controllers need of it is proved once in the locale. The two interpretations discharge it
  for the functions of \<open>src/pkg/common/util.go\<close>. The lemmas after them say what the same
  functions do where the contract does not reach: the empty value that stands for every node,
  several nodes at once, names that contain one another, repeated entries.
\<close>

section \<open>Node names and annotation values\<close>

definition dns_char :: "char \<Rightarrow> bool" where
  "dns_char c = (let n = (of_char c :: nat) in
     (97 \<le> n \<and> n \<le> 122) \<or> (48 \<le> n \<and> n \<le> 57) \<or> n = 45 \<or> n = 46)"

definition dns_name :: "string \<Rightarrow> bool" where
  "dns_name n \<longleftrightarrow> n \<noteq> [] \<and> list_all dns_char n"

definition node_entries :: "string option \<Rightarrow> string list" where
  "node_entries v = (case v of None \<Rightarrow> [] | Some s \<Rightarrow> Split comma s)"

definition wf_nodes :: "string option \<Rightarrow> bool" where
  "wf_nodes v \<longleftrightarrow> distinct (node_entries v) \<and> list_all dns_name (node_entries v)"

abbreviation ann_of :: "('z) ObjectMeta_scheme \<Rightarrow> string \<Rightarrow> string option" where
  "ann_of obj k \<equiv> mget (Annotations obj) k"

lemma dns_char_props: "dns_char c \<Longrightarrow> c \<noteq> comma \<and> \<not> is_space c \<and> lower c = c"
  by (auto simp: dns_char_def is_space_def lower_def Let_def)

lemma dns_name_no_comma: "dns_name n \<Longrightarrow> comma \<notin> set n"
  using dns_char_props by (auto simp: dns_name_def list_all_iff)

lemma dns_name_trim [simp]: "dns_name n \<Longrightarrow> TrimSpace n = n"
  using dns_char_props by (auto simp: dns_name_def list_all_iff intro!: TrimSpace_id)

lemma dns_name_lower: "dns_name n \<Longrightarrow> map lower n = n"
  using dns_char_props by (auto simp: dns_name_def list_all_iff intro!: map_idI)

lemma dns_name_fold: "dns_name a \<Longrightarrow> dns_name b \<Longrightarrow> EqualFold a b \<longleftrightarrow> a = b"
  by (simp add: EqualFold_def dns_name_lower)

lemma dns_name_neq_Nil: "dns_name n \<Longrightarrow> n \<noteq> []"
  by (simp add: dns_name_def)

lemma node_entries_simps [simp]:
  "node_entries None = []"
  "node_entries (Some s) = Split comma s"
  by (simp_all add: node_entries_def)

lemma wf_nodes_neq_all: "wf_nodes (Some s) \<Longrightarrow> s \<noteq> []"
  by (auto simp: wf_nodes_def dns_name_def)

text \<open>On a proper list, being in the annotation is being an entry.\<close>

lemma IsNodeIn_entries:
  assumes "wf_nodes (ann_of fi k)"
  shows "IsNodeIn fi n k \<longleftrightarrow> n \<in> set (node_entries (ann_of fi k))"
  using assms
  by (cases "Annotations fi")
     (auto simp: IsNodeIn_def list_ex_iff split: option.splits dest: wf_nodes_neq_all)

lemma Split_Join_nodes:
  "ns \<noteq> [] \<Longrightarrow> list_all dns_name ns \<Longrightarrow> Split comma (Join ns '','') = ns"
  by (rule Split_Join) (auto simp: list_all_iff dns_name_no_comma)

lemma EqualFold_entries:
  "list_all dns_name ns \<Longrightarrow> dns_name n \<Longrightarrow>
     list_ex (\<lambda>x. EqualFold (TrimSpace x) n) ns \<longleftrightarrow> n \<in> set ns"
  by (auto simp: list_all_iff list_ex_iff dns_name_fold)

lemma filter_fold_entries:
  "list_all dns_name ns \<Longrightarrow> dns_name n \<Longrightarrow>
     filter (\<lambda>x. \<not> EqualFold x n) (map TrimSpace ns) = filter (\<lambda>x. x \<noteq> n) ns"
  by (induction ns) (auto simp: dns_name_fold)

section \<open>The contract\<close>

locale node_annotation =
  fixes key :: string
    and add :: "FileIntegrity \<Rightarrow> string \<Rightarrow> gomap \<times> bool"
    and remove :: "FileIntegrity \<Rightarrow> string \<Rightarrow> gomap \<times> bool"
    and fresh :: "FileIntegrity \<Rightarrow> string \<Rightarrow> bool"
  assumes fresh_new: "fresh fi n \<Longrightarrow> n \<notin> set (node_entries (ann_of fi key))"
    and add_entries:
      "wf_nodes (ann_of fi key) \<Longrightarrow> dns_name n \<Longrightarrow> fresh fi n \<Longrightarrow>
         \<exists>a. add fi n = (Some a, True) \<and> node_entries (a key) = node_entries (ann_of fi key) @ [n]
             \<and> (\<forall>k. k \<noteq> key \<longrightarrow> a k = ann_of fi k)"
    and remove_entries:
      "wf_nodes (ann_of fi key) \<Longrightarrow> n \<in> set (node_entries (ann_of fi key)) \<Longrightarrow>
         \<exists>a. remove fi n = (Some a, True)
             \<and> node_entries (a key) = filter (\<lambda>x. x \<noteq> n) (node_entries (ann_of fi key))
             \<and> (\<forall>k. k \<noteq> key \<longrightarrow> a k = ann_of fi k)"
begin

lemma add_wf:
  assumes "wf_nodes (ann_of fi key)" "dns_name n" "fresh fi n" "add fi n = (a, b)"
  shows "wf_nodes (mget a key)"
proof -
  from add_entries [OF assms(1-3)] assms(4) obtain f where
    "a = Some f" "node_entries (f key) = node_entries (ann_of fi key) @ [n]" by auto
  with assms(1,2) fresh_new [OF assms(3)] show ?thesis by (simp add: wf_nodes_def)
qed

lemma remove_wf:
  assumes "wf_nodes (ann_of fi key)" "n \<in> set (node_entries (ann_of fi key))" "remove fi n = (a, b)"
  shows "wf_nodes (mget a key)"
proof -
  from remove_entries [OF assms(1,2)] assms(3) obtain f where
    "a = Some f" "node_entries (f key) = filter (\<lambda>x. x \<noteq> n) (node_entries (ann_of fi key))" by auto
  with assms(1) show ?thesis by (auto simp: wf_nodes_def list_all_iff)
qed

lemma add_member:
  assumes "wf_nodes (ann_of fi key)" "dns_name n" "fresh fi n" "add fi n = (a, b)"
  shows "b" and "IsNodeIn (fi\<lparr>Annotations := a\<rparr>) m key \<longleftrightarrow> m = n \<or> IsNodeIn fi m key"
proof -
  from add_entries [OF assms(1-3)] assms(4) obtain f where
    f: "a = Some f" "b" "node_entries (f key) = node_entries (ann_of fi key) @ [n]" by auto
  then show b by simp
  have "wf_nodes (ann_of (fi\<lparr>Annotations := a\<rparr>) key)" using add_wf [OF assms] by simp
  from IsNodeIn_entries [OF this] IsNodeIn_entries [OF assms(1)] f
  show "IsNodeIn (fi\<lparr>Annotations := a\<rparr>) m key \<longleftrightarrow> m = n \<or> IsNodeIn fi m key" by auto
qed

lemma remove_member:
  assumes "wf_nodes (ann_of fi key)" "IsNodeIn fi n key" "remove fi n = (a, b)"
  shows "b" and "IsNodeIn (fi\<lparr>Annotations := a\<rparr>) m key \<longleftrightarrow> m \<noteq> n \<and> IsNodeIn fi m key"
proof -
  from assms have n: "n \<in> set (node_entries (ann_of fi key))" by (simp add: IsNodeIn_entries)
  from remove_entries [OF assms(1) n] assms(3) obtain f where
    f: "a = Some f" "b" "node_entries (f key) = filter (\<lambda>x. x \<noteq> n) (node_entries (ann_of fi key))" by auto
  then show b by simp
  have "wf_nodes (ann_of (fi\<lparr>Annotations := a\<rparr>) key)" using remove_wf [OF assms(1) n assms(3)] by simp
  from IsNodeIn_entries [OF this] IsNodeIn_entries [OF assms(1)] f
  show "IsNodeIn (fi\<lparr>Annotations := a\<rparr>) m key \<longleftrightarrow> m \<noteq> n \<and> IsNodeIn fi m key" by auto
qed

text \<open>Adding a node and removing it again restores the list, in order.\<close>

lemma add_remove:
  assumes "wf_nodes (ann_of fi key)" "dns_name n" "fresh fi n" "add fi n = (a, b)"
    and "remove (fi\<lparr>Annotations := a\<rparr>) n = (a', b')"
  shows "node_entries (mget a' key) = node_entries (ann_of fi key)"
proof -
  from add_entries [OF assms(1-3)] assms(4) obtain f where
    f: "a = Some f" "node_entries (f key) = node_entries (ann_of fi key) @ [n]" by auto
  have wf: "wf_nodes (ann_of (fi\<lparr>Annotations := a\<rparr>) key)" using add_wf [OF assms(1-4)] by simp
  from f have "n \<in> set (node_entries (ann_of (fi\<lparr>Annotations := a\<rparr>) key))" by simp
  from remove_entries [OF wf this] assms(5) f obtain f' where
    "a' = Some f'" "node_entries (f' key) = filter (\<lambda>x. x \<noteq> n) (node_entries (ann_of fi key) @ [n])"
    by auto
  moreover have "filter (\<lambda>x. x \<noteq> n) (node_entries (ann_of fi key)) = node_entries (ann_of fi key)"
    using fresh_new [OF assms(3)] by (auto simp: filter_id_conv)
  ultimately show ?thesis by simp
qed

lemma add_other: 
  assumes "wf_nodes (ann_of fi key)" "dns_name n" "fresh fi n" "add fi n = (a, b)" "k \<noteq> key"
  shows "mget a k = ann_of fi k"
  using add_entries [OF assms(1-3)] assms(4,5) by auto

lemma remove_other: 
  assumes "wf_nodes (ann_of fi key)" "IsNodeIn fi n key" "remove fi n = (a, b)" "k \<noteq> key"
  shows "mget a k = ann_of fi k"
  using remove_entries [OF assms(1), of n] assms by (auto simp: IsNodeIn_entries)

end

section \<open>The hold-off annotation\<close>

definition holdoff_fresh :: "FileIntegrity \<Rightarrow> string \<Rightarrow> bool" where
  "holdoff_fresh fi n \<longleftrightarrow> n \<notin> set (node_entries (ann_of fi IntegrityHoldoffAnnotationKey))"

lemma holdoff_add_entries:
  assumes wf: "wf_nodes (ann_of fi IntegrityHoldoffAnnotationKey)" and n: "dns_name n"
    and fresh: "holdoff_fresh fi n"
  shows "\<exists>a. GetAddedNodeHoldoffAnnotation fi n = (Some a, True)
      \<and> node_entries (a IntegrityHoldoffAnnotationKey)
          = node_entries (ann_of fi IntegrityHoldoffAnnotationKey) @ [n]
      \<and> (\<forall>k. k \<noteq> IntegrityHoldoffAnnotationKey \<longrightarrow> a k = ann_of fi k)"
proof (cases "ann_of fi IntegrityHoldoffAnnotationKey")
  case None
  with n show ?thesis
    by (auto simp: GetAddedNodeHoldoffAnnotation_def mset_key_def mget_made Let_def
        Split_no_sep dns_name_no_comma)
next
  case (Some s)
  let ?ns = "Split comma s"
  from wf Some have ne: "s \<noteq> []" and dns: "list_all dns_name ?ns"
    by (auto simp: wf_nodes_neq_all wf_nodes_def)
  from fresh Some dns n have "\<not> list_ex (\<lambda>x. EqualFold (TrimSpace x) n) ?ns"
    by (simp add: holdoff_fresh_def EqualFold_entries)
  moreover from dns n have "Split comma (Join (?ns @ [n]) '','') = ?ns @ [n]"
    by (intro Split_Join_nodes) auto
  ultimately show ?thesis using Some ne n
    by (simp add: GetAddedNodeHoldoffAnnotation_def mset_key_def mget_made Let_def)
qed

lemma holdoff_remove_entries:
  assumes wf: "wf_nodes (ann_of fi IntegrityHoldoffAnnotationKey)"
    and n: "n \<in> set (node_entries (ann_of fi IntegrityHoldoffAnnotationKey))"
  shows "\<exists>a. GetRemovedNodeHoldoffAnnotation fi n = (Some a, True)
      \<and> node_entries (a IntegrityHoldoffAnnotationKey)
          = filter (\<lambda>x. x \<noteq> n) (node_entries (ann_of fi IntegrityHoldoffAnnotationKey))
      \<and> (\<forall>k. k \<noteq> IntegrityHoldoffAnnotationKey \<longrightarrow> a k = ann_of fi k)"
proof -
  from n obtain s where s: "ann_of fi IntegrityHoldoffAnnotationKey = Some s" by (cases "ann_of fi IntegrityHoldoffAnnotationKey") auto
  let ?ns = "Split comma s" and ?rest = "filter (\<lambda>x. x \<noteq> n) (Split comma s)"
  from wf s have dns: "list_all dns_name ?ns" by (simp add: wf_nodes_def)
  with n s have "dns_name n" by (auto simp: list_all_iff)
  from wf n have "IsNodeInHoldoff fi n" by (simp add: IsNodeInHoldoff_def IsNodeIn_entries)
  moreover from s have "made (Annotations fi) IntegrityHoldoffAnnotationKey = Some s" by (simp add: mget_made)
  moreover have "filter (\<lambda>x. \<not> EqualFold x (TrimSpace n)) (map TrimSpace ?ns) = ?rest"
    using dns \<open>dns_name n\<close> by (simp add: filter_fold_entries)
  moreover from dns have "list_all dns_name ?rest" by (auto simp: list_all_iff)
  then have "?rest \<noteq> [] \<Longrightarrow> Split comma (Join ?rest '','') = ?rest" by (rule Split_Join_nodes [rotated])
  ultimately show ?thesis using s
    by (cases "?rest = []")
       (simp_all add: GetRemovedNodeHoldoffAnnotation_def mset_key_def mdelete_def mget_made Let_def)
qed

interpretation holdoff: node_annotation IntegrityHoldoffAnnotationKey
  GetAddedNodeHoldoffAnnotation GetRemovedNodeHoldoffAnnotation holdoff_fresh
proof unfold_locales
  show "n \<notin> set (node_entries (ann_of fi IntegrityHoldoffAnnotationKey))" if "holdoff_fresh fi n" for fi n
    using that by (simp add: holdoff_fresh_def)
qed (fact holdoff_add_entries, fact holdoff_remove_entries)

section \<open>The re-init annotation\<close>

text \<open>
  The source tests for presence with \<open>strings.Contains\<close> on the whole value, so a node is only
  added when its name is not a substring of the list.
\<close>

definition reinit_fresh :: "FileIntegrity \<Rightarrow> string \<Rightarrow> bool" where
  "reinit_fresh fi n \<longleftrightarrow> (case ann_of fi AideDatabaseReinitAnnotationKey of None \<Rightarrow> True
     | Some s \<Rightarrow> \<not> Contains s n)"

abbreviation add_reinit :: "FileIntegrity \<Rightarrow> string \<Rightarrow> gomap \<times> bool" where
  "add_reinit fi n \<equiv> GetAddedNodeReinitAnnotation fi [n]"

lemma reinit_add_entries:
  assumes wf: "wf_nodes (ann_of fi AideDatabaseReinitAnnotationKey)" and n: "dns_name n"
    and fresh: "reinit_fresh fi n"
  shows "\<exists>a. add_reinit fi n = (Some a, True)
      \<and> node_entries (a AideDatabaseReinitAnnotationKey)
          = node_entries (ann_of fi AideDatabaseReinitAnnotationKey) @ [n]
      \<and> (\<forall>k. k \<noteq> AideDatabaseReinitAnnotationKey \<longrightarrow> a k = ann_of fi k)"
proof (cases "ann_of fi AideDatabaseReinitAnnotationKey")
  case None
  with n show ?thesis
    by (auto simp: GetAddedNodeReinitAnnotation_def mset_key_def mget_made Let_def
        Split_no_sep dns_name_no_comma)
next
  case (Some s)
  with wf have "s \<noteq> []" by (simp add: wf_nodes_neq_all)
  moreover have "Split comma (s @ comma # n) = Split comma s @ [n]"
    by (rule Split_snoc) (rule dns_name_no_comma [OF n])
  ultimately show ?thesis using Some fresh n
    by (simp add: GetAddedNodeReinitAnnotation_def reinit_fresh_def mget_made Let_def)
qed

lemma reinit_remove_entries:
  assumes wf: "wf_nodes (ann_of fi AideDatabaseReinitAnnotationKey)"
    and n: "n \<in> set (node_entries (ann_of fi AideDatabaseReinitAnnotationKey))"
  shows "\<exists>a. GetRemovedNodeReinitAnnotation fi n = (Some a, True)
      \<and> node_entries (a AideDatabaseReinitAnnotationKey)
          = filter (\<lambda>x. x \<noteq> n) (node_entries (ann_of fi AideDatabaseReinitAnnotationKey))
      \<and> (\<forall>k. k \<noteq> AideDatabaseReinitAnnotationKey \<longrightarrow> a k = ann_of fi k)"
proof -
  from n obtain f s where s: "Annotations fi = Some f" "f AideDatabaseReinitAnnotationKey = Some s"
    by (cases "Annotations fi"; cases "ann_of fi AideDatabaseReinitAnnotationKey") auto
  let ?ns = "Split comma s" and ?rest = "filter (\<lambda>x. x \<noteq> n) (Split comma s)"
  from wf s have dns: "list_all dns_name ?ns" "distinct ?ns" by (simp_all add: wf_nodes_def)
  with n s have "n \<noteq> []" by (auto simp: list_all_iff dns_name_def)
  from wf n have inr: "IsNodeInReinit fi n" by (simp add: IsNodeInReinit_def IsNodeIn_entries)
  show ?thesis
  proof (cases "length ?ns = 1")
    case True
    then have "?ns = [n]" using n s by (cases ?ns) auto
    with True inr s \<open>n \<noteq> []\<close> show ?thesis
      by (simp add: GetRemovedNodeReinitAnnotation_def mdelete_def Let_def)
  next
    case False
    have "?rest \<noteq> []"
    proof
      assume "?rest = []"
      then have "set ?ns \<subseteq> {n}" by (auto simp: filter_empty_conv)
      then have "length ?ns \<le> 1" using dns(2) by (metis card_mono distinct_card finite.emptyI finite.insertI is_singletonI is_singleton_altdef)
      with False Split_neq_Nil [of comma s] show False by (cases ?ns) auto
    qed
    moreover from dns have "list_all dns_name ?rest" by (auto simp: list_all_iff)
    ultimately have "Split comma (Join ?rest '','') = ?rest" by (rule Split_Join_nodes)
    with False inr s \<open>n \<noteq> []\<close> show ?thesis
      by (simp add: GetRemovedNodeReinitAnnotation_def mset_key_def Let_def)
  qed
qed

interpretation reinit: node_annotation AideDatabaseReinitAnnotationKey
  add_reinit GetRemovedNodeReinitAnnotation reinit_fresh
proof unfold_locales
  show "n \<notin> set (node_entries (ann_of fi AideDatabaseReinitAnnotationKey))" if "reinit_fresh fi n" for fi n
    using that Split_member_Contains by (auto simp: reinit_fresh_def split: option.splits)
qed (fact reinit_add_entries, fact reinit_remove_entries)

section \<open>Properties of the node lists\<close>

text \<open>
  Hold-off is a round trip on proper node lists: adding a node that is not yet listed puts
  exactly that node in hold-off, and removing it again restores the list it was added to, in
  order; neither operation touches another annotation.
\<close>

theorem holdoff_add_remove_roundtrip:
  fixes fi :: FileIntegrity
  assumes "wf_nodes (ann_of fi IntegrityHoldoffAnnotationKey)" and "dns_name n"
    and "\<not> IsNodeInHoldoff fi n"
    and "GetAddedNodeHoldoffAnnotation fi n = (a, b)"
    and "GetRemovedNodeHoldoffAnnotation (fi\<lparr>Annotations := a\<rparr>) n = (a', b')"
  shows "b \<and> b'
    \<and> (\<forall>m. IsNodeInHoldoff (fi\<lparr>Annotations := a\<rparr>) m \<longleftrightarrow> m = n \<or> IsNodeInHoldoff fi m)
    \<and> node_entries (mget a' IntegrityHoldoffAnnotationKey)
        = node_entries (ann_of fi IntegrityHoldoffAnnotationKey)
    \<and> (\<forall>k. k \<noteq> IntegrityHoldoffAnnotationKey \<longrightarrow> mget a' k = ann_of fi k)"
proof -
  from assms(1,3) have fresh: "holdoff_fresh fi n"
    by (simp add: holdoff_fresh_def IsNodeInHoldoff_def IsNodeIn_entries)
  note add = holdoff.add_member [OF assms(1,2) fresh assms(4)]
  have wf: "wf_nodes (ann_of (fi\<lparr>Annotations := a\<rparr>) IntegrityHoldoffAnnotationKey)"
    using holdoff.add_wf [OF assms(1,2) fresh assms(4)] by simp
  have there: "IsNodeIn (fi\<lparr>Annotations := a\<rparr>) n IntegrityHoldoffAnnotationKey" using add(2) by simp
  from add(1) holdoff.remove_member(1) [OF wf there assms(5)] have "b" "b'" by simp_all
  moreover have "mget a' k = ann_of fi k" if "k \<noteq> IntegrityHoldoffAnnotationKey" for k
    using holdoff.remove_other [OF wf there assms(5) that]
      holdoff.add_other [OF assms(1,2) fresh assms(4) that] by simp
  ultimately show ?thesis
    using add(2) holdoff.add_remove [OF assms(1,2) fresh assms(4,5)] by (simp add: IsNodeInHoldoff_def)
qed

definition example_fi :: "gomap \<Rightarrow> FileIntegrity" where
  "example_fi ann = \<lparr>Name = ''example'', Namespace = ''openshift-file-integrity'', Labels = None,
     Annotations = ann, OwnerReferences = [], CreationTimestamp = 0, UID = ''u1'',
     fiSpec = \<lparr>NodeSelector = Some [''node-role.kubernetes.io/worker'' \<mapsto> ''''],
       Config = \<lparr>cfgName = '''', cfgNamespace = '''', cfgKey = '''', GracePeriod = 900,
         MaxBackups = 5, InitialDelay = 0\<rparr>,
       Debug = False, Tolerations = None, PriorityClassName = ''''\<rparr>,
     Phase = PhaseUnset\<rparr>"

lemma example_fi_sel [simp]:
  "Annotations (example_fi ann) = ann" "Name (example_fi ann) = ''example''"
  "Namespace (example_fi ann) = ''openshift-file-integrity''"
  "example_fi ann\<lparr>Annotations := ann'\<rparr> = example_fi ann'"
  by (simp_all add: example_fi_def)

lemmas node_list_eval = IsNodeInHoldoff_def IsNodeInReinit_def IsNodeIn_def
  GetAddedNodeHoldoffAnnotation_def GetRemovedNodeHoldoffAnnotation_def
  GetAddedNodeReinitAnnotation_def GetRemovedNodeReinitAnnotation_def
  wf_nodes_def dns_name_def dns_char_def TrimSpace_def is_space_def EqualFold_def lower_def
  mset_key_def mdelete_def Let_def

theorem holdoff_add_remove_roundtrip_witness:
  "node_entries (mget (fst (GetRemovedNodeHoldoffAnnotation
      (example_fi (fst (GetAddedNodeHoldoffAnnotation
         (example_fi (Some [IntegrityHoldoffAnnotationKey \<mapsto> ''n1''])) ''n2''))) ''n2''))
      IntegrityHoldoffAnnotationKey) = [''n1'']"
proof -
  let ?fi = "example_fi (Some [IntegrityHoldoffAnnotationKey \<mapsto> ''n1''])"
  obtain a b where ab: "GetAddedNodeHoldoffAnnotation ?fi ''n2'' = (a, b)"
    by (cases "GetAddedNodeHoldoffAnnotation ?fi ''n2''")
  obtain a' b' where ab': "GetRemovedNodeHoldoffAnnotation (?fi\<lparr>Annotations := a\<rparr>) ''n2'' = (a', b')"
    by (cases "GetRemovedNodeHoldoffAnnotation (?fi\<lparr>Annotations := a\<rparr>) ''n2''")
  have "wf_nodes (ann_of ?fi IntegrityHoldoffAnnotationKey)" "dns_name ''n2''" "\<not> IsNodeInHoldoff ?fi ''n2''"
    by (simp_all add: node_list_eval)
  from holdoff_add_remove_roundtrip [OF this ab ab'] show ?thesis using ab ab' by simp
qed

text \<open>
  Re-init of one node is a round trip on proper node lists when the node's name is not a
  substring of the list: adding puts exactly that node in re-init, removing restores the list.
\<close>

theorem reinit_add_remove_roundtrip:
  fixes fi :: FileIntegrity
  assumes "wf_nodes (ann_of fi AideDatabaseReinitAnnotationKey)" and "dns_name n"
    and "reinit_fresh fi n"
    and "GetAddedNodeReinitAnnotation fi [n] = (a, b)"
    and "GetRemovedNodeReinitAnnotation (fi\<lparr>Annotations := a\<rparr>) n = (a', b')"
  shows "b \<and> b'
    \<and> (\<forall>m. IsNodeInReinit (fi\<lparr>Annotations := a\<rparr>) m \<longleftrightarrow> m = n \<or> IsNodeInReinit fi m)
    \<and> node_entries (mget a' AideDatabaseReinitAnnotationKey)
        = node_entries (ann_of fi AideDatabaseReinitAnnotationKey)
    \<and> (\<forall>k. k \<noteq> AideDatabaseReinitAnnotationKey \<longrightarrow> mget a' k = ann_of fi k)"
proof -
  note add = reinit.add_member [OF assms(1-4)]
  have wf: "wf_nodes (ann_of (fi\<lparr>Annotations := a\<rparr>) AideDatabaseReinitAnnotationKey)"
    using reinit.add_wf [OF assms(1-4)] by simp
  have there: "IsNodeIn (fi\<lparr>Annotations := a\<rparr>) n AideDatabaseReinitAnnotationKey" using add(2) by simp
  from add(1) reinit.remove_member(1) [OF wf there assms(5)] have "b" "b'" by simp_all
  moreover have "mget a' k = ann_of fi k" if "k \<noteq> AideDatabaseReinitAnnotationKey" for k
    using reinit.remove_other [OF wf there assms(5) that] reinit.add_other [OF assms(1-4) that] by simp
  ultimately show ?thesis
    using add(2) reinit.add_remove [OF assms] by (simp add: IsNodeInReinit_def)
qed

theorem reinit_add_remove_roundtrip_witness:
  "node_entries (mget (fst (GetRemovedNodeReinitAnnotation
      (example_fi (fst (GetAddedNodeReinitAnnotation
         (example_fi (Some [AideDatabaseReinitAnnotationKey \<mapsto> ''n1''])) [''n2'']))) ''n2''))
      AideDatabaseReinitAnnotationKey) = [''n1'']"
proof -
  let ?fi = "example_fi (Some [AideDatabaseReinitAnnotationKey \<mapsto> ''n1''])"
  obtain a b where ab: "GetAddedNodeReinitAnnotation ?fi [''n2''] = (a, b)"
    by (cases "GetAddedNodeReinitAnnotation ?fi [''n2'']")
  obtain a' b' where ab': "GetRemovedNodeReinitAnnotation (?fi\<lparr>Annotations := a\<rparr>) ''n2'' = (a', b')"
    by (cases "GetRemovedNodeReinitAnnotation (?fi\<lparr>Annotations := a\<rparr>) ''n2''")
  have "wf_nodes (ann_of ?fi AideDatabaseReinitAnnotationKey)" "dns_name ''n2''" "reinit_fresh ?fi ''n2''"
    by (simp_all add: node_list_eval reinit_fresh_def)
  from reinit_add_remove_roundtrip [OF this ab ab'] show ?thesis using ab ab' by simp
qed

lemma addReinitLoop_last:
  "filter (\<lambda>n. \<not> Contains s n) ns \<noteq> [] \<Longrightarrow>
     addReinitLoop s ns (ann, b)
       = (ann(AideDatabaseReinitAnnotationKey \<mapsto> s @ '','' @ last (filter (\<lambda>n. \<not> Contains s n) ns)), True)"
proof (induction ns arbitrary: ann b)
  case Nil
  then show ?case by simp
next
  case (Cons m ms)
  show ?case
  proof (cases "filter (\<lambda>n. \<not> Contains s n) ms = []")
    case True
    then have "addReinitLoop s ms st = st" for st
      by (induction ms arbitrary: st) (auto split: if_splits)
    with True Cons.prems show ?thesis by auto
  next
    case False
    with Cons.IH show ?thesis by auto
  qed
qed

text \<open>
  When the re-init annotation already lists nodes, adding several nodes keeps only one of
  the new ones: every iteration rebuilds the value from the list found before the loop, so the
  result is the old list followed by the last node whose name is not a substring of it.
\<close>

theorem reinit_add_many_keeps_last:
  assumes "ann_of fi AideDatabaseReinitAnnotationKey = Some s" and "s \<noteq> ''''"
    and "filter (\<lambda>n. \<not> Contains s n) ns \<noteq> []"
  shows "\<exists>a. GetAddedNodeReinitAnnotation fi ns = (Some a, True)
    \<and> a AideDatabaseReinitAnnotationKey = Some (s @ '','' @ last (filter (\<lambda>n. \<not> Contains s n) ns))"
proof -
  from assms(3) have "ns \<noteq> []" by auto
  with assms show ?thesis
    by (simp add: GetAddedNodeReinitAnnotation_def addReinitLoop_last Let_def)
qed

theorem reinit_add_many_keeps_last_witness:
  "\<not> IsNodeInReinit (example_fi (fst (GetAddedNodeReinitAnnotation
       (example_fi (Some [AideDatabaseReinitAnnotationKey \<mapsto> ''n1''])) [''n2'', ''n3'']))) ''n2''"
proof -
  let ?fi = "example_fi (Some [AideDatabaseReinitAnnotationKey \<mapsto> ''n1''])"
  have "\<exists>a. GetAddedNodeReinitAnnotation ?fi [''n2'', ''n3''] = (Some a, True)
    \<and> a AideDatabaseReinitAnnotationKey
        = Some (''n1'' @ '','' @ last (filter (\<lambda>n. \<not> Contains ''n1'' n) [''n2'', ''n3'']))"
    by (rule reinit_add_many_keeps_last) simp_all
  then show ?thesis by (auto simp: node_list_eval)
qed

text \<open>A node whose name is a substring of the re-init list is taken to be listed already.\<close>

lemma reinit_add_substring_dropped:
  assumes "wf_nodes (ann_of fi AideDatabaseReinitAnnotationKey)"
    and "ann_of fi AideDatabaseReinitAnnotationKey = Some s"
    and "Contains s n" and "n \<notin> set (Split comma s)"
  shows "GetAddedNodeReinitAnnotation fi [n] = (Annotations fi, False) \<and> \<not> IsNodeInReinit fi n"
proof -
  obtain f where f: "Annotations fi = Some f" using assms(2) by (cases "Annotations fi") auto
  from assms have "s \<noteq> []" by (simp add: wf_nodes_neq_all)
  with assms f show ?thesis
    by (simp add: GetAddedNodeReinitAnnotation_def IsNodeInReinit_def IsNodeIn_entries)
qed

text \<open>The empty hold-off value, every node, survives the removal of a node.\<close>

lemma holdoff_all_never_left:
  assumes "ann_of fi IntegrityHoldoffAnnotationKey = Some ''''" and "dns_name n"
  shows "\<exists>a. GetRemovedNodeHoldoffAnnotation fi n = (Some a, True)
    \<and> a IntegrityHoldoffAnnotationKey = Some ''''
    \<and> IsNodeInHoldoff (fi\<lparr>Annotations := Some a\<rparr>) n"
proof -
  obtain f where f: "Annotations fi = Some f" using assms(1) by (cases "Annotations fi") auto
  with assms(1) have "f IntegrityHoldoffAnnotationKey = Some ''''" by simp
  moreover have "\<not> EqualFold (TrimSpace []) n"
    using assms(2) by (auto simp: EqualFold_def TrimSpace_def dns_name_def)
  ultimately show ?thesis using f assms(2)
    by (simp add: GetRemovedNodeHoldoffAnnotation_def IsNodeInHoldoff_def IsNodeIn_def mset_key_def Let_def)
qed

text \<open>
  Removing a node from a re-init list in which it is the only name but repeated turns the
  list into the empty value, which asks for the re-init of every node.
\<close>

theorem reinit_remove_repeated_asks_all:
  assumes "ann_of fi AideDatabaseReinitAnnotationKey = Some s"
    and "Split comma s = replicate (Suc (Suc k)) n" and "dns_name n"
  shows "\<exists>a. GetRemovedNodeReinitAnnotation fi n = (Some a, True)
    \<and> a AideDatabaseReinitAnnotationKey = Some ''''
    \<and> HasReinitAnnotation (fi\<lparr>Annotations := Some a\<rparr>) = ([], True, True)"
proof -
  obtain f where f: "Annotations fi = Some f" "f AideDatabaseReinitAnnotationKey = Some s"
    using assms(1) by (cases "Annotations fi") auto
  from assms(2,3) have "s \<noteq> []" by (auto simp: dns_name_def)
  with f assms(2) have "IsNodeInReinit fi n" by (simp add: IsNodeInReinit_def IsNodeIn_def list_ex_iff)
  moreover have "filter (\<lambda>node. node \<noteq> n) (Split comma s) = []" by (simp add: assms(2))
  ultimately show ?thesis using f assms(2) dns_name_neq_Nil [OF assms(3)]
    by (simp add: GetRemovedNodeReinitAnnotation_def HasReinitAnnotation_def mset_key_def Let_def)
qed

theorem reinit_remove_repeated_asks_all_witness:
  "\<exists>a. GetRemovedNodeReinitAnnotation (example_fi (Some [AideDatabaseReinitAnnotationKey \<mapsto> ''n1,n1''])) ''n1'' = (Some a, True)
    \<and> a AideDatabaseReinitAnnotationKey = Some ''''
    \<and> HasReinitAnnotation (example_fi (Some [AideDatabaseReinitAnnotationKey \<mapsto> ''n1,n1''])\<lparr>Annotations := Some a\<rparr>)
        = ([], True, True)"
  by (rule reinit_remove_repeated_asks_all [where k = 0 and s = "''n1,n1''"]) (simp_all add: node_list_eval)

end
