(* ===== verification/FI_Controller.thy ===== *)
theory FI_Controller
  imports DaemonSets Restart Node_Lists
begin

text \<open>
  The FileIntegrity controller, \<open>src/pkg/controller/fileintegrity/fileintegrity_controller.go\<close> and
  \<open>fileintegrity_cm_mapper.go\<close>: the config maps and daemon sets of one FileIntegrity, the
  user-provided AIDE configuration, the re-init requests, and the mapping from a config map event to
  the FileIntegrity objects to reconcile. A reconcile is a computation in the state monad over the
  world; \<open>now\<close> is the time in nanoseconds.
\<close>

record Result =
  Requeue :: bool
  RequeueAfter :: int

definition Done :: Result where "Done = \<lparr>Requeue = False, RequeueAfter = 0\<rparr>"
definition Again :: Result where "Again = \<lparr>Requeue = True, RequeueAfter = 0\<rparr>"

section \<open>Default config maps\<close>

text \<open>
  The two script config maps are restored when their data changed: created
  when absent, overwritten when different; the flag says an overwrite happened.
\<close>

definition handleScriptConfigMap :: "client \<Rightarrow> ConfigMap \<Rightarrow> (ConfigMap \<Rightarrow> bool) \<Rightarrow> (error + bool) io" where
  "handleScriptConfigMap cl desired dataMatches = do {
     r \<leftarrow> Get (cms cl) (nsname desired);
     case r of
       Inl e \<Rightarrow> if \<not> IsNotFound e then throw e
                else thenE (Create (cms cl) desired) (ok False)
     | Inr cm \<Rightarrow> if \<not> dataMatches cm then thenE (Update (cms cl) desired) (ok True)
                 else ok False }"

definition handleDefaultConfigMaps :: "client \<Rightarrow> Env \<Rightarrow> FileIntegrity \<Rightarrow> (error + ConfigMap option \<times> bool) io" where
  "handleDefaultConfigMaps cl env f =
     bindE (handleScriptConfigMap cl (aideReinitScript env) (dataMatchesReinitScript env)) (\<lambda>u1.
     bindE (handleScriptConfigMap cl (aidePauseScript env) (dataMatchesPauseScript env)) (\<lambda>u2.
     let scriptsUpdated = (u1 \<or> u2) in do {
       r \<leftarrow> Get (cms cl) (FileIntegrityNamespace env, Name f);
       case r of
         Inl e \<Rightarrow> if \<not> IsNotFound e then throw e
                  else thenE (Create (cms cl) (defaultAIDEConfigMap env (Name f))) (ok (None, scriptsUpdated))
       | Inr confCm \<Rightarrow>
           (let hasData = (mget (Data confCm) DefaultConfDataKey \<noteq> None);
                hasOwner = (mget (Labels confCm) IntegrityOwnerLabelKey \<noteq> None)
            in if \<not> hasData \<or> \<not> hasOwner
               then thenE (Update (cms cl) (defaultAIDEConfigMap env (Name f))) (ok (None, scriptsUpdated))
               else ok (Some confCm, scriptsUpdated)) }))"

section \<open>Re-init daemon sets\<close>

definition GetFailedNodes :: "client \<Rightarrow> FileIntegrity \<Rightarrow> (error + string list) io" where
  "GetFailedNodes cl fi = do {
     r \<leftarrow> ListObjs (nss cl) \<lparr>loNamespace = '''', loSelector = Some [IntegrityOwnerLabelKey \<mapsto> Name fi]\<rparr>;
     case r of
       Inl e \<Rightarrow> if IsNotFound e then ok [] else throw e
     | Inr items \<Rightarrow> ok (map NodeName (filter (\<lambda>ns. Condition (LastResult ns) = NodeConditionFailed) items)) }"

definition narrowNodeSelector :: "FileIntegrity \<Rightarrow> Node option \<Rightarrow> error + gomap" where
  "narrowNodeSelector inst node = (case node of
       None \<Rightarrow> Inr (NodeSelector (fiSpec inst))
     | Some n \<Rightarrow>
         (case mget (Labels n) ''kubernetes.io/hostname'' of
            None \<Rightarrow> Inl (GoError (''couldn'' @ [CHR 0x27] @ ''t find hostname label from node''))
          | Some hostnameFromLabel \<Rightarrow>
              if length hostnameFromLabel = 0
              then Inl (GoError (''couldn'' @ [CHR 0x27] @ ''t find hostname label from node''))
              else Inr (Some [''kubernetes.io/hostname'' \<mapsto> hostnameFromLabel])))"

definition tryGettingNode :: "client \<Rightarrow> string \<Rightarrow> (error + Node option) io" where
  "tryGettingNode cl node =
     (if length node = 0 then ok None
      else bindE (Get (nodes cl) ('''', node)) (\<lambda>n. ok (Some n)))"

text \<open>The value is \<open>isCreated\<close>; on an error the code returns false with it.\<close>

definition createReinitDaemonSet :: "client \<Rightarrow> Env \<Rightarrow> FileIntegrity \<Rightarrow> string \<Rightarrow> string \<Rightarrow> (error + bool) io" where
  "createReinitDaemonSet cl env inst node operatorImage =
     (let dsName = ReinitDaemonSetNodeName (Name inst) node in do {
       r \<leftarrow> Get (dss cl) (FileIntegrityNamespace env, dsName);
       case r of
         Inr _ \<Rightarrow> ok False
       | Inl getErr \<Rightarrow>
           if \<not> IsNotFound getErr then throw getErr
           else do {
             n \<leftarrow> tryGettingNode cl node;
             case n of
               Inl tryNodeErr \<Rightarrow> if \<not> IsNotFound tryNodeErr then throw tryNodeErr else ok False
             | Inr reinitNode \<Rightarrow>
                 (case narrowNodeSelector inst reinitNode of
                    Inl narrowErr \<Rightarrow> throw narrowErr
                  | Inr selectorOverride \<Rightarrow>
                      (case SetControllerReference_ds cl inst
                              (reinitAideDaemonset env dsName inst selectorOverride operatorImage) of
                         Inl err \<Rightarrow> throw err
                       | Inr ds \<Rightarrow> thenE (Create (dss cl) ds) (do {
                           met IncFileIntegrityReinitDaemonsetUpdate;
                           ok True }))) } })"

section \<open>The AIDE configuration\<close>

definition updateAideConfig :: "client \<Rightarrow> ConfigMap \<Rightarrow> string \<Rightarrow> string \<Rightarrow> error option io" where
  "updateAideConfig cl conf data node =
     (case mput (Data conf) DefaultConfDataKey data of
        None \<Rightarrow> State_Monad.return (Some (Panic ''assignment to entry in nil map''))
      | Some newData \<Rightarrow>
          (let confCopy = conf\<lparr>Data := newData\<rparr>; ann = made (Annotations conf) in
           case ann AideConfigUpdatedAnnotationKey of
             None \<Rightarrow> Update (cms cl) (confCopy\<lparr>Annotations := mset_key ann AideConfigUpdatedAnnotationKey node\<rparr>)
           | Some nodeListString \<Rightarrow>
               if node = '''' then
                 Update (cms cl) (confCopy\<lparr>Annotations := mset_key ann AideConfigUpdatedAnnotationKey node\<rparr>)
               else
                 (let nodeList = Split comma nodeListString in
                  if list_ex (\<lambda>n. n = node) nodeList then State_Monad.return None
                  else Update (cms cl) (confCopy\<lparr>Annotations :=
                         mset_key ann AideConfigUpdatedAnnotationKey (Join (nodeList @ [node]) '','')\<rparr>))))"

definition retrieveAndAnnotateAideConfig :: "client \<Rightarrow> ConfigMap \<Rightarrow> string \<Rightarrow> error option io" where
  "retrieveAndAnnotateAideConfig cl conf node = do {
     r \<leftarrow> Get (cms cl) (Namespace conf, Name conf);
     case r of Inl e \<Rightarrow> State_Monad.return (Some e)
     | Inr cachedConf \<Rightarrow> updateAideConfig cl cachedConf (mval (Data cachedConf) DefaultConfDataKey) node }"

definition aideConfigIsDefault :: "client \<Rightarrow> Env \<Rightarrow> FileIntegrity \<Rightarrow> (error + bool) io" where
  "aideConfigIsDefault cl env inst =
     (let defaultConfigMap = defaultAIDEConfigMap env (Name inst) in
      bindE (Get (cms cl) (nsname defaultConfigMap)) (\<lambda>currentConfigMap.
        ok (configMapKeyDataMatches currentConfigMap defaultConfigMap DefaultConfDataKey)))"

definition reconcileUserConfig :: "client \<Rightarrow> Env \<Rightarrow> FileIntegrity \<Rightarrow> ConfigMap \<Rightarrow> (error + bool) io" where
  "reconcileUserConfig cl env inst currentConfig =
     (let config = Config (fiSpec inst) in
      if length (cfgName config) = 0 \<or> length (cfgNamespace config) = 0 then
        bindE (aideConfigIsDefault cl env inst) (\<lambda>hasDefaultConfig.
          if \<not> hasDefaultConfig
          then thenE (updateAideConfig cl currentConfig (GetAideConfigDefault env) '''') (ok True)
          else ok False)
      else do {
        r \<leftarrow> Get (cms cl) (cfgNamespace config, cfgName config);
        case r of
          Inl e \<Rightarrow> if \<not> IsNotFound e then throw e else ok False
        | Inr userConfigMap \<Rightarrow>
            (let key = (if cfgKey config \<noteq> '''' then cfgKey config else DefaultConfDataKey) in
             case mget (Data userConfigMap) key of
               None \<Rightarrow> ok False
             | Some conf \<Rightarrow>
                 if length conf = 0 then ok False
                 else (case prepareAideConf conf of
                     Inl e \<Rightarrow> throw e
                   | Inr preparedConf \<Rightarrow>
                       if preparedConf = mval (Data currentConfig) DefaultConfDataKey then ok False
                       else thenE (updateAideConfig cl currentConfig preparedConf '''') (ok True))) })"

definition validatePriorityClass :: "client \<Rightarrow> string \<Rightarrow> bool io" where
  "validatePriorityClass cl pcName =
     (if pcName = '''' then State_Monad.return True
      else do {
        r \<leftarrow> Get (pcs cl) ('''', pcName);
        State_Monad.return (case r of Inl _ \<Rightarrow> False | Inr _ \<Rightarrow> True) })"

definition getOperatorDeploymentImage :: "client \<Rightarrow> Env \<Rightarrow> (error + string) io" where
  "getOperatorDeploymentImage cl env =
     bindE (Get (deps cl) (FileIntegrityNamespace env, ''file-integrity-operator'')) (\<lambda>operatorDeployment.
       ok (case depContainers operatorDeployment of [] \<Rightarrow> '''' | c # _ \<Rightarrow> cImage c))"

definition deleteLegacyDaemonSets :: "client \<Rightarrow> FileIntegrity \<Rightarrow> error option io" where
  "deleteLegacyDaemonSets cl inst = do {
     r \<leftarrow> ListObjs (dss cl) \<lparr>loNamespace = '''', loSelector = Some [IntegrityOwnerLabelKey \<mapsto> Name inst]\<rparr>;
     case r of Inl e \<Rightarrow> State_Monad.return (Some e)
     | Inr items \<Rightarrow> deleteLoop (dss cl) (filter (\<lambda>ds. HasPrefix (Name ds) ''aide-ds-'') items) }"

section \<open>The reconcile\<close>

text \<open>An unusable priority class is cleared; the value says whether to requeue.\<close>

definition reconcilePriorityClass :: "client \<Rightarrow> FileIntegrity \<Rightarrow> bool io" where
  "reconcilePriorityClass cl inst =
     (let pc = PriorityClassName (fiSpec inst) in
      if pc = '''' then State_Monad.return False
      else do {
        valid \<leftarrow> validatePriorityClass cl pc;
        if valid then State_Monad.return False
        else do {
          Eventf (Name inst) EventTypeWarning ''PriorityClass''
            (''Error while getting priority class '' @ [CHR 0x27] @ pc @ [CHR 0x27]
               @ '', PriorityClass not found or invalid'');
          err \<leftarrow> Update (fis cl) (inst\<lparr>fiSpec := (fiSpec inst)\<lparr>PriorityClassName := ''''\<rparr>\<rparr>);
          State_Monad.return (err = None) } })"

text \<open>The failed nodes are asked to re-init and the request is cleared.\<close>

definition reinitOnFailed :: "client \<Rightarrow> FileIntegrity \<Rightarrow> (error + Result) io" where
  "reinitOnFailed cl inst =
     bindE (GetFailedNodes cl inst) (\<lambda>ns.
       let (updatedAnn, needChange) = GetAddedNodeReinitAnnotation inst ns in
       if needChange \<and> ns = [] then throw (Panic ''index out of range [0] with length 0'')
       else
         (let ann = (if needChange then updatedAnn else Annotations inst) in
          thenE (Update (fis cl) (inst\<lparr>Annotations := mdelete ann AideDatabaseReinitOnFailedAnnotationKey\<rparr>))
            (ok Done)))"

text \<open>
  The re-init step: the node to re-init, then, when there is a new configuration or a
  request, the daemon set, the annotation of the config map and the removal of the request. The value
  says whether the reconcile stops here.
\<close>

definition pickNode :: "FileIntegrity \<Rightarrow> bool \<Rightarrow> error + string \<times> bool" where
  "pickNode inst hasNewConfig =
     (let (nodesToReinit, forceReinit, reinitAll) = HasReinitAnnotation inst in
      if forceReinit \<and> \<not> reinitAll then
        (case nodesToReinit of [] \<Rightarrow> Inl (Panic ''index out of range [0] with length 0'')
         | n # _ \<Rightarrow> Inr (if hasNewConfig then '''' else n, forceReinit))
      else Inr ('''', forceReinit))"

definition reconcileReinit :: "client \<Rightarrow> Env \<Rightarrow> FileIntegrity \<Rightarrow> string \<Rightarrow> ConfigMap \<Rightarrow> bool \<Rightarrow> (error + bool) io" where
  "reconcileReinit cl env inst operatorImage defaultAideConf hasNewConfig =
     (case pickNode inst hasNewConfig of Inl e \<Rightarrow> throw e
      | Inr (nodeToReinit, forceReinit) \<Rightarrow>
          if hasNewConfig \<or> forceReinit then
            bindE (createReinitDaemonSet cl env inst nodeToReinit operatorImage) (\<lambda>isCreated. do {
              (if isCreated then
                 (if forceReinit then met IncFileIntegrityReinitByDemand else met IncFileIntegrityReinitByConfig)
               else State_Monad.return ());
              thenE (retrieveAndAnnotateAideConfig cl defaultAideConf nodeToReinit)
                (let (ann, needChange) = GetRemovedNodeReinitAnnotation inst nodeToReinit in
                 if needChange then do {
                   err \<leftarrow> Update (fis cl) (inst\<lparr>Annotations := ann\<rparr>);
                   ok (err \<noteq> None) }
                 else ok False) })
          else ok False)"

text \<open>The initial delay in nanoseconds, a 64-bit product.\<close>

definition delayTime :: "FileIntegrity \<Rightarrow> int" where
  "delayTime inst = int64 (InitialDelay (Config (fiSpec inst)) * 1000000000)"

text \<open>The daemon set step.\<close>

definition reconcileDaemonSet :: "client \<Rightarrow> Env \<Rightarrow> int \<Rightarrow> FileIntegrity \<Rightarrow> string \<Rightarrow> bool \<Rightarrow> (error + Result) io" where
  "reconcileDaemonSet cl env now inst operatorImage scriptsUpdated =
     (let daemonSetName = DaemonSetName (Name inst) in do {
       r \<leftarrow> Get (dss cl) (FileIntegrityNamespace env, daemonSetName);
       case r of
         Inl err \<Rightarrow>
           if \<not> IsNotFound err then throw err
           else thenE (deleteLegacyDaemonSets cl inst)
             (if now < CreationTimestamp inst * 1000000000 + delayTime inst then
                ok \<lparr>Requeue = True, RequeueAfter = delayTime inst\<rparr>
              else
                (case SetControllerReference_ds cl inst (aideDaemonset env daemonSetName inst operatorImage) of
                   Inl ownerErr \<Rightarrow> throw err
                 | Inr ds \<Rightarrow> do {
                     createErr \<leftarrow> Create (dss cl) ds;
                     case createErr of
                       Some e \<Rightarrow> if IsAlreadyExists e then ok Done else throw e
                     | None \<Rightarrow> do { met IncFileIntegrityDaemonsetUpdate; ok Done } }))
       | Inr daemonSet \<Rightarrow>
           (case updateDS env inst operatorImage daemonSet of
              Inl e \<Rightarrow> throw e
            | Inr (dsCopy, needsUpdate) \<Rightarrow>
                if needsUpdate \<or> scriptsUpdated then
                  thenE (Update (dss cl) dsCopy) (do {
                    met IncFileIntegrityDaemonsetUpdate;
                    thenE (RestartFileIntegrityDs cl env (DaemonSetName (Name inst))) (do {
                      met IncFileIntegrityDaemonsetPodKill;
                      ok Done }) })
                else ok Done) })"

definition FileIntegrityControllerReconcile :: "client \<Rightarrow> Env \<Rightarrow> int \<Rightarrow> NamespacedName \<Rightarrow> (error + Result) io" where
  "FileIntegrityControllerReconcile cl env now request = do {
     r \<leftarrow> Get (fis cl) request;
     case r of
       Inl e \<Rightarrow> if IsNotFound e then ok Done else throw e
     | Inr inst \<Rightarrow> do {
         requeue \<leftarrow> reconcilePriorityClass cl inst;
         if requeue then ok Again
         else
           bindE (getOperatorDeploymentImage cl env) (\<lambda>operatorImage.
           bindE (handleDefaultConfigMaps cl env inst) (\<lambda>(defaultConf, scriptsUpdated).
           case defaultConf of None \<Rightarrow> ok Again
           | Some defaultAideConf \<Rightarrow>
               bindE (reconcileUserConfig cl env inst defaultAideConf) (\<lambda>hasNewConfig.
               if mget (Annotations inst) AideDatabaseReinitOnFailedAnnotationKey \<noteq> None
               then reinitOnFailed cl inst
               else
                 bindE (reconcileReinit cl env inst operatorImage defaultAideConf hasNewConfig) (\<lambda>stop.
                 if stop then ok Done
                 else reconcileDaemonSet cl env now inst operatorImage scriptsUpdated)))) } }"

section \<open>Config map events\<close>

text \<open>\<open>fileIntegrityMapper.Map\<close>: which FileIntegrity objects a config map event reconciles.\<close>

definition fileIntegrityMapper_Map :: "client \<Rightarrow> ('z) ObjectMeta_scheme \<Rightarrow> NamespacedName list io" where
  "fileIntegrityMapper_Map cl obj = do {
     r \<leftarrow> ListObjs (fis cl) \<lparr>loNamespace = '''', loSelector = None\<rparr>;
     State_Monad.return (case r of Inl _ \<Rightarrow> []
       | Inr items \<Rightarrow> map nsname (filter (\<lambda>fi.
            \<not> (cfgName (Config (fiSpec fi)) \<noteq> Name obj \<and> Name fi \<noteq> Name obj) \<and>
            \<not> (cfgNamespace (Config (fiSpec fi)) \<noteq> Namespace obj \<and> Namespace fi \<noteq> Namespace obj)) items)) }"

section \<open>What each step does\<close>

text \<open>
  Each lemma gives the outcome of one function against any client that obeys the laws: what it may
  touch, and what is true when it succeeds. No step ever panics.
\<close>

context kube_api
begin

lemma wp_handleScriptConfigMap:
  assumes "\<forall>cm. served_cm desired cm \<longrightarrow> matches cm"
  shows "wp (handleScriptConfigMap cl desired matches) (\<lambda>r w'. frame {nsname desired} {} {} {} w w' \<and>
     (case r of Inl e \<Rightarrow> \<not> is_panic e
      | Inr u \<Rightarrow> (\<exists>cm. lookup (ConfigMaps w') (nsname desired) = Some cm \<and> matches cm)
          \<and> (u \<longleftrightarrow> (\<exists>old. lookup (ConfigMaps w) (nsname desired) = Some old \<and> \<not> matches old)))) w"
  unfolding handleScriptConfigMap_def
proof (simp add: wp_simps, rule cm.wp_Get, goal_cases)
  case (1 e)
  show ?case
  proof (cases "IsNotFound e")
    case True
    show ?thesis
      by (simp add: True wp_simps, rule cm.wp_Create)
        (use assms 1 True in \<open>auto intro: frame_store simp: wp_simps\<close>)
  qed (use 1 in \<open>simp add: wp_simps\<close>)
next
  case (2 old)
  show ?case
  proof (cases "matches old")
    case False
    show ?thesis
      by (simp add: False wp_simps, rule cm.wp_Update)
        (use assms 2 False in \<open>auto intro: frame_store simp: wp_simps\<close>)
  qed (use 2 in \<open>simp add: wp_simps\<close>)
qed

end

text \<open>The config maps the controller maintains for a FileIntegrity.\<close>

definition operator_cms :: "Env \<Rightarrow> FileIntegrity \<Rightarrow> NamespacedName set" where
  "operator_cms env f = {nsname (aideReinitScript env), nsname (aidePauseScript env), (FileIntegrityNamespace env, Name f)}"

lemma operator_cms_mem [simp]:
  "(FileIntegrityNamespace env, AideReinitScriptConfigMapName) \<in> operator_cms env f"
  "(FileIntegrityNamespace env, PauseConfigMapName) \<in> operator_cms env f"
  "(FileIntegrityNamespace env, Name f) \<in> operator_cms env f"
  by (simp_all add: operator_cms_def nsname_def aideReinitScript_def aidePauseScript_def)

lemma scripts_match:
  "\<forall>cm. served_cm (aideReinitScript env) cm \<longrightarrow> dataMatchesReinitScript env cm"
  "\<forall>cm. served_cm (aidePauseScript env) cm \<longrightarrow> dataMatchesPauseScript env cm"
  by (simp_all add: dataMatchesReinitScript_def dataMatchesPauseScript_def configMapKeyDataMatches_def
      mval_def served_cmD)

lemma nsname_builders [simp]:
  "nsname (aideReinitScript env) = (FileIntegrityNamespace env, AideReinitScriptConfigMapName)"
  "nsname (aidePauseScript env) = (FileIntegrityNamespace env, PauseConfigMapName)"
  "nsname (defaultAIDEConfigMap env n) = (FileIntegrityNamespace env, n)"
  "nsname (aideDaemonset env n f img) = (FileIntegrityNamespace env, n)"
  "nsname (reinitAideDaemonset env n f sel img) = (FileIntegrityNamespace env, n)"
  by (simp_all add: nsname_def aideReinitScript_def aidePauseScript_def defaultAIDEConfigMap_def
      aideDaemonset_def reinitAideDaemonset_def Let_def)

text \<open>
  The outcome of \<open>handleDefaultConfigMaps\<close>: the config map it hands on has data and an owner; with
  none to hand on, the default one was just stored.
\<close>

definition defaults_handled :: "Env \<Rightarrow> FileIntegrity \<Rightarrow> world \<Rightarrow> error + ConfigMap option \<times> bool \<Rightarrow> world \<Rightarrow> bool" where
  "defaults_handled env f w r w' \<longleftrightarrow> frame (operator_cms env f) {} {} {} w w' \<and>
     (case r of Inl e \<Rightarrow> \<not> is_panic e
      | Inr (conf, u) \<Rightarrow>
          (case conf of
             Some cm \<Rightarrow> lookup (ConfigMaps w') (FileIntegrityNamespace env, Name f) = Some cm
                \<and> mget (Data cm) DefaultConfDataKey \<noteq> None \<and> mget (Labels cm) IntegrityOwnerLabelKey \<noteq> None
           | None \<Rightarrow> (\<exists>cm. lookup (ConfigMaps w') (FileIntegrityNamespace env, Name f) = Some cm
                \<and> served_cm (defaultAIDEConfigMap env (Name f)) cm)) \<and>
          (Name f \<notin> {AideReinitScriptConfigMapName, PauseConfigMapName} \<longrightarrow>
             (\<exists>s p. lookup (ConfigMaps w') (nsname (aideReinitScript env)) = Some s \<and> dataMatchesReinitScript env s \<and>
                lookup (ConfigMaps w') (nsname (aidePauseScript env)) = Some p \<and> dataMatchesPauseScript env p)))"

lemma script_names_differ: "AideReinitScriptConfigMapName \<noteq> PauseConfigMapName"
  by (simp add: key_defs)

context kube_api
begin

lemma wp_conf:
  assumes f: "frame (operator_cms env f) {} {} {} w w2"
    and scripts: "\<exists>s p. lookup (ConfigMaps w2) (nsname (aideReinitScript env)) = Some s \<and> dataMatchesReinitScript env s \<and>
        lookup (ConfigMaps w2) (nsname (aidePauseScript env)) = Some p \<and> dataMatchesPauseScript env p"
  shows "wp (do {
       r \<leftarrow> Get (cms cl) (FileIntegrityNamespace env, Name f);
       case r of
         Inl e \<Rightarrow> if \<not> IsNotFound e then throw e
                  else thenE (Create (cms cl) (defaultAIDEConfigMap env (Name f))) (ok (None, u))
       | Inr confCm \<Rightarrow>
           (if \<not> mget (Data confCm) DefaultConfDataKey \<noteq> None \<or> \<not> mget (Labels confCm) IntegrityOwnerLabelKey \<noteq> None
               then thenE (Update (cms cl) (defaultAIDEConfigMap env (Name f))) (ok (None, u))
               else ok (Some confCm, u)) }) (defaults_handled env f w) w2"
proof (simp add: wp_simps, rule cm.wp_Get, goal_cases)
  case (1 e)
  show ?case
  proof (cases "IsNotFound e")
    case True
    show ?thesis
      by (simp add: True wp_simps, rule cm.wp_Create)
        (use f scripts in \<open>auto simp: wp_simps defaults_handled_def intro!: frame_then_store(1) [OF f]\<close>)
  qed (use f 1 in \<open>simp add: wp_simps defaults_handled_def\<close>)
next
  case (2 conf)
  show ?case
  proof (cases "mget (Data conf) DefaultConfDataKey = None \<or> mget (Labels conf) IntegrityOwnerLabelKey = None")
    case True
    show ?thesis
      by (simp add: True wp_simps, rule cm.wp_Update)
        (use f scripts in \<open>auto simp: wp_simps defaults_handled_def intro!: frame_then_store(1) [OF f]\<close>)
  next
    case False
    with f scripts 2 show ?thesis by (simp add: wp_simps defaults_handled_def)
  qed
qed

lemma wp_handleDefaultConfigMaps: "wp (handleDefaultConfigMaps cl env f) (defaults_handled env f w) w"
  unfolding handleDefaultConfigMaps_def
proof (rule wp_bindE_rule [OF wp_handleScriptConfigMap [OF scripts_match(1)]], goal_cases)
  case (1 e w1)
  then show ?case by (auto simp: defaults_handled_def operator_cms_def intro: frame_mono)
next
  case (2 u1 w1)
  then have f1: "frame (operator_cms env f) {} {} {} w w1"
    by (auto simp: operator_cms_def intro: frame_mono)
  show ?case
  proof (rule wp_bindE_rule [OF wp_handleScriptConfigMap [OF scripts_match(2)]], goal_cases)
    case (1 e w2)
    then have "frame (operator_cms env f) {} {} {} w1 w2"
      by (auto simp: operator_cms_def intro: frame_mono)
    with f1 1 show ?case by (auto simp: defaults_handled_def intro: frame_trans)
  next
    case (2 u2 w2)
    then have "frame (operator_cms env f) {} {} {} w1 w2"
      by (auto simp: operator_cms_def intro: frame_mono)
    with f1 have f2: "frame (operator_cms env f) {} {} {} w w2" by (rule frame_trans)
    have "lookup (ConfigMaps w2) (nsname (aideReinitScript env)) = lookup (ConfigMaps w1) (nsname (aideReinitScript env))"
      using 2 script_names_differ by (auto dest: frame_keeps(1))
    with 2 \<open>frame {nsname (aideReinitScript env)} {} {} {} w w1 \<and> _\<close>
    have scripts: "\<exists>s p. lookup (ConfigMaps w2) (nsname (aideReinitScript env)) = Some s \<and> dataMatchesReinitScript env s \<and>
        lookup (ConfigMaps w2) (nsname (aidePauseScript env)) = Some p \<and> dataMatchesPauseScript env p"
      by auto
    show ?case unfolding Let_def
      by (rule wp_conf [OF f2 scripts])
  qed
qed

end

section \<open>The AIDE configuration, step by step\<close>

text \<open>The value of the \<open>updated\<close> annotation after one more node is marked.\<close>

definition marked :: "string option \<Rightarrow> string \<Rightarrow> string" where
  "marked old node = (case old of None \<Rightarrow> node
     | Some l \<Rightarrow> if node = '''' then node else Join (Split comma l @ [node]) '','')"

definition already_marked :: "string option \<Rightarrow> string \<Rightarrow> bool" where
  "already_marked old node \<longleftrightarrow> node \<noteq> '''' \<and> (\<exists>l. old = Some l \<and> node \<in> set (Split comma l))"

definition config_updated :: "ConfigMap \<Rightarrow> string \<Rightarrow> string \<Rightarrow> world \<Rightarrow> error option \<Rightarrow> world \<Rightarrow> bool" where
  "config_updated conf data node w r w' \<longleftrightarrow> frame {nsname conf} {} {} {} w w' \<and>
     (case r of Some e \<Rightarrow> \<not> is_panic e \<and> w' = w
      | None \<Rightarrow>
          if already_marked (mget (Annotations conf) AideConfigUpdatedAnnotationKey) node then w' = w
          else (\<exists>cm. lookup (ConfigMaps w') (nsname conf) = Some cm \<and>
            mget (Data cm) DefaultConfDataKey = Some data \<and>
            (\<forall>k. k \<noteq> DefaultConfDataKey \<longrightarrow> mget (Data cm) k = mget (Data conf) k) \<and>
            (\<forall>k. mget (Labels cm) k = mget (Labels conf) k) \<and>
            mget (Annotations cm) AideConfigUpdatedAnnotationKey
              = Some (marked (mget (Annotations conf) AideConfigUpdatedAnnotationKey) node)))"

lemma nsname_Data [simp]: "nsname (cm\<lparr>Data := d\<rparr>) = nsname cm"
  by (simp add: nsname_def)

context kube_api
begin

lemma wp_updateAideConfig:
  assumes "Data conf \<noteq> None"
  shows "wp (updateAideConfig cl conf data node) (config_updated conf data node w) w"
proof -
  from assms obtain d where d: "Data conf = Some d" by blast
  have upd: "wp (Update (cms cl) (conf\<lparr>Data := Some (d(DefaultConfDataKey \<mapsto> data)), Annotations := mset_key (made (Annotations conf))
      AideConfigUpdatedAnnotationKey (marked (mget (Annotations conf) AideConfigUpdatedAnnotationKey) node)\<rparr>))
      (config_updated conf data node w) w"
    if "\<not> already_marked (mget (Annotations conf) AideConfigUpdatedAnnotationKey) node"
    by (rule cm.wp_Update) (use that d in \<open>auto simp: config_updated_def served_cmD intro: frame_store(1)\<close>)
  show ?thesis
  proof (cases "mget (Annotations conf) AideConfigUpdatedAnnotationKey")
    case None
    then have "made (Annotations conf) AideConfigUpdatedAnnotationKey = None" by (simp add: mget_made)
    with upd None show ?thesis
      by (simp add: updateAideConfig_def mput_def d Let_def already_marked_def marked_def)
  next
    case (Some l)
    then have l: "made (Annotations conf) AideConfigUpdatedAnnotationKey = Some l" by (simp add: mget_made)
    show ?thesis
    proof (cases "already_marked (Some l) node")
      case True
      with l d Some show ?thesis
        by (auto simp: updateAideConfig_def mput_def Let_def already_marked_def config_updated_def wp_simps list_ex_iff)
    next
      case False
      with upd l d Some show ?thesis
        by (auto simp: updateAideConfig_def mput_def Let_def already_marked_def marked_def list_ex_iff)
    qed
  qed
qed

lemma wp_retrieveAndAnnotateAideConfig:
  assumes "lookup (ConfigMaps w) (nsname conf) = Some cur" and "Data cur \<noteq> None"
  shows "wp (retrieveAndAnnotateAideConfig cl conf node)
    (config_updated cur (mval (Data cur) DefaultConfDataKey) node w) w"
  unfolding retrieveAndAnnotateAideConfig_def
proof (simp add: wp_simps, rule cm.wp_Get, goal_cases)
  case (1 e)
  then show ?case by (simp add: wp_simps config_updated_def)
next
  case (2 cm)
  with assms have "cm = cur" by (simp add: nsname_def)
  with assms show ?case by (simp add: wp_simps wp_updateAideConfig)
qed

end

text \<open>
  The configuration the FileIntegrity asks for: the default without a user config map; its prepared
  contents with one; what is there now when the user config map is missing or has no such entry.
\<close>

definition wanted_conf :: "Env \<Rightarrow> FileIntegrity \<Rightarrow> world \<Rightarrow> string \<Rightarrow> string" where
  "wanted_conf env inst w current =
     (let config = Config (fiSpec inst) in
      if cfgName config = '''' \<or> cfgNamespace config = '''' then GetAideConfigDefault env
      else (case lookup (ConfigMaps w) (cfgNamespace config, cfgName config) of None \<Rightarrow> current
        | Some u \<Rightarrow> (case mget (Data u) (if cfgKey config \<noteq> '''' then cfgKey config else DefaultConfDataKey) of
              None \<Rightarrow> current
            | Some conf \<Rightarrow> if conf = '''' then current
                else (case prepareAideConf conf of Inl _ \<Rightarrow> current | Inr preparedConf \<Rightarrow> preparedConf))))"

definition user_config_done :: "Env \<Rightarrow> FileIntegrity \<Rightarrow> ConfigMap \<Rightarrow> world \<Rightarrow> error + bool \<Rightarrow> world \<Rightarrow> bool" where
  "user_config_done env inst current w r w' \<longleftrightarrow> frame {nsname current} {} {} {} w w' \<and>
     (case r of Inl e \<Rightarrow> \<not> is_panic e \<and> w' = w
      | Inr changed \<Rightarrow>
          (let old = mval (Data current) DefaultConfDataKey; new = wanted_conf env inst w old in
           (changed \<longleftrightarrow> new \<noteq> old) \<and>
           (if changed
            then (\<exists>cm. lookup (ConfigMaps w') (nsname current) = Some cm \<and>
                   mget (Data cm) DefaultConfDataKey = Some new \<and>
                   mget (Annotations cm) AideConfigUpdatedAnnotationKey = Some '''' \<and>
                   (\<forall>k. mget (Labels cm) k = mget (Labels current) k))
            else w' = w)))"

context kube_api
begin

lemma wp_write_config:
  assumes "Data current \<noteq> None" and "wanted_conf env inst w (mval (Data current) DefaultConfDataKey) = new"
    and "new \<noteq> mval (Data current) DefaultConfDataKey"
  shows "wp (thenE (updateAideConfig cl current new '''') (ok True)) (user_config_done env inst current w) w"
  by (rule wp_thenE_rule [OF wp_updateAideConfig [OF assms(1)]])
    (use assms in \<open>auto simp: wp_simps config_updated_def user_config_done_def already_marked_def marked_def Let_def
       split: option.splits\<close>)

lemma user_config_kept:
  "wanted_conf env inst w (mval (Data current) DefaultConfDataKey) = mval (Data current) DefaultConfDataKey \<Longrightarrow>
    user_config_done env inst current w (Inr False) w"
  by (simp add: user_config_done_def)

lemma wp_default_config:
  assumes cur: "lookup (ConfigMaps w) (FileIntegrityNamespace env, Name inst) = Some current" and data: "Data current \<noteq> None"
    and none: "cfgName (Config (fiSpec inst)) = '''' \<or> cfgNamespace (Config (fiSpec inst)) = ''''"
  shows "wp (reconcileUserConfig cl env inst current) (user_config_done env inst current w) w"
proof -
  have want: "wanted_conf env inst w old = GetAideConfigDefault env" for old using none by (simp add: wanted_conf_def Let_def)
  show ?thesis unfolding reconcileUserConfig_def aideConfigIsDefault_def Let_def
    using none
  proof (simp add: wp_simps, intro cm.wp_Get, goal_cases)
    case (1 e)
    then show ?case by (simp add: user_config_done_def)
  next
    case (2 cm)
    with cur have "cm = current" by simp
    then show ?case using wp_write_config [OF data want]
      by (auto simp: wp_simps configMapKeyDataMatches_def defaultAIDEConfigMap_def mval_def want user_config_kept)
  qed
qed

lemma wp_named_config:
  assumes data: "Data current \<noteq> None" and named: "\<not> (cfgName (Config (fiSpec inst)) = '''' \<or> cfgNamespace (Config (fiSpec inst)) = '''')"
  shows "wp (reconcileUserConfig cl env inst current) (user_config_done env inst current w) w"
  unfolding reconcileUserConfig_def Let_def
  using named
proof (simp add: wp_bind split del: if_split, intro cm.wp_Get, goal_cases)
  case (1 e)
  with named show ?case
    by (cases "IsNotFound e") (auto simp: wp_simps user_config_done_def wanted_conf_def Let_def)
next
  case (2 u)
  let ?c = "Config (fiSpec inst)"
  let ?v = "mget (Data u) (if cfgKey ?c \<noteq> '''' then cfgKey ?c else DefaultConfDataKey)"
  have want: "wanted_conf env inst w old = (case ?v of None \<Rightarrow> old
      | Some conf \<Rightarrow> if conf = '''' then old
        else Join (map prepared (Split newline conf)) [newline])" for old
    using named 2 by (simp add: wanted_conf_def Let_def prepareAideConf_Join split: option.splits)
  show ?case
  proof (cases ?v)
    case None
    with want show ?thesis by (simp add: wp_ok user_config_kept split del: if_split)
  next
    case (Some conf)
    let ?p = "Join (map prepared (Split newline conf)) [newline]"
    show ?thesis
    proof (cases "conf = '''' \<or> ?p = mval (Data current) DefaultConfDataKey")
      case True
      with Some want show ?thesis
        by (cases "conf = ''''") (simp_all add: wp_ok user_config_kept prepareAideConf_Join split del: if_split)
    next
      case False
      with Some want show ?thesis
        by (simp add: prepareAideConf_Join wp_write_config [OF data] split del: if_split)
    qed
  qed
qed

lemma wp_reconcileUserConfig:
  assumes cur: "lookup (ConfigMaps w) (FileIntegrityNamespace env, Name inst) = Some current"
    and data: "mget (Data current) DefaultConfDataKey \<noteq> None"
  shows "wp (reconcileUserConfig cl env inst current) (user_config_done env inst current w) w"
proof -
  have "Data current \<noteq> None" using data by (cases "Data current") simp_all
  then show ?thesis using wp_default_config [OF cur] wp_named_config by blast
qed

end

section \<open>Re-init, step by step\<close>

text \<open>The nodes a re-init daemon set for \<open>node\<close> runs on: the whole group for no node, one host for a node.\<close>

definition selector_for :: "FileIntegrity \<Rightarrow> world \<Rightarrow> string \<Rightarrow> gomap \<Rightarrow> bool" where
  "selector_for inst w node sel \<longleftrightarrow>
     (if node = '''' then sel = NodeSelector (fiSpec inst)
      else (\<exists>n h. lookup (Nodes w) ('''', node) = Some n \<and> mget (Labels n) ''kubernetes.io/hostname'' = Some h
              \<and> h \<noteq> '''' \<and> sel = Some [''kubernetes.io/hostname'' \<mapsto> h]))"

abbreviation reinit_key :: "Env \<Rightarrow> FileIntegrity \<Rightarrow> string \<Rightarrow> NamespacedName" where
  "reinit_key env inst node \<equiv> (FileIntegrityNamespace env, ReinitDaemonSetNodeName (Name inst) node)"

definition reinit_created :: "Env \<Rightarrow> FileIntegrity \<Rightarrow> string \<Rightarrow> world \<Rightarrow> error + bool \<Rightarrow> world \<Rightarrow> bool" where
  "reinit_created env inst node w r w' \<longleftrightarrow> frame {} {reinit_key env inst node} {} {} w w' \<and>
     (case r of Inl e \<Rightarrow> \<not> is_panic e \<and> w' = w
      | Inr created \<Rightarrow>
          if created
          then lookup (DaemonSets w) (reinit_key env inst node) = None \<and>
            metrics w' = IncFileIntegrityReinitDaemonsetUpdate (metrics w) \<and>
            (\<exists>ds sel. lookup (DaemonSets w') (reinit_key env inst node) = Some ds \<and>
               mget (Labels ds) IntegrityReinitOwnerLabelKey = Some (Name inst) \<and> has_container ds \<and>
               selector_for inst w node sel \<and> (\<forall>k. mget (psNodeSelector (pod_of ds)) k = mget sel k))
          else w' = w \<and> (lookup (DaemonSets w) (reinit_key env inst node) \<noteq> None
                         \<or> node \<noteq> '''' \<and> lookup (Nodes w) ('''', node) = None))"

lemma narrowNodeSelector_selector:
  assumes "narrowNodeSelector inst n = Inr sel" and "if node = '''' then n = None else \<exists>x. n = Some x \<and> lookup (Nodes w) ('''', node) = Some x"
  shows "selector_for inst w node sel"
  using assms by (auto simp: narrowNodeSelector_def selector_for_def split: option.splits if_splits)

lemma narrowNodeSelector_error: "narrowNodeSelector inst n = Inl e \<Longrightarrow> \<not> is_panic e"
  by (auto simp: narrowNodeSelector_def split: option.splits if_splits)

context kube_api
begin

lemma wp_tryGettingNode:
  "wp (tryGettingNode cl node) (\<lambda>r w'. w' = w \<and> (case r of
      Inl e \<Rightarrow> node \<noteq> '''' \<and> \<not> is_panic e \<and> (IsNotFound e \<longrightarrow> lookup (Nodes w) ('''', node) = None)
    | Inr n \<Rightarrow> if node = '''' then n = None else \<exists>x. n = Some x \<and> lookup (Nodes w) ('''', node) = Some x)) w"
proof (cases "node = ''''")
  case False
  then show ?thesis unfolding tryGettingNode_def
    by (simp add: wp_simps, intro node.wp_Get) (simp_all add: wp_ok)
qed (simp add: tryGettingNode_def wp_simps)

lemma wp_create_reinit:
  assumes "lookup (DaemonSets w) (reinit_key env inst node) = None" and "selector_for inst w node sel"
    and "SetControllerReference_ds cl inst (reinitAideDaemonset env (ReinitDaemonSetNodeName (Name inst) node) inst sel img) = Inr ds"
  shows "wp (thenE (Create (dss cl) ds) (do { met IncFileIntegrityReinitDaemonsetUpdate; ok True })) (reinit_created env inst node w) w"
proof -
  from owner_ds [OF assms(3)] obtain refs where
    ds: "ds = reinitAideDaemonset env (ReinitDaemonSetNodeName (Name inst) node) inst sel img \<lparr>OwnerReferences := refs\<rparr>" ..
  then have key: "nsname ds = reinit_key env inst node" by simp
  show ?thesis
  proof (simp add: wp_thenE, rule ds.wp_Create, goal_cases)
    case (1 e)
    then show ?case by (simp add: reinit_created_def)
  next
    case (2 ds' os)
    have "mget (Labels ds') IntegrityReinitOwnerLabelKey = Some (Name inst)" "has_container ds'"
      "mget (psNodeSelector (pod_of ds')) k = mget sel k" for k
      using served_dsD [OF 2(1)] by (simp_all add: ds reinitAideDaemonset_def Let_def)
    with 2 assms key show ?case
      by (auto simp: wp_simps reinit_created_def simp del: split_paired_Ex intro!: frame_store(2) exI [of _ sel])
  qed
qed

lemma wp_createReinitDaemonSet:
  "wp (createReinitDaemonSet cl env inst node img) (reinit_created env inst node w) w"
  unfolding createReinitDaemonSet_def Let_def
proof (simp add: wp_bind, rule ds.wp_Get, goal_cases)
  case (1 e)
  show ?case
  proof (cases "IsNotFound e")
    case True
    with 1 have none: "lookup (DaemonSets w) (reinit_key env inst node) = None" by simp
    show ?thesis
    proof (simp add: True wp_bind, rule wp_conseq [OF wp_tryGettingNode], elim conjE, hypsubst, goal_cases)
      case (1 r)
      show ?case
      proof (cases r)
        case (Inl e')
        with 1 show ?thesis by (auto simp: wp_simps reinit_created_def)
      next
        case (Inr n)
        show ?thesis
        proof (cases "narrowNodeSelector inst n")
          case (Inl e')
          with Inr narrowNodeSelector_error [OF Inl] show ?thesis by (simp add: wp_simps reinit_created_def)
        next
          case sel: (Inr sel)
          have "selector_for inst w node sel"
            by (rule narrowNodeSelector_selector [OF sel]) (use 1 Inr in simp)
          with wp_create_reinit [OF none this] Inr sel owner_errors(1) show ?thesis
            by (auto simp: wp_throw reinit_created_def split: sum.splits)
        qed
      qed
    qed
  qed (use 1 in \<open>simp add: wp_simps reinit_created_def\<close>)
qed (simp add: wp_simps reinit_created_def)

end

text \<open>The nodes whose last scan failed, for this FileIntegrity.\<close>

definition failed_nodes :: "FileIntegrity \<Rightarrow> world \<Rightarrow> string set" where
  "failed_nodes fi w = {NodeName ns | ns. lookup (NodeStatuses w) (nsname ns) = Some ns \<and>
     mget (Labels ns) IntegrityOwnerLabelKey = Some (Name fi) \<and> Condition (LastResult ns) = NodeConditionFailed}"

text \<open>
  The re-init list after nodes were added: all of them when there was no list; the list as it was when it asked for
  every node; and otherwise the old list with, at most, the last of the nodes whose names are not substrings of it.
\<close>

definition reinit_added :: "string option \<Rightarrow> string list \<Rightarrow> string option" where
  "reinit_added old ns = (case old of
       None \<Rightarrow> if ns = [] then None else Some (Join ns '','')
     | Some s \<Rightarrow> (let new = filter (\<lambda>n. \<not> Contains s n) ns in
         if s = '''' \<or> new = [] then Some s else Some (s @ '','' @ last new)))"

lemma addReinitLoop_none: "filter (\<lambda>n. \<not> Contains s n) ns = [] \<Longrightarrow> addReinitLoop s ns st = st"
  by (induction s ns st rule: addReinitLoop.induct) (auto split: if_splits)

lemma GetAdded_reinit:
  assumes "GetAddedNodeReinitAnnotation inst ns = (ann, need)"
  shows "mget (if need then ann else Annotations inst) AideDatabaseReinitAnnotationKey
      = reinit_added (mget (Annotations inst) AideDatabaseReinitAnnotationKey) ns"
    and "k \<noteq> AideDatabaseReinitAnnotationKey \<Longrightarrow> mget (if need then ann else Annotations inst) k = mget (Annotations inst) k"
proof -
  have "mget (if need then ann else Annotations inst) AideDatabaseReinitAnnotationKey = reinit_added (mget (Annotations inst) AideDatabaseReinitAnnotationKey) ns \<and>
    (k \<noteq> AideDatabaseReinitAnnotationKey \<longrightarrow> mget (if need then ann else Annotations inst) k = mget (Annotations inst) k)"
  proof (cases "mget (Annotations inst) AideDatabaseReinitAnnotationKey")
    case None
    with assms show ?thesis
      by (auto simp: GetAddedNodeReinitAnnotation_def reinit_added_def Let_def mset_key_def mget_made split: if_splits)
  next
    case (Some s)
    with assms show ?thesis
      by (cases "filter (\<lambda>n. \<not> Contains s n) ns = []")
        (auto simp: GetAddedNodeReinitAnnotation_def reinit_added_def Let_def addReinitLoop_none addReinitLoop_last mget_made split: if_splits)
  qed
  then show "mget (if need then ann else Annotations inst) AideDatabaseReinitAnnotationKey
      = reinit_added (mget (Annotations inst) AideDatabaseReinitAnnotationKey) ns"
    and "k \<noteq> AideDatabaseReinitAnnotationKey \<Longrightarrow> mget (if need then ann else Annotations inst) k = mget (Annotations inst) k" by blast+
qed

definition on_failed_done :: "FileIntegrity \<Rightarrow> world \<Rightarrow> error + Result \<Rightarrow> world \<Rightarrow> bool" where
  "on_failed_done inst w r w' \<longleftrightarrow> frame {} {} {nsname inst} {} w w' \<and>
     (case r of Inl e \<Rightarrow> \<not> is_panic e \<and> w' = w
      | Inr res \<Rightarrow> res = Done \<and> (\<exists>fi' ns. lookup (FileIntegrities w') (nsname inst) = Some fi' \<and>
          fiSpec fi' = fiSpec inst \<and>
          mget (Annotations fi') AideDatabaseReinitOnFailedAnnotationKey = None \<and>
          set ns = failed_nodes inst w \<and>
          mget (Annotations fi') AideDatabaseReinitAnnotationKey
            = reinit_added (mget (Annotations inst) AideDatabaseReinitAnnotationKey) ns \<and>
          (\<forall>k. k \<notin> {AideDatabaseReinitAnnotationKey, AideDatabaseReinitOnFailedAnnotationKey} \<longrightarrow>
             mget (Annotations fi') k = mget (Annotations inst) k)))"

lemma nsname_fi_simps [simp]: "nsname (fi\<lparr>fiSpec := s\<rparr>) = nsname fi" "nsname (fi\<lparr>Phase := p\<rparr>) = nsname fi"
  by (simp_all add: nsname_def)

context kube_api
begin

lemma wp_GetFailedNodes: "wp (GetFailedNodes cl fi) (\<lambda>r w'. w' = w \<and>
    (case r of Inl e \<Rightarrow> \<not> is_panic e | Inr ns \<Rightarrow> set ns = failed_nodes fi w)) w"
  unfolding GetFailedNodes_def
proof (simp add: wp_simps, rule ns.wp_List, goal_cases)
  case (2 items)
  then show ?case
    by (force simp: wp_simps failed_nodes_def listed_def selector_matches_single simp del: split_paired_All split_paired_Ex)
qed (auto simp: wp_simps failed_nodes_def)

lemma wp_reinitOnFailed:
  "wp (reinitOnFailed cl inst) (on_failed_done inst w) w"
  unfolding reinitOnFailed_def
proof (rule wp_bindE_rule [OF wp_GetFailedNodes], goal_cases)
  case (1 e w1)
  then show ?case by (simp add: on_failed_done_def)
next
  case (2 ns w1)
  then have ns: "set ns = failed_nodes inst w" and w1: "w1 = w" by simp_all
  obtain ann need where g: "GetAddedNodeReinitAnnotation inst ns = (ann, need)" by fastforce
  have need: "(need \<and> ns = []) = False" using g by (auto simp: GetAddedNodeReinitAnnotation_def)
  note list = GetAdded_reinit [OF g]
  show ?case unfolding g w1 Let_def prod.case need if_False wp_thenE
  proof (rule fi.wp_Update, goal_cases)
    case (1 e)
    then show ?case by (simp add: on_failed_done_def)
  next
    case (2 fi' os)
    then show ?case using served_fiD [OF 2(1)] ns list
      by (auto simp: wp_ok on_failed_done_def intro!: frame_store(3) exI [of _ ns])
  qed
qed

end

text \<open>
  The outcome of the re-init step. A node is picked; if something was asked for and nothing failed,
  its re-init daemon set is there (or the node is gone), the AIDE config map is marked for the node
  and has the data it had, and the request is off the FileIntegrity as \<open>GetRemovedNodeReinitAnnotation\<close>
  says (unless the last write failed, which ends the reconcile).
\<close>

abbreviation conf_key :: "Env \<Rightarrow> FileIntegrity \<Rightarrow> NamespacedName" where
  "conf_key env inst \<equiv> (FileIntegrityNamespace env, Name inst)"

definition node_marked :: "ConfigMap \<Rightarrow> string \<Rightarrow> bool" where
  "node_marked cm node \<longleftrightarrow> (\<exists>v. mget (Annotations cm) AideConfigUpdatedAnnotationKey = Some v \<and>
     (if node = '''' then v = '''' else node \<in> set (Split comma v)))"

text \<open>What marking does to the config map: the node goes to the end of the list unless it is in it, the labels stay.\<close>

definition marks :: "ConfigMap \<Rightarrow> ConfigMap \<Rightarrow> string \<Rightarrow> bool" where
  "marks cm cm' node \<longleftrightarrow> (\<forall>k. mget (Labels cm') k = mget (Labels cm) k) \<and>
     (let old = mget (Annotations cm) AideConfigUpdatedAnnotationKey
      in mget (Annotations cm') AideConfigUpdatedAnnotationKey = (if already_marked old node then old else Some (marked old node)))"

definition request_removed :: "FileIntegrity \<Rightarrow> string \<Rightarrow> world \<Rightarrow> bool" where
  "request_removed inst node w' \<longleftrightarrow> snd (GetRemovedNodeReinitAnnotation inst node) \<longrightarrow>
     (\<exists>fi'. lookup (FileIntegrities w') (nsname inst) = Some fi' \<and> fiSpec fi' = fiSpec inst \<and>
        (\<forall>k. mget (Annotations fi') k = mget (fst (GetRemovedNodeReinitAnnotation inst node)) k))"

definition reinit_done :: "Env \<Rightarrow> FileIntegrity \<Rightarrow> bool \<Rightarrow> world \<Rightarrow> error + bool \<Rightarrow> world \<Rightarrow> bool" where
  "reinit_done env inst hasNewConfig w r w' \<longleftrightarrow> (\<exists>node force. pickNode inst hasNewConfig = Inr (node, force) \<and>
     frame {conf_key env inst} {reinit_key env inst node} {nsname inst} {} w w' \<and>
     (\<forall>ds. lookup (DaemonSets w') (reinit_key env inst node) = Some ds \<longrightarrow>
        lookup (DaemonSets w) (reinit_key env inst node) = Some ds \<or> has_container ds) \<and>
     (case r of Inl e \<Rightarrow> \<not> is_panic e
      | Inr stop \<Rightarrow>
          if hasNewConfig \<or> force
          then (lookup (DaemonSets w') (reinit_key env inst node) \<noteq> None \<or> node \<noteq> '''' \<and> lookup (Nodes w) ('''', node) = None) \<and>
            (\<exists>cm cm'. lookup (ConfigMaps w) (conf_key env inst) = Some cm \<and> lookup (ConfigMaps w') (conf_key env inst) = Some cm' \<and>
               mget (Data cm') DefaultConfDataKey = mget (Data cm) DefaultConfDataKey \<and> node_marked cm' node \<and> marks cm cm' node) \<and>
            (node \<noteq> '''' \<and> lookup (Nodes w) ('''', node) = None \<longrightarrow>
               lookup (DaemonSets w') (reinit_key env inst node) = lookup (DaemonSets w) (reinit_key env inst node)) \<and>
            (\<not> stop \<longrightarrow> request_removed inst node w')
          else w' = w \<and> \<not> stop))"

lemma pickNode_total: "\<exists>node force. pickNode inst new = Inr (node, force) \<and> comma \<notin> set node"
proof -
  have part: "comma \<notin> set a" if "Split comma s = a # x" for s a and x :: "string list"
    by (rule Split_parts_no_sep [of a comma s]) (simp add: that)
  show ?thesis
    by (auto simp: pickNode_def HasReinitAnnotation_def dest: part split: option.splits list.splits)
qed

lemma node_marked_marked:
  assumes "comma \<notin> set node" "mget (Annotations cm) AideConfigUpdatedAnnotationKey = Some (marked old node)"
  shows "node_marked cm node"
proof (cases old)
  case (Some l)
  have "Split comma (Join (Split comma l @ [node]) [comma]) = Split comma l @ [node]"
    using assms(1) by (intro Split_Join) (auto dest: Split_parts_no_sep)
  with assms Some show ?thesis by (auto simp: node_marked_def marked_def)
qed (use assms in \<open>auto simp: node_marked_def marked_def Split_no_sep\<close>)

lemma node_marked_already:
  "already_marked (mget (Annotations cm) AideConfigUpdatedAnnotationKey) node \<Longrightarrow> node_marked cm node"
  by (auto simp: already_marked_def node_marked_def)

context kube_api
begin

lemma wp_mark_config:
  assumes "lookup (ConfigMaps w) (nsname conf) = Some cur" and "mget (Data cur) DefaultConfDataKey \<noteq> None" and "comma \<notin> set node"
  shows "wp (retrieveAndAnnotateAideConfig cl conf node) (\<lambda>r w'. frame {nsname conf} {} {} {} w w' \<and>
     (case r of Some e \<Rightarrow> \<not> is_panic e
      | None \<Rightarrow> (\<exists>cm'. lookup (ConfigMaps w') (nsname conf) = Some cm' \<and>
          mget (Data cm') DefaultConfDataKey = mget (Data cur) DefaultConfDataKey \<and> node_marked cm' node \<and> marks cur cm' node))) w"
proof -
  have key: "nsname cur = nsname conf" using assms(1) by (rule lookup_nsname)
  have data: "Data cur \<noteq> None" using assms(2) by (cases "Data cur") simp_all
  show ?thesis
  proof (rule wp_conseq [OF wp_retrieveAndAnnotateAideConfig [OF assms(1) data]], goal_cases)
    case (1 r w')
    then show ?case
      using assms key
      by (auto simp: config_updated_def mval_def marks_def intro: node_marked_marked node_marked_already split: option.splits if_splits)
  qed
qed

lemma wp_removeRequest:
  "wp (let (ann, needChange) = GetRemovedNodeReinitAnnotation inst node in
       if needChange then do { err \<leftarrow> Update (fis cl) (inst\<lparr>Annotations := ann\<rparr>); ok (err \<noteq> None) } else ok False)
     (\<lambda>r w'. frame {} {} {nsname inst} {} w w' \<and> (case r of Inl e \<Rightarrow> False | Inr stop \<Rightarrow> \<not> stop \<longrightarrow> request_removed inst node w')) w"
proof (cases "GetRemovedNodeReinitAnnotation inst node")
  case (Pair ann need)
  show ?thesis
  proof (cases need)
    case True
    show ?thesis unfolding Pair Let_def prod.case wp_bind
      by (simp only: True if_True wp_bind, rule fi.wp_Update)
        (auto simp: wp_simps request_removed_def Pair served_fiD intro!: frame_store(3))
  qed (simp add: Pair wp_simps request_removed_def)
qed

end

context kube_api
begin

text \<open>Marking the config map and taking the request back, once the daemon set has been seen to.\<close>

lemma wp_mark_and_remove:
  assumes cur: "lookup (ConfigMaps w) (conf_key env inst) = Some cur" and data: "mget (Data cur) DefaultConfDataKey \<noteq> None"
    and key: "nsname conf = conf_key env inst" and pick: "pickNode inst new = Inr (node, force)" "new \<or> force" and nc: "comma \<notin> set node"
    and created: "reinit_created env inst node w (Inr created) w1"
    and w2: "ConfigMaps w2 = ConfigMaps w1" "DaemonSets w2 = DaemonSets w1" "frame {conf_key env inst} {reinit_key env inst node} {nsname inst} {} w w2"
  shows "wp (thenE (retrieveAndAnnotateAideConfig cl conf node)
      (let (ann, needChange) = GetRemovedNodeReinitAnnotation inst node in
       if needChange then do { err \<leftarrow> Update (fis cl) (inst\<lparr>Annotations := ann\<rparr>); ok (err \<noteq> None) } else ok False))
     (reinit_done env inst new w) w2"
proof -
  let ?frame = "frame {conf_key env inst} {reinit_key env inst node} {nsname inst} {} w"
  have ds: "lookup (DaemonSets w1) (reinit_key env inst node) \<noteq> None \<or> node \<noteq> '''' \<and> lookup (Nodes w) ('''', node) = None"
    "node \<noteq> '''' \<and> lookup (Nodes w) ('''', node) = None \<longrightarrow> DaemonSets w1 = DaemonSets w"
    "\<forall>ds. lookup (DaemonSets w1) (reinit_key env inst node) = Some ds \<longrightarrow>
      lookup (DaemonSets w) (reinit_key env inst node) = Some ds \<or> has_container ds"
    using created by (auto simp: reinit_created_def selector_for_def split: if_splits)
  have "ConfigMaps w1 = ConfigMaps w \<or> lookup (ConfigMaps w1) (conf_key env inst) = lookup (ConfigMaps w) (conf_key env inst)"
    using created frame_keeps(1) by (auto simp: reinit_created_def)
  with cur key w2(1) have cur2: "lookup (ConfigMaps w2) (nsname conf) = Some cur" by auto
  show ?thesis
  proof (rule wp_thenE_rule [OF wp_mark_config [OF cur2 data nc]], goal_cases)
    case (1 e w3)
    then have "?frame w3" using key by (auto intro!: frame_trans [OF w2(3)] intro: frame_mono)
    moreover have "lookup (DaemonSets w3) (reinit_key env inst node) = lookup (DaemonSets w1) (reinit_key env inst node)"
      using 1 frame_keeps(2) w2(2) by (metis empty_iff)
    ultimately show ?case using 1 pick ds(3) by (auto simp: reinit_done_def)
  next
    case (2 w3)
    then have f3: "?frame w3" using key by (auto intro!: frame_trans [OF w2(3)] intro: frame_mono)
    have ds3: "lookup (DaemonSets w3) = lookup (DaemonSets w2)"
      using 2 by (auto simp: fun_eq_iff simp del: split_paired_All dest: frame_keeps(2))
    show ?case
    proof (rule wp_conseq [OF wp_removeRequest], goal_cases)
      case (1 r w4)
      then have f4: "?frame w4" by (auto intro!: frame_trans [OF f3] intro: frame_mono)
      have "lookup (DaemonSets w4) = lookup (DaemonSets w3)" "lookup (ConfigMaps w4) = lookup (ConfigMaps w3)"
        using 1 by (auto simp: fun_eq_iff simp del: split_paired_All dest: frame_keeps(1,2))
      with 1 2 pick f4 ds w2(2) ds3 cur key show ?case by (cases r) (auto simp: reinit_done_def)
    qed
  qed
qed

lemma wp_reconcileReinit:
  assumes cur: "lookup (ConfigMaps w) (conf_key env inst) = Some cur" and data: "mget (Data cur) DefaultConfDataKey \<noteq> None"
    and key: "nsname conf = conf_key env inst"
  shows "wp (reconcileReinit cl env inst img conf new) (reinit_done env inst new w) w"
proof -
  obtain node force where pick: "pickNode inst new = Inr (node, force)" and nc: "comma \<notin> set node"
    using pickNode_total by blast
  show ?thesis
  proof (cases "new \<or> force")
    case True
    show ?thesis unfolding reconcileReinit_def pick sum.case prod.case if_P [OF True]
    proof (rule wp_bindE_rule [OF wp_createReinitDaemonSet], goal_cases)
      case (1 e w1)
      then show ?case using pick by (auto simp: reinit_created_def reinit_done_def)
    next
      case (2 created w1)
      then have "frame {conf_key env inst} {reinit_key env inst node} {nsname inst} {} w w1"
        by (auto simp: reinit_created_def intro: frame_mono)
      with wp_mark_and_remove [OF cur data key pick True nc 2] show ?case by (auto simp: wp_bind wp_met wp_return wp_if)
    qed
  next
    case False
    then show ?thesis unfolding reconcileReinit_def pick sum.case prod.case if_not_P [OF False]
      using pick by (auto simp: wp_ok reinit_done_def)
  qed
qed

end

section \<open>The daemon set, step by step\<close>

abbreviation ds_key :: "Env \<Rightarrow> FileIntegrity \<Rightarrow> NamespacedName" where
  "ds_key env inst \<equiv> (FileIntegrityNamespace env, DaemonSetName (Name inst))"

definition legacy_keys :: "FileIntegrity \<Rightarrow> world \<Rightarrow> NamespacedName set" where
  "legacy_keys inst w = {k. \<exists>ds. lookup (DaemonSets w) k = Some ds \<and> HasPrefix (Name ds) ''aide-ds-''
     \<and> mget (Labels ds) IntegrityOwnerLabelKey = Some (Name inst)}"

text \<open>The stored daemon set has the managed fields of the one the controller would render.\<close>

definition rendered :: "Env \<Rightarrow> FileIntegrity \<Rightarrow> string \<Rightarrow> world \<Rightarrow> bool" where
  "rendered env inst img w \<longleftrightarrow> (\<exists>ds ds0. lookup (DaemonSets w) (ds_key env inst) = Some ds \<and> served_ds ds0 ds \<and>
     managed ds0 = managed (aideDaemonset env (DaemonSetName (Name inst)) inst img))"

definition too_early :: "int \<Rightarrow> FileIntegrity \<Rightarrow> bool" where
  "too_early now inst \<longleftrightarrow> now < CreationTimestamp inst * 1000000000 + delayTime inst"

definition daemonset_done :: "Env \<Rightarrow> int \<Rightarrow> FileIntegrity \<Rightarrow> string \<Rightarrow> bool \<Rightarrow> world \<Rightarrow> error + Result \<Rightarrow> world \<Rightarrow> bool" where
  "daemonset_done env now inst img scriptsUpdated w r w' \<longleftrightarrow>
     frame {} (insert (ds_key env inst) (legacy_keys inst w)) {} {} w w' \<and>
     (case r of Inl e \<Rightarrow> \<not> is_panic e
      | Inr res \<Rightarrow>
          if lookup (DaemonSets w) (ds_key env inst) = None \<and> too_early now inst
          then res = \<lparr>Requeue = True, RequeueAfter = delayTime inst\<rparr> \<and> lookup (DaemonSets w') (ds_key env inst) = None
          else res = Done \<and> rendered env inst img w' \<and>
            (scriptsUpdated \<and> lookup (DaemonSets w) (ds_key env inst) \<noteq> None \<longrightarrow>
               (\<forall>k p. lookup (Pods w') k = Some p \<longrightarrow> \<not> pod_of_ds env (DaemonSetName (Name inst)) p)))"

lemma pods_deleted_frame: "pods_deleted env n w w' \<Longrightarrow> frame C D F N w w'"
proof -
  assume a: "pods_deleted env n w w'"
  then have eq: "w' = w\<lparr>Pods := Pods w'\<rparr>" by (simp add: pods_deleted_def)
  have "lookup (Pods w') \<subseteq>\<^sub>m lookup (Pods w)"
    unfolding map_le_def
  proof
    fix k assume "k \<in> dom (lookup (Pods w'))"
    then show "lookup (Pods w') k = lookup (Pods w) k"
      using a unfolding pods_deleted_def by (metis domIff)
  qed
  then show ?thesis by (subst eq) (simp add: frame_def)
qed

lemma rendered_metrics [simp]: "rendered env inst img (w\<lparr>metrics := m\<rparr>) = rendered env inst img w"
  by (simp add: rendered_def)

context kube_api
begin

lemma wp_deleteLegacyDaemonSets:
  "wp (deleteLegacyDaemonSets cl inst) (\<lambda>r w'. frame {} (legacy_keys inst w) {} {} w w' \<and>
     (\<forall>k. lookup (DaemonSets w') k = lookup (DaemonSets w) k \<or> lookup (DaemonSets w') k = None) \<and>
     (case r of Some e \<Rightarrow> \<not> is_panic e
      | None \<Rightarrow> \<forall>k\<in>legacy_keys inst w. lookup (DaemonSets w') k = None)) w"
  unfolding deleteLegacyDaemonSets_def
proof (simp add: wp_bind, rule ds.wp_List, goal_cases)
  case (1 e)
  then show ?case by (simp add: wp_return)
next
  case (2 items)
  let ?old = "filter (\<lambda>ds. HasPrefix (Name ds) ''aide-ds-'') items"
  have keys: "nsname ` set ?old = legacy_keys inst w"
  proof (rule set_eqI)
    fix k
    have mem: "ds \<in> set ?old \<longleftrightarrow> lookup (DaemonSets w) (nsname ds) = Some ds \<and> HasPrefix (Name ds) ''aide-ds-''
        \<and> mget (Labels ds) IntegrityOwnerLabelKey = Some (Name inst)" for ds
      using 2(2) by (auto simp: listed_def selector_matches_single)
    show "k \<in> nsname ` set ?old \<longleftrightarrow> k \<in> legacy_keys inst w"
      unfolding legacy_keys_def image_iff mem Bex_def mem_Collect_eq by (metis lookup_nsname)
  qed
  show ?case unfolding sum.case
  proof (rule wp_conseq [OF ds.wp_deleteLoop], elim exE conjE, goal_cases)
    case (1 r w' os)
    have "eq_off (legacy_keys inst w) (lookup (DaemonSets w)) (lookup os)"
      unfolding eq_off_def keys [symmetric]
    proof (intro allI impI)
      fix k assume k: "k \<notin> nsname ` set ?old"
      show "lookup os k = lookup (DaemonSets w) k"
        by (rule disjE [OF 1(2) [rule_format, of k]]) (use k in \<open>simp_all only: simp_thms\<close>)
    qed
    moreover have "\<forall>k. lookup os k = lookup (DaemonSets w) k \<or> lookup os k = None"
    proof
      fix k show "lookup os k = lookup (DaemonSets w) k \<or> lookup os k = None"
        by (rule disjE [OF 1(2) [rule_format, of k]]) (simp_all only: simp_thms)
    qed
    moreover have "\<forall>k\<in>legacy_keys inst w. lookup os k = None" if "r = None"
      using 1(3) that unfolding keys [symmetric] by simp
    ultimately show ?case using 1(1,3) by (cases r) (simp_all add: frame_def)
  qed
qed

lemma wp_restart_daemon:
  assumes "frame {} (insert (ds_key env inst) (legacy_keys inst w)) {} {} w w1" and "rendered env inst img w1"
    and "lookup (DaemonSets w) (ds_key env inst) \<noteq> None"
  shows "wp (thenE (RestartFileIntegrityDs cl env (DaemonSetName (Name inst))) (do { met IncFileIntegrityDaemonsetPodKill; ok Done }))
     (daemonset_done env now inst img u w) w1"
proof (rule wp_thenE_rule [OF wp_RestartFileIntegrityDs], goal_cases)
  case (1 e w2)
  then have "frame {} (insert (ds_key env inst) (legacy_keys inst w)) {} {} w w2"
    by (auto simp: restarted_def intro: frame_trans [OF assms(1)] pods_deleted_frame)
  with 1 show ?case by (simp add: daemonset_done_def restarted_def)
next
  case (2 w2)
  then have "frame {} (insert (ds_key env inst) (legacy_keys inst w)) {} {} w w2"
    by (auto simp: restarted_def intro: frame_trans [OF assms(1)] pods_deleted_frame)
  moreover have "DaemonSets w2 = DaemonSets w1"
    using 2 by (simp add: restarted_def pods_deleted_def) (metis (no_types) world.select_convs(2) world.update_convs(6) world.surjective)
  ultimately show ?case using 2 assms by (auto simp: wp_simps daemonset_done_def restarted_def rendered_def)
qed

end

lemma managed_owner [simp]: "managed (ds\<lparr>OwnerReferences := refs\<rparr>) = managed ds"
  by (simp add: managed_def)

lemma updateDS_container:
  assumes "has_container ds"
  obtains ds' b where "updateDS env fi img ds = Inr (ds', b)" "nsname ds' = nsname ds"
    "managed ds' = managed (aideDaemonset env (Name ds) fi img)" "\<not> b \<longrightarrow> ds' = ds"
proof -
  from ds_all.upd_ok [OF assms, of env fi img] obtain ds' b where
    *: "updateDS env fi img ds = Inr (ds', b)" "managed ds' = managed (aideDaemonset env (Name ds) fi img)"
    "strip ds' = strip ds" "\<not> b \<longrightarrow> ds' = ds" by blast
  from strip_keeps(2) [OF *(3)] show thesis by (rule that [OF *(1) _ *(2) *(4)])
qed

context kube_api
begin

lemma wp_create_daemonset:
  assumes "frame {} (insert (ds_key env inst) (legacy_keys inst w)) {} {} w w1"
    and "lookup (DaemonSets w) (ds_key env inst) = None" and "lookup (DaemonSets w1) (ds_key env inst) = None"
    and "\<not> too_early now inst"
    and "SetControllerReference_ds cl inst (aideDaemonset env (DaemonSetName (Name inst)) inst img) = Inr ds"
  shows "wp (do { createErr \<leftarrow> Create (dss cl) ds;
       case createErr of Some e \<Rightarrow> if IsAlreadyExists e then ok Done else throw e
       | None \<Rightarrow> do { met IncFileIntegrityDaemonsetUpdate; ok Done } }) (daemonset_done env now inst img u w) w1"
proof -
  from owner_ds [OF assms(5)] obtain refs where
    ds: "ds = aideDaemonset env (DaemonSetName (Name inst)) inst img\<lparr>OwnerReferences := refs\<rparr>" ..
  then have key: "nsname ds = ds_key env inst" by simp
  have m: "managed ds = managed (aideDaemonset env (DaemonSetName (Name inst)) inst img)" by (simp add: ds)
  show ?thesis
  proof (simp add: wp_bind, rule ds.wp_Create, goal_cases)
    case (1 e)
    with key assms show ?case by (auto simp: wp_simps daemonset_done_def)
  next
    case (2 ds' os)
    have "frame {} (insert (ds_key env inst) (legacy_keys inst w)) {} {} w (w1\<lparr>DaemonSets := os\<rparr>)"
      by (rule frame_then_store(2) [OF assms(1) 2(3)]) (simp add: key)
    moreover have "rendered env inst img (w1\<lparr>DaemonSets := os\<rparr>)"
      unfolding rendered_def using 2 m key by auto
    ultimately show ?case using assms(2,4) by (simp add: wp_simps daemonset_done_def)
  qed
qed

lemma wp_update_daemonset:
  assumes "lookup (DaemonSets w) (ds_key env inst) = Some ds" and "has_container ds"
  shows "wp (case updateDS env inst img ds of Inl e \<Rightarrow> throw e
     | Inr (dsCopy, needsUpdate) \<Rightarrow>
         if needsUpdate \<or> u then
           thenE (Update (dss cl) dsCopy) (do {
             met IncFileIntegrityDaemonsetUpdate;
             thenE (RestartFileIntegrityDs cl env (DaemonSetName (Name inst))) (do { met IncFileIntegrityDaemonsetPodKill; ok Done }) })
         else ok Done) (daemonset_done env now inst img u w) w"
proof -
  have name: "nsname ds = ds_key env inst" "Name ds = DaemonSetName (Name inst)"
    using lookup_nsname [OF assms(1)] by (auto simp: nsname_def)
  obtain ds' b where upd: "updateDS env inst img ds = Inr (ds', b)" "nsname ds' = nsname ds"
    "managed ds' = managed (aideDaemonset env (Name ds) inst img)" "\<not> b \<longrightarrow> ds' = ds"
    by (rule updateDS_container [OF assms(2)])
  show ?thesis
  proof (cases "b \<or> u")
    case True
    show ?thesis unfolding upd(1) sum.case prod.case if_P [OF True] wp_thenE [of "Update (dss cl) ds'"]
    proof (rule ds.wp_Update, goal_cases)
      case (1 e)
      then show ?case by (simp add: daemonset_done_def)
    next
      case (2 ds1 os)
      have "frame {} (insert (ds_key env inst) (legacy_keys inst w)) {} {} w (w\<lparr>DaemonSets := os\<rparr>)"
        using 2(3) by (rule frame_store(2)) (simp add: upd name)
      moreover have "rendered env inst img (w\<lparr>DaemonSets := os\<rparr>)"
        unfolding rendered_def using 2 upd name by auto
      ultimately show ?case using assms(1)
        by (simp add: wp_bind wp_met, intro wp_restart_daemon) simp_all
    qed
  next
    case False
    then have "rendered env inst img w"
      unfolding rendered_def using upd name assms(1) served_refl(3) [of ds] by metis
    with False show ?thesis using upd assms(1) by (simp add: wp_ok daemonset_done_def)
  qed
qed

lemma wp_reconcileDaemonSet:
  assumes "\<forall>ds. lookup (DaemonSets w) (ds_key env inst) = Some ds \<longrightarrow> has_container ds"
  shows "wp (reconcileDaemonSet cl env now inst img u) (daemonset_done env now inst img u w) w"
  unfolding reconcileDaemonSet_def Let_def
proof (simp add: wp_bind, rule ds.wp_Get, goal_cases)
  case (1 e)
  show ?case
  proof (cases "IsNotFound e")
    case True
    with 1 have none: "lookup (DaemonSets w) (ds_key env inst) = None" by simp
    have nf: "\<not> \<not> IsNotFound e" using True by simp
    show ?thesis unfolding sum.case if_not_P [OF nf]
    proof (rule wp_thenE_rule [OF wp_deleteLegacyDaemonSets], goal_cases)
      case (1 e' w1)
      then show ?case by (auto simp: daemonset_done_def intro: frame_mono)
    next
      case (2 w1)
      then have f: "frame {} (insert (ds_key env inst) (legacy_keys inst w)) {} {} w w1" by (auto intro: frame_mono)
      from 2 none have none1: "lookup (DaemonSets w1) (ds_key env inst) = None" by metis
      show ?case
      proof (cases "too_early now inst")
        case True
        with f none none1 show ?thesis by (simp add: too_early_def wp_ok daemonset_done_def)
      next
        case False
        with f \<open>\<not> is_panic e\<close> show ?thesis using wp_create_daemonset [OF f none none1 False]
          by (auto simp: too_early_def wp_throw daemonset_done_def split: sum.splits)
      qed
    qed
  qed (use 1 in \<open>simp add: wp_simps daemonset_done_def\<close>)
next
  case (2 ds)
  then show ?case using assms wp_update_daemonset by simp
qed

end

section \<open>The whole reconcile\<close>

text \<open>
  The configuration a FileIntegrity requests, where it can be determined: the default, or the prepared
  contents of the user's config map.
\<close>

definition requested_conf :: "Env \<Rightarrow> FileIntegrity \<Rightarrow> world \<Rightarrow> string option" where
  "requested_conf env inst w =
     (let config = Config (fiSpec inst) in
      if cfgName config = '''' \<or> cfgNamespace config = '''' then Some (GetAideConfigDefault env)
      else (case lookup (ConfigMaps w) (cfgNamespace config, cfgName config) of None \<Rightarrow> None
        | Some u \<Rightarrow> (case mget (Data u) (if cfgKey config \<noteq> '''' then cfgKey config else DefaultConfDataKey) of
              None \<Rightarrow> None
            | Some conf \<Rightarrow> if conf = '''' then None
                else (case prepareAideConf conf of Inl _ \<Rightarrow> None | Inr preparedConf \<Rightarrow> Some preparedConf))))"

lemma wanted_requested: "requested_conf env inst w = Some c \<Longrightarrow> wanted_conf env inst w old = c"
  by (auto simp: requested_conf_def wanted_conf_def Let_def split: option.splits if_splits sum.splits)

definition operator_image :: "Env \<Rightarrow> world \<Rightarrow> string" where
  "operator_image env w = (case lookup (Deployments w) (FileIntegrityNamespace env, ''file-integrity-operator'') of
     None \<Rightarrow> '''' | Some d \<Rightarrow> (case depContainers d of [] \<Rightarrow> '''' | c # _ \<Rightarrow> cImage c))"

definition reinit_keys :: "Env \<Rightarrow> FileIntegrity \<Rightarrow> NamespacedName set" where
  "reinit_keys env inst = range (\<lambda>node. reinit_key env inst node)"

definition reconcile_frame :: "Env \<Rightarrow> FileIntegrity \<Rightarrow> world \<Rightarrow> world \<Rightarrow> bool" where
  "reconcile_frame env inst w w' \<longleftrightarrow> frame (operator_cms env inst)
     (insert (ds_key env inst) (reinit_keys env inst \<union> legacy_keys inst w)) {nsname inst} {} w w'"

text \<open>No re-init is asked for, and neither the FileIntegrity nor the user's config map takes the name of an operator config map.\<close>

definition plain :: "Env \<Rightarrow> FileIntegrity \<Rightarrow> bool" where
  "plain env inst \<longleftrightarrow> mget (Annotations inst) AideDatabaseReinitAnnotationKey = None \<and>
     mget (Annotations inst) AideDatabaseReinitOnFailedAnnotationKey = None \<and>
     Name inst \<notin> {AideReinitScriptConfigMapName, PauseConfigMapName} \<and>
     (cfgNamespace (Config (fiSpec inst)), cfgName (Config (fiSpec inst))) \<notin> operator_cms env inst"

text \<open>
  The state a successful reconcile leaves: both scripts in place, the requested configuration in the
  config map of the FileIntegrity, the daemon set as rendered from the FileIntegrity.
\<close>

definition converged :: "Env \<Rightarrow> FileIntegrity \<Rightarrow> world \<Rightarrow> world \<Rightarrow> bool" where
  "converged env inst w w' \<longleftrightarrow>
     (\<exists>s p. lookup (ConfigMaps w') (nsname (aideReinitScript env)) = Some s \<and> dataMatchesReinitScript env s \<and>
        lookup (ConfigMaps w') (nsname (aidePauseScript env)) = Some p \<and> dataMatchesPauseScript env p) \<and>
     (\<exists>cm. lookup (ConfigMaps w') (conf_key env inst) = Some cm \<and> mget (Data cm) DefaultConfDataKey \<noteq> None \<and>
        (\<forall>c. requested_conf env inst w = Some c \<longrightarrow> mget (Data cm) DefaultConfDataKey = Some c)) \<and>
     rendered env inst (operator_image env w) w'"

definition reconciled :: "Env \<Rightarrow> int \<Rightarrow> FileIntegrity \<Rightarrow> world \<Rightarrow> error + Result \<Rightarrow> world \<Rightarrow> bool" where
  "reconciled env now inst w r w' \<longleftrightarrow> reconcile_frame env inst w w' \<and>
     (case r of Inl e \<Rightarrow> \<not> is_panic e
      | Inr res \<Rightarrow> res = Done \<and> plain env inst \<longrightarrow> converged env inst w w')"

lemma no_reinit_request:
  assumes "mget (Annotations inst) AideDatabaseReinitAnnotationKey = None"
  shows "pickNode inst new = Inr ('''', False)" "snd (GetRemovedNodeReinitAnnotation inst '''') = False"
  using assms
  by (auto simp: pickNode_def HasReinitAnnotation_def GetRemovedNodeReinitAnnotation_def IsNodeInReinit_def IsNodeIn_def
      mget_def split: option.splits)

text \<open>Composing the frames of the steps.\<close>

lemma reconcile_frame_parts:
  assumes "frame C D F {} w w'" "C \<subseteq> operator_cms env inst"
    "D \<subseteq> insert (ds_key env inst) (reinit_keys env inst \<union> legacy_keys inst w)" "F \<subseteq> {nsname inst}"
  shows "reconcile_frame env inst w w'"
  unfolding reconcile_frame_def by (rule frame_mono [OF assms]) simp

lemma legacy_frame:
  assumes "reconcile_frame env inst w w'"
  shows "legacy_keys inst w' \<subseteq> insert (ds_key env inst) (reinit_keys env inst \<union> legacy_keys inst w)"
proof
  fix k assume k: "k \<in> legacy_keys inst w'"
  show "k \<in> insert (ds_key env inst) (reinit_keys env inst \<union> legacy_keys inst w)"
  proof (rule ccontr)
    assume out: "k \<notin> insert (ds_key env inst) (reinit_keys env inst \<union> legacy_keys inst w)"
    with assms have "lookup (DaemonSets w') k = lookup (DaemonSets w) k"
      unfolding reconcile_frame_def by (rule frame_keeps(2))
    with k out show False by (simp add: legacy_keys_def)
  qed
qed

lemma reconcile_frame_trans:
  assumes "reconcile_frame env inst w w1" and "reconcile_frame env inst w1 w2"
  shows "reconcile_frame env inst w w2"
  unfolding reconcile_frame_def
proof (rule frame_trans)
  show "frame (operator_cms env inst) (insert (ds_key env inst) (reinit_keys env inst \<union> legacy_keys inst w)) {nsname inst} {} w w1"
    using assms(1) by (simp add: reconcile_frame_def)
  show "frame (operator_cms env inst) (insert (ds_key env inst) (reinit_keys env inst \<union> legacy_keys inst w)) {nsname inst} {} w1 w2"
    using assms(2) unfolding reconcile_frame_def by (rule frame_mono) (use legacy_frame [OF assms(1)] in auto)
qed

lemma reconcile_frame_refl [simp]: "reconcile_frame env inst w w"
  by (simp add: reconcile_frame_def)

text \<open>What holds once the configuration is in place, before re-init and daemon set.\<close>

definition configured :: "Env \<Rightarrow> FileIntegrity \<Rightarrow> world \<Rightarrow> world \<Rightarrow> bool" where
  "configured env inst w w' \<longleftrightarrow> reconcile_frame env inst w w' \<and>
     (plain env inst \<longrightarrow> (\<exists>s p. lookup (ConfigMaps w') (nsname (aideReinitScript env)) = Some s \<and> dataMatchesReinitScript env s \<and>
        lookup (ConfigMaps w') (nsname (aidePauseScript env)) = Some p \<and> dataMatchesPauseScript env p)) \<and>
     (\<exists>cm. lookup (ConfigMaps w') (conf_key env inst) = Some cm \<and> mget (Data cm) DefaultConfDataKey \<noteq> None \<and>
        (plain env inst \<longrightarrow> (\<forall>c. requested_conf env inst w = Some c \<longrightarrow> mget (Data cm) DefaultConfDataKey = Some c)))"

lemma configured_reinit:
  assumes "configured env inst w w3" and "reinit_done env inst new w3 (Inr stop) w4"
  shows "configured env inst w w4"
proof -
  from assms(2) obtain node force where pick: "pickNode inst new = Inr (node, force)"
    and f: "frame {conf_key env inst} {reinit_key env inst node} {nsname inst} {} w3 w4"
    by (auto simp: reinit_done_def)
  have "reconcile_frame env inst w3 w4"
    by (rule reconcile_frame_parts [OF f]) (auto simp: reinit_keys_def)
  with assms(1) have 1: "reconcile_frame env inst w w4" by (auto simp: configured_def intro: reconcile_frame_trans)
  have other: "k \<noteq> conf_key env inst \<Longrightarrow> lookup (ConfigMaps w4) k = lookup (ConfigMaps w3) k" for k
    using frame_keeps(1) [OF f] by simp
  have cm: "\<exists>cm'. lookup (ConfigMaps w4) (conf_key env inst) = Some cm' \<and> mget (Data cm') DefaultConfDataKey = mget (Data cm) DefaultConfDataKey"
    if "lookup (ConfigMaps w3) (conf_key env inst) = Some cm" for cm
    using assms(2) that by (auto simp: reinit_done_def split: if_splits)
  from assms(1) 1 cm show ?thesis
    by (force simp: configured_def plain_def other)
qed

lemma reinit_containers:
  assumes "reinit_done env inst new w r w'"
    and "\<forall>ds. lookup (DaemonSets w) (ds_key env inst) = Some ds \<longrightarrow> has_container ds"
  shows "\<forall>ds. lookup (DaemonSets w') (ds_key env inst) = Some ds \<longrightarrow> has_container ds"
proof -
  from assms(1) obtain node where f: "frame {conf_key env inst} {reinit_key env inst node} {nsname inst} {} w w'"
    and new: "\<forall>ds. lookup (DaemonSets w') (reinit_key env inst node) = Some ds \<longrightarrow>
        lookup (DaemonSets w) (reinit_key env inst node) = Some ds \<or> has_container ds"
    by (auto simp: reinit_done_def)
  show ?thesis
  proof (cases "ds_key env inst = reinit_key env inst node")
    case True
    with new assms(2) show ?thesis by metis
  next
    case False
    then have "lookup (DaemonSets w') (ds_key env inst) = lookup (DaemonSets w) (ds_key env inst)"
      using frame_keeps(2) [OF f] by simp
    with assms(2) show ?thesis by simp
  qed
qed

context kube_api
begin

text \<open>Without a request there is nothing to remove, so the re-init step does not end the reconcile.\<close>

lemma wp_stop_plain:
  "wp (reconcileReinit cl env inst img conf new) (\<lambda>r w'. mget (Annotations inst) AideDatabaseReinitAnnotationKey = None \<longrightarrow> r \<noteq> Inr True) w"
proof (cases "mget (Annotations inst) AideDatabaseReinitAnnotationKey")
  case None
  from no_reinit_request [OF None] show ?thesis
    by (auto simp: reconcileReinit_def wp_def bindE_def thenE_def throw_def ok_def split: prod.splits sum.splits option.splits)
qed (simp add: wp_def)

lemma wp_reconcile_tail:
  assumes conf: "configured env inst w w3" and key: "nsname conf = conf_key env inst"
    and ds: "\<forall>ds. lookup (DaemonSets w) (ds_key env inst) = Some ds \<longrightarrow> has_container ds"
    and ds3: "lookup (DaemonSets w3) (ds_key env inst) = lookup (DaemonSets w) (ds_key env inst)"
    and img: "img = operator_image env w"
  shows "wp (bindE (reconcileReinit cl env inst img conf new) (\<lambda>stop.
       if stop then ok Done else reconcileDaemonSet cl env now inst img u)) (reconciled env now inst w) w3"
proof -
  from conf obtain cm where cm: "lookup (ConfigMaps w3) (conf_key env inst) = Some cm" "mget (Data cm) DefaultConfDataKey \<noteq> None"
    by (auto simp: configured_def)
  have f3: "reconcile_frame env inst w w3" using conf by (simp add: configured_def)
  show ?thesis
  proof (rule wp_bindE_rule [OF wp_conj [OF wp_reconcileReinit [OF cm key] wp_stop_plain]], goal_cases)
    case (1 e w4)
    then have "reconcile_frame env inst w3 w4"
      by (auto simp: reinit_done_def reinit_keys_def intro!: reconcile_frame_parts)
    with 1 f3 show ?case by (auto simp: reinit_done_def reconciled_def intro: reconcile_frame_trans)
  next
    case (2 stop w4)
    then have c4: "configured env inst w w4" using configured_reinit conf by blast
    then have f4: "reconcile_frame env inst w w4" by (simp add: configured_def)
    have "\<forall>ds. lookup (DaemonSets w3) (ds_key env inst) = Some ds \<longrightarrow> has_container ds" using ds ds3 by simp
    with 2 have ds4: "\<forall>ds. lookup (DaemonSets w4) (ds_key env inst) = Some ds \<longrightarrow> has_container ds"
      using reinit_containers by blast
    show ?case
    proof (cases stop)
      case True
      with 2 f4 show ?thesis by (auto simp: wp_ok reconciled_def plain_def)
    next
      case False
      show ?thesis unfolding if_not_P [OF False]
      proof (rule wp_conseq [OF wp_reconcileDaemonSet [OF ds4]], goal_cases)
        case (1 r w')
        have "reconcile_frame env inst w4 w'"
          by (rule reconcile_frame_parts [of "{}" "insert (ds_key env inst) (legacy_keys inst w4)" "{}"])
            (use 1 in \<open>auto simp: daemonset_done_def\<close>)
        with f4 have f': "reconcile_frame env inst w w'" by (rule reconcile_frame_trans)
        have cms: "lookup (ConfigMaps w') k = lookup (ConfigMaps w4) k" for k
          using 1 frame_keeps(1) by (fastforce simp: daemonset_done_def)
        show ?case
        proof (cases r)
          case (Inl e)
          with 1 f' show ?thesis by (simp add: daemonset_done_def reconciled_def)
        next
          case (Inr res)
          with 1 f' c4 cms img show ?thesis
            by (auto simp: reconciled_def converged_def configured_def daemonset_done_def Done_def split: if_splits)
        qed
      qed
    qed
  qed
qed

end

context kube_api
begin

lemma wp_reconcilePriorityClass:
  "wp (reconcilePriorityClass cl inst) (\<lambda>requeue w'.
     if requeue then frame {} {} {nsname inst} {} w w' else \<exists>es. w' = w\<lparr>events := es\<rparr>) w"
proof -
  have same: "\<exists>es. w = w\<lparr>events := es\<rparr>" by (rule exI [of _ "events w"]) simp
  have upd: "wp (Update (fis cl) (inst\<lparr>fiSpec := s\<rparr>)) (\<lambda>err w'. if err = None then frame {} {} {nsname inst} {} w w'
      else \<exists>es. w' = w\<lparr>events := es\<rparr>) (w\<lparr>events := es'\<rparr>)" for s es'
    by (rule fi.wp_Update) (auto intro!: frame_then_store(3) [of "{}" "{}" _ "{}" w "w\<lparr>events := es'\<rparr>"])
  have "wp (validatePriorityClass cl pc) (\<lambda>valid w'. w' = w) w" for pc
    unfolding validatePriorityClass_def by (cases "pc = ''''"; simp add: wp_simps; intro pc.wp_Get; simp add: wp_return)
  then have valid: "wp (validatePriorityClass cl pc) (\<lambda>valid w'. w' = w) w" for pc .
  show ?thesis
  proof (cases "PriorityClassName (fiSpec inst) = ''''")
    case False
    show ?thesis unfolding reconcilePriorityClass_def Let_def if_not_P [OF False]
    proof (rule wp_bind_rule [OF valid], goal_cases)
      case (1 ok w')
      then have w': "w' = w" .
      show ?case
      proof (cases ok)
        case False
        show ?thesis unfolding w' if_not_P [OF False] wp_bind wp_Eventf wp_return
          by (rule wp_conseq [OF upd]) simp
      qed (use same w' in \<open>simp add: wp_return\<close>)
    qed
  qed (use same in \<open>simp add: reconcilePriorityClass_def wp_return\<close>)
qed

lemma wp_getOperatorDeploymentImage:
  "wp (getOperatorDeploymentImage cl env) (\<lambda>r w'. w' = w \<and> (case r of Inl e \<Rightarrow> \<not> is_panic e | Inr img \<Rightarrow> img = operator_image env w)) w"
  unfolding getOperatorDeploymentImage_def
  by (simp add: wp_simps, rule dep.wp_Get) (simp_all add: wp_ok operator_image_def split: list.splits)

end

lemma configured_user_config:
  assumes "defaults_handled env inst w (Inr (Some current, u)) w2" and "user_config_done env inst current w2 (Inr new) w3"
  shows "configured env inst w w3" "nsname current = conf_key env inst"
    "lookup (DaemonSets w3) k = lookup (DaemonSets w) k"
proof -
  have cur: "lookup (ConfigMaps w2) (conf_key env inst) = Some current" "mget (Data current) DefaultConfDataKey \<noteq> None"
    and f2: "frame (operator_cms env inst) {} {} {} w w2"
    using assms(1) by (auto simp: defaults_handled_def)
  show key: "nsname current = conf_key env inst" using cur(1) by (rule lookup_nsname)
  have f3: "frame {conf_key env inst} {} {} {} w2 w3"
    using assms(2) key by (simp add: user_config_done_def)
  then have "frame (operator_cms env inst) {} {} {} w2 w3" by (rule frame_mono) simp_all
  with f2 have f: "frame (operator_cms env inst) {} {} {} w w3" by (rule frame_trans)
  then show "lookup (DaemonSets w3) k = lookup (DaemonSets w) k" by (rule frame_keeps(2)) simp
  have r: "reconcile_frame env inst w w3" by (rule reconcile_frame_parts [OF f]) auto
  have scripts: "\<exists>s p. lookup (ConfigMaps w3) (nsname (aideReinitScript env)) = Some s \<and> dataMatchesReinitScript env s \<and>
        lookup (ConfigMaps w3) (nsname (aidePauseScript env)) = Some p \<and> dataMatchesPauseScript env p" if "plain env inst"
    using assms(1) that frame_keeps(1) [OF f3] by (auto simp: defaults_handled_def plain_def)
  have req: "requested_conf env inst w2 = requested_conf env inst w" if "plain env inst"
    using that frame_keeps(1) [OF f2] by (auto simp: requested_conf_def plain_def Let_def)
  have old: "mget (Data current) DefaultConfDataKey = Some (mval (Data current) DefaultConfDataKey)"
    using cur(2) by (auto simp: mval_def)
  have "\<exists>cm. lookup (ConfigMaps w3) (conf_key env inst) = Some cm \<and>
      mget (Data cm) DefaultConfDataKey = Some (wanted_conf env inst w2 (mval (Data current) DefaultConfDataKey))"
    using assms(2) cur old by (auto simp: user_config_done_def key Let_def split: if_splits)
  with r scripts req show "configured env inst w w3"
    by (auto simp: configured_def wanted_requested)
qed

context kube_api
begin

lemma wp_reconcile_instance:
  assumes ds: "\<forall>ds. lookup (DaemonSets w) (ds_key env inst) = Some ds \<longrightarrow> has_container ds"
  shows "wp (bindE (handleDefaultConfigMaps cl env inst) (\<lambda>(defaultConf, scriptsUpdated).
           case defaultConf of None \<Rightarrow> ok Again
           | Some defaultAideConf \<Rightarrow>
               bindE (reconcileUserConfig cl env inst defaultAideConf) (\<lambda>hasNewConfig.
               if mget (Annotations inst) AideDatabaseReinitOnFailedAnnotationKey \<noteq> None
               then reinitOnFailed cl inst
               else
                 bindE (reconcileReinit cl env inst (operator_image env w) defaultAideConf hasNewConfig) (\<lambda>stop.
                 if stop then ok Done
                 else reconcileDaemonSet cl env now inst (operator_image env w) scriptsUpdated))))
     (reconciled env now inst w) w"
proof (rule wp_bindE_rule [OF wp_handleDefaultConfigMaps], goal_cases)
  case (1 e w2)
  then show ?case by (auto simp: defaults_handled_def reconciled_def intro!: reconcile_frame_parts)
next
  case (2 a w2)
  obtain conf u where a: "a = (conf, u)" by fastforce
  have f2: "reconcile_frame env inst w w2"
    by (rule reconcile_frame_parts [of "operator_cms env inst" "{}" "{}"]) (use 2 in \<open>auto simp: defaults_handled_def\<close>)
  show ?case
  proof (cases conf)
    case None
    with f2 show ?thesis by (simp add: a wp_ok reconciled_def Again_def Done_def)
  next
    case (Some cur)
    with 2 have cur: "lookup (ConfigMaps w2) (conf_key env inst) = Some cur" "mget (Data cur) DefaultConfDataKey \<noteq> None"
      by (auto simp: a defaults_handled_def)
    show ?thesis unfolding a Some prod.case option.case
    proof (rule wp_bindE_rule [OF wp_reconcileUserConfig [OF cur]], goal_cases)
      case (1 e w3)
      with f2 show ?case by (simp add: user_config_done_def reconciled_def)
    next
      case (2 new w3)
      note c = configured_user_config [OF \<open>defaults_handled env inst w (Inr a) w2\<close> [unfolded a Some] 2]
      have f3: "reconcile_frame env inst w w3" using c(1) by (simp add: configured_def)
      show ?case
      proof (cases "mget (Annotations inst) AideDatabaseReinitOnFailedAnnotationKey = None")
        case True
        with wp_reconcile_tail [OF c(1,2) ds c(3) refl] show ?thesis by simp
      next
        case False
        show ?thesis unfolding if_P [OF False]
        proof (rule wp_conseq [OF wp_reinitOnFailed], goal_cases)
          case (1 r w4)
          then have "reconcile_frame env inst w3 w4"
            by (auto simp: on_failed_done_def intro!: reconcile_frame_parts)
          with 1 f3 False show ?case
            by (cases r) (auto simp: on_failed_done_def reconciled_def plain_def intro: reconcile_frame_trans)
        qed
      qed
    qed
  qed
qed

lemma wp_FileIntegrityControllerReconcile:
  assumes "\<forall>k ds. lookup (DaemonSets w) k = Some ds \<longrightarrow> has_container ds"
  shows "wp (FileIntegrityControllerReconcile cl env now request) (\<lambda>r w'.
     case lookup (FileIntegrities w) request of
       Some inst \<Rightarrow> reconciled env now inst w r w'
     | None \<Rightarrow> w' = w \<and> (case r of Inl e \<Rightarrow> \<not> is_panic e | Inr res \<Rightarrow> res = Done)) w"
  unfolding FileIntegrityControllerReconcile_def
proof (simp only: wp_bind, rule fi.wp_Get, goal_cases)
  case (1 e)
  then show ?case
    by (cases "lookup (FileIntegrities w) request") (auto simp: wp_simps reconciled_def)
next
  case (2 inst)
  show ?case unfolding sum.case 2(1) option.case wp_bind
  proof (rule wp_conseq [OF wp_reconcilePriorityClass], goal_cases)
    case (1 requeue w1)
    show ?case
    proof (cases requeue)
      case True
      with 1 show ?thesis
        by (auto simp: wp_ok reconciled_def Again_def Done_def intro!: reconcile_frame_parts)
    next
      case False
      with 1 obtain es where w1: "w1 = w\<lparr>events := es\<rparr>" by auto
      have lift: "reconciled env now inst w1 r w' \<Longrightarrow> reconciled env now inst w r w'" for r w'
      proof -
        have "requested_conf env inst (w\<lparr>events := es\<rparr>) = requested_conf env inst w"
          "operator_image env (w\<lparr>events := es\<rparr>) = operator_image env w" "legacy_keys inst (w\<lparr>events := es\<rparr>) = legacy_keys inst w"
          by (simp_all add: requested_conf_def operator_image_def legacy_keys_def Let_def)
        moreover from this have "converged env inst (w\<lparr>events := es\<rparr>) w' = converged env inst w w'"
          by (simp add: converged_def)
        ultimately show "reconciled env now inst w1 r w' \<Longrightarrow> reconciled env now inst w r w'"
          by (cases r) (simp_all add: w1 reconciled_def reconcile_frame_def)
      qed
      show ?thesis unfolding if_not_P [OF False]
      proof (rule wp_bindE_rule [OF wp_getOperatorDeploymentImage], goal_cases)
        case (1 e w2)
        then show ?case by (auto simp: w1 reconciled_def reconcile_frame_def)
      next
        case (2 img w2)
        then have eqs: "w2 = w1" "img = operator_image env w1" by simp_all
        have ds: "\<forall>ds. lookup (DaemonSets w1) (ds_key env inst) = Some ds \<longrightarrow> has_container ds"
          using assms by (simp add: w1)
        show ?case unfolding eqs
          by (rule wp_conseq [OF wp_reconcile_instance [OF ds]]) (rule lift)
      qed
    qed
  qed
qed

end

end
