(* ===== verification/Status_Controller.thy ===== *)
theory Status_Controller
  imports FI_Controller
begin

text \<open>
  The status controller, \<open>src/pkg/controller/status/status_controller.go\<close>: it keeps the phase of a
  FileIntegrity up to date with its daemon sets and node statuses, counts and announces every phase
  change, and removes the node statuses of nodes that are gone. The operations come first; then
  \<open>phase_of\<close>, what the phase should be in a given world, and the outcome of a reconcile.
\<close>

section \<open>Operations\<close>

definition statusRequeue :: int where "statusRequeue = 30000000000"

definition countPhase :: "FileIntegrityStatusPhase \<Rightarrow> Metrics \<Rightarrow> Metrics" where
  "countPhase phase = (case phase of
       PhaseError \<Rightarrow> IncFileIntegrityPhaseError
     | PhaseInitializing \<Rightarrow> IncFileIntegrityPhaseInit
     | PhaseActive \<Rightarrow> IncFileIntegrityPhaseActive
     | PhasePending \<Rightarrow> IncFileIntegrityPhasePending
     | PhaseUnset \<Rightarrow> id)"

definition updateStatus :: "client \<Rightarrow> FileIntegrity \<Rightarrow> FileIntegrityStatusPhase \<Rightarrow> error option io" where
  "updateStatus cl integrity phase =
     (if Phase integrity \<noteq> phase then do {
        err \<leftarrow> StatusUpdate cl (integrity\<lparr>Phase := phase\<rparr>);
        case err of Some e \<Rightarrow> State_Monad.return (Some e)
        | None \<Rightarrow> do {
            met (countPhase phase);
            Eventf (Name integrity) (if phase = PhaseError then EventTypeWarning else EventTypeNormal)
              ''FileIntegrityStatus'' (phase_string phase);
            State_Monad.return None } }
      else State_Monad.return None)"

text \<open>
  The loop over the node statuses: one whose node is gone is deleted, and the first errored one
  (also one that was just deleted) ends the loop.
\<close>

fun activeLoop :: "client \<Rightarrow> string list \<Rightarrow> FileIntegrityNodeStatus list
    \<Rightarrow> (error + FileIntegrityStatusPhase) io" where
  "activeLoop cl nodeNameList [] = ok PhaseActive"
| "activeLoop cl nodeNameList (nodeStatus # rest) =
     thenE (if NodeName nodeStatus \<notin> set nodeNameList then Delete (nss cl) nodeStatus else State_Monad.return None)
       (if Condition (LastResult nodeStatus) = NodeConditionErrored then ok PhaseError
        else activeLoop cl nodeNameList rest)"

definition mapActiveStatus :: "client \<Rightarrow> FileIntegrity \<Rightarrow> (error + FileIntegrityStatusPhase) io" where
  "mapActiveStatus cl integrity =
     bindE (ListObjs (nss cl) \<lparr>loNamespace = '''', loSelector = Some [IntegrityOwnerLabelKey \<mapsto> Name integrity]\<rparr>) (\<lambda>nodeStatusList.
     bindE (ListObjs (nodes cl) \<lparr>loNamespace = '''', loSelector = None\<rparr>) (\<lambda>nodeList.
     activeLoop cl (map Name nodeList) nodeStatusList))"

definition StatusReconcile :: "client \<Rightarrow> Env \<Rightarrow> NamespacedName \<Rightarrow> (error + Result) io" where
  "StatusReconcile cl env request = do {
     r \<leftarrow> Get (fis cl) request;
     case r of
       Inl e \<Rightarrow> if IsNotFound e then ok Done else throw e
     | Inr inst \<Rightarrow>
         (let report = (\<lambda>phase. thenE (updateStatus cl inst phase)
                          (ok \<lparr>Requeue = False, RequeueAfter = statusRequeue\<rparr>))
          in bindE (ListObjs (dss cl) \<lparr>loNamespace = '''', loSelector = Some [IntegrityReinitOwnerLabelKey \<mapsto> Name inst]\<rparr>) (\<lambda>reinitDsList.
          if length reinitDsList > 0 then report PhaseInitializing
          else do {
            rd \<leftarrow> Get (dss cl) (FileIntegrityNamespace env, DaemonSetName (Name inst));
            case rd of
              Inl e \<Rightarrow> if \<not> IsNotFound e then throw e else report PhasePending
            | Inr ds \<Rightarrow>
                if DaemonSetIsReady ds \<and> \<not> DaemonSetIsUpdating ds
                then bindE (mapActiveStatus cl inst) report
                else report PhaseInitializing })) }"

section \<open>What the phase should be\<close>

text \<open>Visible objects: those an API list returns.\<close>

definition visible :: "('z) ObjectMeta_scheme list \<Rightarrow> ListOptions \<Rightarrow> ('z) ObjectMeta_scheme list" where
  "visible os opts = filter (\<lambda>obj. lookup os (nsname obj) = Some obj \<and> listed opts obj) os"

definition owned_statuses :: "world \<Rightarrow> FileIntegrity \<Rightarrow> FileIntegrityNodeStatus list" where
  "owned_statuses w fi = visible (NodeStatuses w) \<lparr>loNamespace = '''', loSelector = Some [IntegrityOwnerLabelKey \<mapsto> Name fi]\<rparr>"

definition node_names :: "world \<Rightarrow> string set" where
  "node_names w = Name ` set (visible (Nodes w) \<lparr>loNamespace = '''', loSelector = None\<rparr>)"

definition errored :: "FileIntegrityNodeStatus \<Rightarrow> bool" where
  "errored ns \<longleftrightarrow> Condition (LastResult ns) = NodeConditionErrored"

text \<open>
  While a re-init daemon set of the FileIntegrity exists the phase is Initializing; without its
  daemon set it is Pending, with one that is rolling out Initializing; otherwise it is Error when
  some node status is errored and Active when none is.
\<close>

definition phase_of :: "Env \<Rightarrow> world \<Rightarrow> FileIntegrity \<Rightarrow> FileIntegrityStatusPhase" where
  "phase_of env w fi =
     (if visible (DaemonSets w) \<lparr>loNamespace = '''', loSelector = Some [IntegrityReinitOwnerLabelKey \<mapsto> Name fi]\<rparr> \<noteq> []
      then PhaseInitializing
      else case lookup (DaemonSets w) (FileIntegrityNamespace env, DaemonSetName (Name fi)) of
          None \<Rightarrow> PhasePending
        | Some ds \<Rightarrow>
            if DaemonSetIsReady ds \<and> \<not> DaemonSetIsUpdating ds
            then (if list_ex errored (owned_statuses w fi) then PhaseError else PhaseActive)
            else PhaseInitializing)"

lemma visible_iff: "obj \<in> set (visible os opts) \<longleftrightarrow> lookup os (nsname obj) = Some obj \<and> listed opts obj"
  by (auto simp: visible_def lookup_def find_Some_iff)

lemma set_visible:
  assumes "\<And>obj. obj \<in> set xs \<longleftrightarrow> lookup os (nsname obj) = Some obj \<and> listed opts obj"
  shows "set xs = set (visible os opts)"
  by (rule set_eqI) (simp only: visible_iff assms)

text \<open>Which statuses a reconcile may delete: owned ones whose node is gone.\<close>

definition stale_keys :: "world \<Rightarrow> FileIntegrity \<Rightarrow> NamespacedName set" where
  "stale_keys w fi = nsname ` {ns \<in> set (owned_statuses w fi). NodeName ns \<notin> node_names w}"

section \<open>The outcome\<close>

context kube_api
begin

lemma wp_updateStatus:
  assumes "lookup (FileIntegrities w) (nsname fi) = Some fi"
  shows "wp (updateStatus cl fi phase) (\<lambda>r w'. case r of
     Some e \<Rightarrow> \<not> is_panic e \<and> w' = w
   | None \<Rightarrow> \<exists>fil. lookup fil = (lookup (FileIntegrities w))(nsname fi \<mapsto> fi\<lparr>Phase := phase\<rparr>) \<and>
       w' = w\<lparr>FileIntegrities := fil,
         metrics := (if Phase fi = phase then metrics w else countPhase phase (metrics w)),
         events := events w @ (if Phase fi = phase then [] else
           [\<lparr>evObject = Name fi, evType = (if phase = PhaseError then EventTypeWarning else EventTypeNormal),
             evReason = ''FileIntegrityStatus'', evMessage = phase_string phase\<rparr>])\<rparr>) w"
proof (cases "Phase fi = phase")
  case True
  with assms show ?thesis by (auto simp: updateStatus_def wp_simps intro!: exI [of _ "FileIntegrities w"])
next
  case False
  have key: "nsname (fi\<lparr>Phase := phase\<rparr>) = nsname fi" by (simp add: nsname_def)
  show ?thesis unfolding updateStatus_def wp_if if_P [OF False] wp_bind
  proof (rule wp_StatusUpdate, goal_cases)
    case (2 old fil)
    with assms False show ?case by (auto simp: key wp_simps)
  qed (simp add: wp_simps)
qed

end

text \<open>
  The outcome of going over the statuses \<open>xs\<close>: only statuses of \<open>xs\<close> whose node is gone are removed,
  all of them when the loop reaches the end; a loop that ends with Error stopped at an errored
  status, which is removed when its node is gone.
\<close>

definition swept :: "string set \<Rightarrow> FileIntegrityNodeStatus list \<Rightarrow> world \<Rightarrow> error + FileIntegrityStatusPhase \<Rightarrow> world \<Rightarrow> bool" where
  "swept names xs w r w' \<longleftrightarrow>
     w' = w\<lparr>NodeStatuses := NodeStatuses w'\<rparr> \<and>
     drops (nsname ` {x \<in> set xs. NodeName x \<notin> names}) (lookup (NodeStatuses w)) (lookup (NodeStatuses w')) \<and>
     (case r of Inl e \<Rightarrow> \<not> is_panic e
      | Inr p \<Rightarrow> p = (if list_ex errored xs then PhaseError else PhaseActive) \<and>
          (p = PhaseActive \<longrightarrow> (\<forall>x\<in>set xs. NodeName x \<notin> names \<longrightarrow> lookup (NodeStatuses w') (nsname x) = None)) \<and>
          (p = PhaseError \<longrightarrow> (\<exists>x\<in>set xs. errored x \<and> (NodeName x \<notin> names \<longrightarrow> lookup (NodeStatuses w') (nsname x) = None))))"

lemma swept_cong: "names = names' \<Longrightarrow> set xs = set ys \<Longrightarrow> swept names xs = swept names' ys"
  unfolding swept_def list_ex_iff fun_eq_iff by (simp only:) simp

lemma swept_Cons_kept:
  assumes "swept names xs w r w'" and "NodeName x \<in> names" and "\<not> errored x"
  shows "swept names (x # xs) w r w'"
  using assms unfolding swept_def by (auto split: sum.splits intro: drops_mono)

lemma swept_Cons_deleted:
  assumes "swept names xs (w\<lparr>NodeStatuses := os\<rparr>) r w'" and "lookup os = (lookup (NodeStatuses w))(nsname x := None)"
    and "NodeName x \<notin> names" and "\<not> errored x"
  shows "swept names (x # xs) w r w'"
proof -
  have "drops (nsname ` {x \<in> set xs. NodeName x \<notin> names}) (lookup os) (lookup (NodeStatuses w'))"
    using assms(1) by (simp add: swept_def)
  moreover from this have "lookup (NodeStatuses w') (nsname x) = None" by (rule drops_gone) (simp add: assms(2))
  moreover have "drops (nsname ` {y \<in> set (x # xs). NodeName y \<notin> names}) (lookup (NodeStatuses w)) (lookup (NodeStatuses w'))"
  proof (rule drops_step [of _ _ "nsname x"])
    show "drops (nsname ` {y \<in> set (x # xs). NodeName y \<notin> names}) ((lookup (NodeStatuses w))(nsname x := None)) (lookup (NodeStatuses w'))"
      unfolding assms(2) [symmetric] by (rule drops_mono [OF calculation(1)]) auto
  qed (use assms(3) in auto)
  moreover have "w' = w\<lparr>NodeStatuses := NodeStatuses w'\<rparr>"
    using assms(1) by (simp add: swept_def)
  ultimately show ?thesis using assms(1,4) \<open>lookup (NodeStatuses w') (nsname x) = None\<close>
    unfolding swept_def by (auto split: sum.splits)
qed

context kube_api
begin

lemma wp_activeLoop: "wp (activeLoop cl names xs) (swept (set names) xs w) w"
proof (induction xs arbitrary: w)
  case Nil
  show ?case by (simp add: wp_simps swept_def)
next
  case (Cons x xs)
  show ?case
  proof (cases "NodeName x \<in> set names")
    case True
    show ?thesis
    proof (cases "errored x")
      case err: True
      with True show ?thesis by (simp add: errored_def wp_simps swept_def)
    next
      case ok: False
      have "wp (activeLoop cl names xs) (swept (set names) (x # xs) w) w"
        by (rule wp_conseq [OF Cons.IH swept_Cons_kept [OF _ True ok]])
      with True ok show ?thesis by (simp add: errored_def wp_simps)
    qed
  next
    case False
    show ?thesis unfolding activeLoop.simps wp_thenE if_P [OF False]
    proof (rule ns.wp_Delete, goal_cases)
      case (1 e)
      then show ?case by (simp add: swept_def)
    next
      case (2 os)
      show ?case
      proof (cases "errored x")
        case True
        with 2 False show ?thesis by (auto simp: errored_def wp_simps swept_def intro!: drops_upd)
      next
        case not_errored: False
        show ?thesis using not_errored
          by (simp add: errored_def wp_simps)
            (rule wp_conseq [OF Cons.IH swept_Cons_deleted [OF _ 2(2) False not_errored]])
      qed
    qed
  qed
qed

lemma wp_mapActiveStatus:
  "wp (mapActiveStatus cl fi) (swept (node_names w) (owned_statuses w fi) w) w"
  unfolding mapActiveStatus_def wp_bindE
proof (rule ns.wp_List, goal_cases)
  case (1 e)
  then show ?case by (simp add: swept_def)
next
  case xs: (2 xs)
  show ?case unfolding sum.case wp_bindE
  proof (rule node.wp_List, goal_cases)
    case (1 e)
    then show ?case by (simp add: swept_def)
  next
    case ns: (2 ns)
    have "set ns = set (visible (Nodes w) \<lparr>loNamespace = '''', loSelector = None\<rparr>)"
      "set xs = set (owned_statuses w fi)"
      unfolding owned_statuses_def by (rule set_visible, rule ns(2) xs(2))+
    then have "swept (set (map Name ns)) xs = swept (node_names w) (owned_statuses w fi)"
      by (simp add: node_names_def cong: swept_cong)
    then show ?case using wp_activeLoop [of "map Name ns" xs w] by simp
  qed
qed

end

text \<open>
  A reconcile that finds the FileIntegrity reports \<open>phase_of\<close>, with one event and one count when
  that is a change and none otherwise, and may remove stale statuses before an Error or Active report.
\<close>

definition reported :: "Env \<Rightarrow> FileIntegrity \<Rightarrow> world \<Rightarrow> world \<Rightarrow> bool" where
  "reported env fi w w' \<longleftrightarrow> (let phase = phase_of env w fi in
     lookup (FileIntegrities w') = (lookup (FileIntegrities w))(nsname fi \<mapsto> fi\<lparr>Phase := phase\<rparr>) \<and>
     metrics w' = (if Phase fi = phase then metrics w else countPhase phase (metrics w)) \<and>
     events w' = events w @ (if Phase fi = phase then [] else
       [\<lparr>evObject = Name fi, evType = (if phase = PhaseError then EventTypeWarning else EventTypeNormal),
         evReason = ''FileIntegrityStatus'', evMessage = phase_string phase\<rparr>]) \<and>
     (phase = PhaseActive \<longrightarrow> (\<forall>ns\<in>set (owned_statuses w fi). NodeName ns \<notin> node_names w \<longrightarrow>
        lookup (NodeStatuses w') (nsname ns) = None)) \<and>
     (phase = PhaseError \<longrightarrow> (\<exists>ns\<in>set (owned_statuses w fi). errored ns \<and>
        (NodeName ns \<notin> node_names w \<longrightarrow> lookup (NodeStatuses w') (nsname ns) = None))))"

text \<open>What no reconcile does, whether it succeeds or not.\<close>

definition only_status :: "FileIntegrity \<Rightarrow> world \<Rightarrow> world \<Rightarrow> bool" where
  "only_status fi w w' \<longleftrightarrow>
     (\<exists>phase. lookup (FileIntegrities w') = lookup (FileIntegrities w) \<or>
        lookup (FileIntegrities w') = (lookup (FileIntegrities w))(nsname fi \<mapsto> fi\<lparr>Phase := phase\<rparr>)) \<and>
     drops (stale_keys w fi) (lookup (NodeStatuses w)) (lookup (NodeStatuses w')) \<and>
     w' = w\<lparr>FileIntegrities := FileIntegrities w', NodeStatuses := NodeStatuses w', metrics := metrics w', events := events w'\<rparr>"

definition status_outcome :: "Env \<Rightarrow> NamespacedName \<Rightarrow> world \<Rightarrow> error + Result \<Rightarrow> world \<Rightarrow> bool" where
  "status_outcome env request w r w' \<longleftrightarrow>
     (case r of Inl e \<Rightarrow> \<not> is_panic e
      | Inr res \<Rightarrow> (case lookup (FileIntegrities w) request of
            None \<Rightarrow> res = Done \<and> w' = w
          | Some fi \<Rightarrow> res = \<lparr>Requeue = False, RequeueAfter = statusRequeue\<rparr> \<and> reported env fi w w')) \<and>
     (case lookup (FileIntegrities w) request of None \<Rightarrow> w' = w | Some fi \<Rightarrow> only_status fi w w')"

context kube_api
begin

lemma wp_report_phase:
  assumes "lookup (FileIntegrities w) request = Some fi" and "phase = phase_of env w fi"
    and "w1 = w\<lparr>NodeStatuses := NodeStatuses w1\<rparr>"
    and "drops (stale_keys w fi) (lookup (NodeStatuses w)) (lookup (NodeStatuses w1))"
    and "phase = PhaseActive \<Longrightarrow> \<forall>ns\<in>set (owned_statuses w fi). NodeName ns \<notin> node_names w \<longrightarrow>
        lookup (NodeStatuses w1) (nsname ns) = None"
    and "phase = PhaseError \<Longrightarrow> \<exists>ns\<in>set (owned_statuses w fi). errored ns \<and> (NodeName ns \<notin> node_names w \<longrightarrow>
        lookup (NodeStatuses w1) (nsname ns) = None)"
  shows "wp (thenE (updateStatus cl fi phase) (ok \<lparr>Requeue = False, RequeueAfter = statusRequeue\<rparr>)) (status_outcome env request w) w1"
proof -
  have fi: "nsname fi = request" using lookup_nsname [OF assms(1)] .
  have w1: "FileIntegrities w1 = FileIntegrities w" "metrics w1 = metrics w" "events w1 = events w"
    by (subst assms(3), simp)+
  have upd: "w1\<lparr>FileIntegrities := f, metrics := m, events := e\<rparr>
      = w\<lparr>FileIntegrities := f, NodeStatuses := NodeStatuses w1, metrics := m, events := e\<rparr>" for f m e
    by (subst assms(3), simp)
  show ?thesis unfolding wp_thenE
  proof (rule wp_conseq [OF wp_updateStatus [of w1 fi phase]], goal_cases)
    case 1
    show ?case using assms(1) fi w1 by simp
  next
    case (2 r w')
    then show ?case
    proof (cases r)
      case (Some e)
      have "only_status fi w w1" using assms(4) w1 unfolding only_status_def
        by (auto intro!: exI [of _ phase]) (subst assms(3), simp)
      with 2 Some assms(1) show ?thesis by (simp add: status_outcome_def)
    next
      case None
      then obtain fil where fis: "lookup fil = (lookup (FileIntegrities w))(nsname fi \<mapsto> fi\<lparr>Phase := phase\<rparr>)"
        and eq: "w' = w\<lparr>FileIntegrities := fil, NodeStatuses := NodeStatuses w1,
           metrics := (if Phase fi = phase then metrics w else countPhase phase (metrics w)),
           events := events w @ (if Phase fi = phase then [] else
             [\<lparr>evObject = Name fi, evType = (if phase = PhaseError then EventTypeWarning else EventTypeNormal),
               evReason = ''FileIntegrityStatus'', evMessage = phase_string phase\<rparr>])\<rparr>"
        using 2 by (auto simp only: option.case w1 upd)
      have parts: "NodeStatuses w' = NodeStatuses w1" "FileIntegrities w' = fil"
        "metrics w' = (if Phase fi = phase then metrics w else countPhase phase (metrics w))"
        "events w' = events w @ (if Phase fi = phase then [] else
           [\<lparr>evObject = Name fi, evType = (if phase = PhaseError then EventTypeWarning else EventTypeNormal),
             evReason = ''FileIntegrityStatus'', evMessage = phase_string phase\<rparr>])"
        "w' = w\<lparr>FileIntegrities := FileIntegrities w', NodeStatuses := NodeStatuses w', metrics := metrics w', events := events w'\<rparr>"
        by (simp_all add: eq)
      have "only_status fi w w'" using fis assms(4) parts(1,2,5) unfolding only_status_def by auto
      moreover have "reported env fi w w'"
        using fis parts(1-4) assms(5,6) unfolding reported_def Let_def assms(2) [symmetric] by simp
      ultimately show ?thesis using None assms(1) by (simp add: status_outcome_def wp_simps)
    qed
  qed
qed

end

lemma only_status_keeps:
  assumes "only_status fi w w'"
  shows "(ConfigMaps w', DaemonSets w', Nodes w', Pods w', PriorityClasses w', Deployments w')
     = (ConfigMaps w, DaemonSets w, Nodes w, Pods w, PriorityClasses w, Deployments w)"
proof -
  from assms obtain f n m e where "w' = w\<lparr>FileIntegrities := f, NodeStatuses := n, metrics := m, events := e\<rparr>"
    unfolding only_status_def by blast
  then show ?thesis by simp
qed

lemma only_status_swept:
  assumes "swept (node_names w) (owned_statuses w fi) w r w'"
  shows "only_status fi w w'"
proof -
  have eq: "w' = w\<lparr>NodeStatuses := NodeStatuses w'\<rparr>"
    and drops: "drops (stale_keys w fi) (lookup (NodeStatuses w)) (lookup (NodeStatuses w'))"
    using assms by (simp_all only: swept_def stale_keys_def)
  from eq obtain os where "w' = w\<lparr>NodeStatuses := os\<rparr>" by blast
  with drops show ?thesis by (simp add: only_status_def)
qed

context kube_api
begin

text \<open>With the daemon sets at rest, the node statuses decide.\<close>

lemma wp_active_phase:
  assumes fi: "lookup (FileIntegrities w) request = Some fi"
    and phase: "phase_of env w fi = (if list_ex errored (owned_statuses w fi) then PhaseError else PhaseActive)"
  shows "wp (bindE (mapActiveStatus cl fi) (\<lambda>p. thenE (updateStatus cl fi p) (ok \<lparr>Requeue = False, RequeueAfter = statusRequeue\<rparr>)))
     (status_outcome env request w) w"
  unfolding wp_bindE [of "mapActiveStatus cl fi"]
proof (rule wp_conseq [OF wp_mapActiveStatus [of fi w]], goal_cases)
  case (1 r w1)
  then show ?case
  proof (cases r)
    case (Inl e)
    with 1 have "\<not> is_panic e" by (simp add: swept_def)
    with Inl only_status_swept [OF 1] fi show ?thesis by (simp add: status_outcome_def)
  next
    case (Inr p)
    have "wp (thenE (updateStatus cl fi p) (ok \<lparr>Requeue = False, RequeueAfter = statusRequeue\<rparr>)) (status_outcome env request w) w1"
      using 1 phase unfolding swept_def Inr sum.case stale_keys_def [symmetric]
      by (intro wp_report_phase [OF fi]) (elim conjE, metis)+
    with Inr show ?thesis by simp
  qed
qed

lemma wp_StatusReconcile: "wp (StatusReconcile cl env request) (status_outcome env request w) w"
  unfolding StatusReconcile_def wp_bind
proof (rule fi.wp_Get, goal_cases)
  case (1 e)
  then show ?case by (auto simp: wp_simps status_outcome_def only_status_def split: option.splits)
next
  case fi: (2 fi)
  have fail: "status_outcome env request w (Inl e) w" if "\<not> is_panic e" for e
    using that fi by (auto simp: status_outcome_def only_status_def)
  note report = wp_report_phase [OF fi(1)]
  show ?case unfolding sum.case Let_def wp_bindE [of "ListObjs (dss cl) _"]
  proof (rule ds.wp_List, goal_cases)
    case (1 e)
    then show ?case using fail by simp
  next
    case ds: (2 os)
    let ?vis = "visible (DaemonSets w) \<lparr>loNamespace = '''', loSelector = Some [IntegrityReinitOwnerLabelKey \<mapsto> Name fi]\<rparr>"
    have os: "set os = set ?vis" by (rule set_visible) (rule ds(2))
    show ?case
    proof (cases "os = []")
      case False
      with os have "phase_of env w fi = PhaseInitializing" by (auto simp: phase_of_def)
      with False show ?thesis by (auto intro!: report)
    next
      case True
      with os have none: "?vis = []" by simp
      show ?thesis unfolding sum.case True list.size if_not_P [OF less_irrefl] wp_bind
      proof (rule ds.wp_Get, goal_cases)
        case (1 e)
        then show ?case using fail none by (auto simp: wp_throw phase_of_def intro!: report)
      next
        case d: (2 d)
        with none show ?case by (auto simp: phase_of_def intro!: report wp_active_phase [OF fi(1)])
      qed
    qed
  qed
qed

end

end
