(* ===== verification/ConfigMap_Controller.thy ===== *)
theory ConfigMap_Controller
  imports FI_Controller
begin

text \<open>
  The config map controller, \<open>src/pkg/controller/configmap/configmap_controller.go\<close>: it finishes
  re-inits (deletes a re-init daemon set that has run and unmarks the AIDE config map) and turns the
  log config maps of the daemons into node statuses, metrics and events.
\<close>

section \<open>Finishing a re-init\<close>

text \<open>The clean-up of single-node re-init daemon sets; one that is already gone is passed over.\<close>

fun cleanupLoop :: "client \<Rightarrow> string \<Rightarrow> DaemonSet list \<Rightarrow> error option io" where
  "cleanupLoop cl reinitDSName [] = State_Monad.return None"
| "cleanupLoop cl reinitDSName (ds # rest) =
     (if Name ds \<noteq> reinitDSName then do {
        deleteErr \<leftarrow> Delete (dss cl) ds;
        case deleteErr of
          Some e \<Rightarrow> if IsNotFound e then cleanupLoop cl reinitDSName rest else State_Monad.return (Some e)
        | None \<Rightarrow> do { met IncFileIntegrityReinitDaemonsetDelete; cleanupLoop cl reinitDSName rest } }
      else cleanupLoop cl reinitDSName rest)"

text \<open>The last node of the \<open>updated\<close> annotation, and the list it came from.\<close>

definition updatedNodes :: "string \<Rightarrow> string \<times> string list" where
  "updatedNodes nodeListString =
     (if nodeListString \<noteq> '''' then
        (let nodeList = Split comma nodeListString in (last nodeList, nodeList))
      else ('''', []))"

text \<open>Waiting for the re-init daemon set, deleting it and unmarking the config map.\<close>

definition finishReinit :: "client \<Rightarrow> Env \<Rightarrow> ConfigMap \<Rightarrow> string \<Rightarrow> string list \<Rightarrow> (error + Result) io" where
  "finishReinit cl env inst reinitDSName nodeList = do {
     r \<leftarrow> Get (dss cl) (FileIntegrityNamespace env, reinitDSName);
     case r of
       Inl e \<Rightarrow> if IsNotFound e then ok Again else throw e
     | Inr reinitDS \<Rightarrow>
         if \<not> DaemonSetIsReady reinitDS then ok \<lparr>Requeue = False, RequeueAfter = 1000000000\<rparr>
         else thenE (Delete (dss cl) reinitDS) (do {
           met IncFileIntegrityReinitDaemonsetDelete;
           (case (if length nodeList > 1
                  then mput (Annotations inst) AideConfigUpdatedAnnotationKey (Join (butlast nodeList) '','')
                  else Some (mdelete (Annotations inst) AideConfigUpdatedAnnotationKey)) of
              None \<Rightarrow> throw (Panic ''assignment to entry in nil map'')
            | Some ann \<Rightarrow> thenE (Update (cms cl) (inst\<lparr>Annotations := ann\<rparr>)) (ok Done)) }) }"

definition reconcileAideConfAndHandleReinitDs :: "client \<Rightarrow> Env \<Rightarrow> ConfigMap \<Rightarrow> (error + Result) io" where
  "reconcileAideConfAndHandleReinitDs cl env inst =
     (case mget (Annotations inst) AideConfigUpdatedAnnotationKey of
        None \<Rightarrow> ok Done
      | Some nodeListString \<Rightarrow>
          (let (nodeName, nodeList) = updatedNodes nodeListString in
           case GetConfigMapOwnerName inst of Inl e \<Rightarrow> throw e
           | Inr ownerName \<Rightarrow>
               bindE (Get (fis cl) (Namespace inst, ownerName)) (\<lambda>integrityInstance.
               let reinitDSName = ReinitDaemonSetNodeName (Name integrityInstance) nodeName in
               if nodeName = '''' then
                 bindE (ListObjs (dss cl) \<lparr>loNamespace = Namespace inst,
                          loSelector = Some [IntegrityReinitOwnerLabelKey \<mapsto> Name integrityInstance]\<rparr>) (\<lambda>items.
                 thenE (cleanupLoop cl reinitDSName items)
                   (finishReinit cl env inst reinitDSName nodeList))
               else finishReinit cl env inst reinitDSName nodeList)))"

section \<open>Node statuses\<close>

definition isLatestScanResult :: "FileIntegrityScanResult \<Rightarrow> FileIntegrityNodeStatus \<Rightarrow> bool" where
  "isLatestScanResult result nodeStatus \<longleftrightarrow> LastProbeTime result > LastProbeTime (LastResult nodeStatus)"

definition conditionIsNewFailureOrTransition :: "int \<Rightarrow> bool \<Rightarrow> FileIntegrityNodeStatus \<Rightarrow> FileIntegrityNodeStatus \<Rightarrow> bool" where
  "conditionIsNewFailureOrTransition metricValue found prev cur =
     (if \<not> found \<or> (Condition (LastResult cur) = NodeConditionFailed \<and> metricValue = 0)
         \<or> (Condition (LastResult cur) = NodeConditionSucceeded \<and> metricValue = 1) then True
      else if Condition (LastResult cur) = NodeConditionFailed \<and> Condition (LastResult prev) = NodeConditionFailed then
        FilesRemoved (LastResult cur) \<noteq> FilesRemoved (LastResult prev) \<or>
        FilesAdded (LastResult cur) \<noteq> FilesAdded (LastResult prev) \<or>
        FilesChanged (LastResult cur) \<noteq> FilesChanged (LastResult prev)
      else if Condition (LastResult cur) \<noteq> Condition (LastResult prev) then True
      else False)"

definition createNodeStatusEvent :: "FileIntegrity \<Rightarrow> FileIntegrityNodeStatus \<Rightarrow> unit io" where
  "createNodeStatusEvent fi status =
     (let res = LastResult status in
      case Condition res of
        NodeConditionSucceeded \<Rightarrow> Eventf (Name fi) EventTypeNormal ''NodeIntegrityStatus''
          (''no changes to node '' @ NodeName status)
      | NodeConditionFailed \<Rightarrow> Eventf (Name fi) EventTypeWarning ''NodeIntegrityStatus''
          (''node '' @ NodeName status @ '' has changed! a:'' @ Itoa (FilesAdded res) @ '',c:'' @ Itoa (FilesChanged res)
            @ '',r:'' @ Itoa (FilesRemoved res) @ '' log:'' @ ResultConfigMapNamespace res @ ''/'' @ ResultConfigMapName res)
      | NodeConditionErrored \<Rightarrow> Eventf (Name fi) EventTypeWarning ''NodeIntegrityStatus''
          (''node '' @ NodeName status @ '' has an error! '' @ ErrorMsg res))"

definition updateNodeStatusMetrics :: "FileIntegrityNodeStatus \<Rightarrow> unit io" where
  "updateNodeStatusMetrics status = do {
     met (IncFileIntegrityNodeStatus (condition_string (Condition (LastResult status))) (NodeName status));
     (case Condition (LastResult status) of
        NodeConditionSucceeded \<Rightarrow> met (SetFileIntegrityNodeStatusGaugeGood (NodeName status))
      | NodeConditionFailed \<Rightarrow> met (SetFileIntegrityNodeStatusGaugeBad (NodeName status))
      | NodeConditionErrored \<Rightarrow> met (IncFileIntegrityNodeStatusError (ErrorMsg (LastResult status)) (NodeName status))) }"

text \<open>
  The loop over the results of a status: those of another condition are kept, and a kept result that
  is newer than the last one becomes the last one (of \<open>nodeStatus\<close> itself, which the caller goes on
  to compare with as \<open>prev\<close>).
\<close>

fun filterLoop :: "FileIntegrityNodeCondition \<Rightarrow> FileIntegrityScanResult list \<Rightarrow> FileIntegrityScanResult list
    \<Rightarrow> FileIntegrityNodeStatus \<Rightarrow> FileIntegrityScanResult list \<times> FileIntegrityNodeStatus" where
  "filterLoop cond [] acc nodeStatus = (acc, nodeStatus)"
| "filterLoop cond (result # rest) acc nodeStatus =
     (if Condition result \<noteq> cond then
        filterLoop cond rest (acc @ [result])
          (if isLatestScanResult result nodeStatus then nodeStatus\<lparr>LastResult := result\<rparr> else nodeStatus)
      else filterLoop cond rest acc nodeStatus)"

text \<open>The new status, and the old one as the loop leaves it.\<close>

definition mergeResult :: "FileIntegrityScanResult \<Rightarrow> FileIntegrityNodeStatus \<Rightarrow> FileIntegrityNodeStatus \<times> FileIntegrityNodeStatus" where
  "mergeResult new nodeStatus =
     (let (updateResults, prev) = filterLoop (Condition new) (Results nodeStatus) [] nodeStatus;
          statusCopy = prev\<lparr>Results := updateResults @ [new]\<rparr>
      in (if isLatestScanResult new prev then statusCopy\<lparr>LastResult := new\<rparr> else statusCopy, prev))"

definition initialStatus :: "string \<Rightarrow> FileIntegrity \<Rightarrow> FileIntegrityScanResult \<Rightarrow> FileIntegrityNodeStatus" where
  "initialStatus node inst new =
     \<lparr>Name = Name inst @ ''-'' @ node, Namespace = Namespace inst,
      Labels = Some [IntegrityOwnerLabelKey \<mapsto> Name inst], Annotations = None, OwnerReferences = [],
      CreationTimestamp = 0, UID = '''', NodeName = node, Results = [new], LastResult = new\<rparr>"

text \<open>A missing metric value is not an error: it reads as 0, not found.\<close>

definition ErrNoMetrics :: error where "ErrNoMetrics = GoError ''metric value is nil''"

definition readMetric :: "error + int \<times> bool \<Rightarrow> error + int \<times> bool" where
  "readMetric r = (case r of Inl e \<Rightarrow> if e = ErrNoMetrics then Inr (0, False) else Inl e | Inr v \<Rightarrow> Inr v)"

definition createOrUpdateNodeStatus :: "client \<Rightarrow> string \<Rightarrow> FileIntegrity \<Rightarrow> FileIntegrityScanResult \<Rightarrow> error option io" where
  "createOrUpdateNodeStatus cl node inst new = do {
     r \<leftarrow> Get (nss cl) (Namespace inst, Name inst @ ''-'' @ node);
     case r of
       Inl e \<Rightarrow>
         if \<not> IsNotFound e then State_Monad.return (Some e)
         else (case SetControllerReference_ns cl inst (initialStatus node inst new) of
             Inl refErr \<Rightarrow> State_Monad.return (Some refErr)
           | Inr nodeStatus \<Rightarrow> do {
               createErr \<leftarrow> Create (nss cl) nodeStatus;
               case createErr of Some e' \<Rightarrow> State_Monad.return (Some e')
               | None \<Rightarrow> do {
                   updateNodeStatusMetrics nodeStatus;
                   createNodeStatusEvent inst nodeStatus;
                   State_Monad.return None } })
     | Inr nodeStatus0 \<Rightarrow>
         (let (statusCopy, nodeStatus) = mergeResult new nodeStatus0 in do {
            updateErr \<leftarrow> Update (nss cl) statusCopy;
            case updateErr of Some e' \<Rightarrow> State_Monad.return (Some e')
            | None \<Rightarrow> do {
                w \<leftarrow> State_Monad.get;
                met (\<lambda>m. snd (GetFileIntegrityNodeStatus node m));
                (case readMetric (fst (GetFileIntegrityNodeStatus node (metrics w))) of
                   Inl e' \<Rightarrow> State_Monad.return (Some (Wrapped ''error getting FileIntegrityNodeStatus metric'' e'))
                 | Inr (metricValue, found) \<Rightarrow>
                     if conditionIsNewFailureOrTransition metricValue found nodeStatus statusCopy then do {
                       updateNodeStatusMetrics statusCopy;
                       createNodeStatusEvent inst statusCopy;
                       State_Monad.return None }
                     else State_Monad.return None) } }) }"

section \<open>Logs\<close>

text \<open>
  Labels, annotations and data are shared with the log config map; the log label is removed and the
  result label set in the shared map, and writing to \<open>nil\<close> labels would panic.
\<close>

definition getConfigMapForFailureLog :: "ConfigMap \<Rightarrow> error + ConfigMap" where
  "getConfigMapForFailureLog cm =
     (case mput (mdelete (Labels cm) IntegrityLogLabelKey) IntegrityLogResultLabelKey '''' of
        None \<Rightarrow> Inl (Panic ''assignment to entry in nil map'')
      | Some ls \<Rightarrow> Inr \<lparr>Name = Name cm @ ''-failed'', Namespace = Namespace cm, Labels = ls,
          Annotations = Annotations cm, OwnerReferences = [], CreationTimestamp = 0, UID = '''', Data = Data cm\<rparr>)"

definition emptyResult :: FileIntegrityScanResult where
  "emptyResult = \<lparr>LastProbeTime = 0, Condition = NodeConditionSucceeded, ResultConfigMapName = '''',
     ResultConfigMapNamespace = '''', ErrorMsg = '''', FilesAdded = 0, FilesChanged = 0, FilesRemoved = 0\<rparr>"

definition erroredResult :: "ConfigMap \<Rightarrow> FileIntegrityScanResult" where
  "erroredResult cm =
     (let errorMsg = (case mget (Annotations cm) IntegrityLogErrorAnnotationKey of
            Some msg \<Rightarrow> msg
          | None \<Rightarrow> (case mget (Data cm) IntegrityLogContentKey of
                None \<Rightarrow> ''log ConfigMap doesn'' @ [CHR 0x27] @ ''t contain content''
              | Some _ \<Rightarrow> ''unknown error''))
      in emptyResult\<lparr>Condition := NodeConditionErrored, LastProbeTime := CreationTimestamp cm, ErrorMsg := errorMsg\<rparr>)"

text \<open>\<open>strconv.Atoi\<close> of an annotation, with its error ignored.\<close>

definition count_of :: "ConfigMap \<Rightarrow> string \<Rightarrow> int" where
  "count_of cm key = fst (Atoi (mval (Annotations cm) key))"

definition failedResult :: "ConfigMap \<Rightarrow> ConfigMap \<Rightarrow> FileIntegrityScanResult" where
  "failedResult cm failedCM = emptyResult\<lparr>Condition := NodeConditionFailed, LastProbeTime := CreationTimestamp cm,
     ResultConfigMapName := Name failedCM, ResultConfigMapNamespace := Namespace failedCM,
     FilesAdded := count_of failedCM IntegrityLogFilesAddedAnnotation,
     FilesRemoved := count_of failedCM IntegrityLogFilesRemovedAnnotation,
     FilesChanged := count_of failedCM IntegrityLogFilesChangedAnnotation\<rparr>"

definition succeededResult :: "ConfigMap \<Rightarrow> FileIntegrityScanResult" where
  "succeededResult cm = emptyResult\<lparr>Condition := NodeConditionSucceeded, LastProbeTime := CreationTimestamp cm\<rparr>"

text \<open>The failure log is stored, over an older one if need be.\<close>

definition storeFailureLog :: "client \<Rightarrow> ConfigMap \<Rightarrow> error option io" where
  "storeFailureLog cl failedCM = do {
     err \<leftarrow> Create (cms cl) failedCM;
     case err of None \<Rightarrow> State_Monad.return None
     | Some e \<Rightarrow> if IsAlreadyExists e then Update (cms cl) failedCM else State_Monad.return (Some e) }"

definition handleIntegrityLog :: "client \<Rightarrow> ConfigMap \<Rightarrow> (error + Result) io" where
  "handleIntegrityLog cl cm =
     (case GetConfigMapOwnerName cm of Inl _ \<Rightarrow> ok Done
      | Inr owner \<Rightarrow>
          (case GetConfigMapNodeName cm of Inl _ \<Rightarrow> ok Done
           | Inr node \<Rightarrow>
               bindE (Get (fis cl) (Namespace cm, owner)) (\<lambda>fi.
               bindE (if IsIntegrityLogAnError cm then thenE (createOrUpdateNodeStatus cl node fi (erroredResult cm)) (ok ())
                      else if IsIntegrityLogAFailure cm then
                        (case getConfigMapForFailureLog cm of Inl e \<Rightarrow> throw e
                         | Inr failedCM \<Rightarrow>
                             thenE (storeFailureLog cl failedCM)
                               (thenE (createOrUpdateNodeStatus cl node fi (failedResult cm failedCM)) (ok ())))
                      else thenE (createOrUpdateNodeStatus cl node fi (succeededResult cm)) (ok ())) (\<lambda>_.
               thenE (Delete (cms cl) cm) (ok Done)))))"

definition ConfigMapReconcile :: "client \<Rightarrow> Env \<Rightarrow> NamespacedName \<Rightarrow> (error + Result) io" where
  "ConfigMapReconcile cl env request = do {
     r \<leftarrow> Get (cms cl) request;
     case r of
       Inl e \<Rightarrow> if IsNotFound e then ok Done else throw e
     | Inr inst \<Rightarrow>
         if IsAideConfig (Labels inst) then reconcileAideConfAndHandleReinitDs cl env inst
         else if IsIntegrityLog (Labels inst) then handleIntegrityLog cl inst
         else ok Done }"

section \<open>The status invariant\<close>

text \<open>
  One result per condition, so at most three, and none newer than the last result.
\<close>

definition wf_status :: "FileIntegrityNodeStatus \<Rightarrow> bool" where
  "wf_status ns \<longleftrightarrow> distinct (map Condition (Results ns)) \<and>
     (\<forall>r\<in>set (Results ns). LastProbeTime r \<le> LastProbeTime (LastResult ns))"

lemma wf_status_three: "wf_status ns \<Longrightarrow> length (Results ns) \<le> 3"
proof -
  assume "wf_status ns"
  then have "distinct (map Condition (Results ns))" by (simp add: wf_status_def)
  then have "length (Results ns) = card (set (map Condition (Results ns)))"
    using distinct_card by fastforce
  also have "\<dots> \<le> card {NodeConditionSucceeded, NodeConditionFailed, NodeConditionErrored}"
  proof (rule card_mono)
    show "set (map Condition (Results ns)) \<subseteq> {NodeConditionSucceeded, NodeConditionFailed, NodeConditionErrored}"
      using FileIntegrityNodeCondition.exhaust by blast
  qed simp
  finally show ?thesis by simp
qed

lemma filterLoop_results: "fst (filterLoop c rs acc ns) = acc @ filter (\<lambda>r. Condition r \<noteq> c) rs"
  by (induction rs arbitrary: acc ns) auto

lemma filterLoop_status:
  "\<forall>r\<in>set rs. LastProbeTime r \<le> LastProbeTime (LastResult ns) \<Longrightarrow> snd (filterLoop c rs acc ns) = ns"
  by (induction rs arbitrary: acc) (auto simp: isLatestScanResult_def)

lemma mergeResult_wf:
  assumes "wf_status ns"
  shows "mergeResult new ns = (let st = ns\<lparr>Results := filter (\<lambda>r. Condition r \<noteq> Condition new) (Results ns) @ [new]\<rparr>
     in (if isLatestScanResult new ns then st\<lparr>LastResult := new\<rparr> else st, ns))"
proof -
  have "snd (filterLoop (Condition new) (Results ns) [] ns) = ns"
    by (rule filterLoop_status) (use assms in \<open>simp add: wf_status_def\<close>)
  moreover have "fst (filterLoop (Condition new) (Results ns) [] ns) = filter (\<lambda>r. Condition r \<noteq> Condition new) (Results ns)"
    by (simp add: filterLoop_results)
  ultimately have "filterLoop (Condition new) (Results ns) [] ns = (filter (\<lambda>r. Condition r \<noteq> Condition new) (Results ns), ns)"
    by (metis prod.collapse)
  then show ?thesis by (simp add: mergeResult_def Let_def)
qed

lemma wf_mergeResult:
  assumes "wf_status ns"
  shows "wf_status (fst (mergeResult new ns))"
proof -
  have d: "distinct (map Condition (filter (\<lambda>r. Condition r \<noteq> Condition new) (Results ns) @ [new]))"
    using assms by (auto simp: wf_status_def distinct_map intro: inj_on_subset)
  show ?thesis unfolding mergeResult_wf [OF assms] Let_def
    using assms d by (auto simp: wf_status_def isLatestScanResult_def)
qed

lemma mergeResult_keeps [simp]:
  assumes "wf_status ns"
  shows "nsname (fst (mergeResult new ns)) = nsname ns" "NodeName (fst (mergeResult new ns)) = NodeName ns"
    "snd (mergeResult new ns) = ns"
  by (simp_all add: mergeResult_wf [OF assms] Let_def nsname_def)

text \<open>
  The outcome of recording a result: an error leaves every status as it was; success leaves a status
  that has the result, is well-formed, and whose last result is never older than the new one, and a
  gauge that tells a failed node from a healthy one.
\<close>

abbreviation status_key :: "FileIntegrity \<Rightarrow> string \<Rightarrow> NamespacedName" where
  "status_key inst node \<equiv> (Namespace inst, Name inst @ ''-'' @ node)"

definition gauge_agrees :: "Metrics \<Rightarrow> FileIntegrityNodeStatus \<Rightarrow> bool" where
  "gauge_agrees m ns \<longleftrightarrow>
     (Condition (LastResult ns) = NodeConditionFailed \<longrightarrow> gauge_value m (NodeName ns) \<noteq> 0) \<and>
     (Condition (LastResult ns) = NodeConditionSucceeded \<longrightarrow> gauge_value m (NodeName ns) \<noteq> 1)"

text \<open>How recording a result moves the gauges: only the one of the node, up on a failure, down on a success and not at all on an error.\<close>

definition gauge_set :: "Metrics \<Rightarrow> Metrics \<Rightarrow> FileIntegrityNodeStatus \<Rightarrow> bool" where
  "gauge_set m0 m ns \<longleftrightarrow> gauge_agrees m ns \<and>
     (Condition (LastResult ns) = NodeConditionErrored \<longrightarrow> gauge_value m (NodeName ns) = gauge_value m0 (NodeName ns)) \<and>
     (\<forall>n. n \<noteq> NodeName ns \<longrightarrow> gauge_value m n = gauge_value m0 n) \<and>
     (gauge_value m0 (NodeName ns) \<in> {0, 1} \<longrightarrow> gauge_value m (NodeName ns) \<in> {0, 1})"

lemma gauge_set_agrees: "gauge_set m0 m ns \<Longrightarrow> gauge_agrees m ns"
  by (simp add: gauge_set_def)

text \<open>The status under the key of a node, if there is one, is a status of that node.\<close>

definition named :: "FileIntegrity \<Rightarrow> string \<Rightarrow> world \<Rightarrow> bool" where
  "named inst node w \<longleftrightarrow> (\<forall>old. lookup (NodeStatuses w) (status_key inst node) = Some old \<longrightarrow> NodeName old = node)"

definition recorded :: "string \<Rightarrow> FileIntegrity \<Rightarrow> FileIntegrityScanResult \<Rightarrow> world \<Rightarrow> error option \<Rightarrow> world \<Rightarrow> bool" where
  "recorded node inst new w r w' \<longleftrightarrow> frame {} {} {} {status_key inst node} w w' \<and>
     (case r of Some e \<Rightarrow> \<not> is_panic e \<and> w' = w
      | None \<Rightarrow> (\<exists>ns. lookup (NodeStatuses w') (status_key inst node) = Some ns \<and> new \<in> set (Results ns) \<and>
          wf_status ns \<and> (named inst node w \<longrightarrow> NodeName ns = node \<and> gauge_set (metrics w) (metrics w') ns) \<and>
          (case lookup (NodeStatuses w) (status_key inst node) of
             None \<Rightarrow> Results ns = [new] \<and> LastResult ns = new
           | Some old \<Rightarrow> Results ns = filter (\<lambda>r. Condition r \<noteq> Condition new) (Results old) @ [new] \<and>
               LastResult ns = (if LastProbeTime new > LastProbeTime (LastResult old) then new else LastResult old))))"

lemma wp_events_only:
  "wp (createNodeStatusEvent inst ns) (\<lambda>_ w'. \<exists>es. w' = w\<lparr>events := es\<rparr>) w"
  by (cases "Condition (LastResult ns)") (auto simp: createNodeStatusEvent_def Let_def wp_Eventf)

lemma wp_metrics_agree:
  "wp (updateNodeStatusMetrics ns) (\<lambda>_ w'. \<exists>m. w' = w\<lparr>metrics := m\<rparr> \<and> gauge_set (metrics w) m ns) w"
  by (cases "Condition (LastResult ns)")
    (auto simp: updateNodeStatusMetrics_def wp_simps gauge_agrees_def gauge_set_def gauge_value_Good gauge_value_Bad)

lemma wp_report:
  "wp (do { updateNodeStatusMetrics ns; createNodeStatusEvent inst ns; State_Monad.return x })
     (\<lambda>r w'. r = x \<and> (\<exists>m es. w' = w\<lparr>metrics := m, events := es\<rparr> \<and> gauge_set (metrics w) m ns)) w"
  by (rule wp_bind_rule [OF wp_metrics_agree], rule wp_bind_rule [OF wp_events_only]) (auto simp: wp_return)

lemma quiet_gauge:
  assumes "\<not> conditionIsNewFailureOrTransition (gauge_value m (NodeName cur)) True prev cur"
  shows "gauge_set m m cur"
  using assms by (auto simp: conditionIsNewFailureOrTransition_def gauge_agrees_def gauge_set_def)

lemma gauge_set_served:
  assumes "served_meta ns (ns' :: FileIntegrityNodeStatus)"
  shows "gauge_set m0 m ns' = gauge_set m0 m ns" "wf_status ns' = wf_status ns"
  using served_nsD [OF assms] by (simp_all add: gauge_set_def gauge_agrees_def wf_status_def)

lemma readMetric_gauge [simp]:
  "readMetric (fst (GetFileIntegrityNodeStatus node m)) = Inr (gauge_value m node, True)"
  by (simp add: readMetric_def GetFileIntegrityNodeStatus_value)

lemma gauge_set_Get [simp]: "gauge_set m0 (snd (GetFileIntegrityNodeStatus n m)) ns = gauge_set m0 m ns"
  "gauge_set (snd (GetFileIntegrityNodeStatus n m0)) m ns = gauge_set m0 m ns"
  by (simp_all add: gauge_set_def gauge_agrees_def)

context kube_api
begin

lemma wp_createStatus:
  assumes "lookup (NodeStatuses w) (status_key inst node) = None"
    and "SetControllerReference_ns cl inst (initialStatus node inst new) = Inr ns"
  shows "wp (do { createErr \<leftarrow> Create (nss cl) ns;
       case createErr of Some e' \<Rightarrow> State_Monad.return (Some e')
       | None \<Rightarrow> do { updateNodeStatusMetrics ns; createNodeStatusEvent inst ns; State_Monad.return None } })
     (recorded node inst new w) w"
proof -
  from owner_ns [OF assms(2)] obtain refs where ns: "ns = initialStatus node inst new\<lparr>OwnerReferences := refs\<rparr>" ..
  then have key: "nsname ns = status_key inst node" and flds: "Results ns = [new]" "LastResult ns = new" "NodeName ns = node"
    by (simp_all add: initialStatus_def nsname_def)
  show ?thesis
  proof (simp only: wp_bind, rule ns.wp_Create, goal_cases)
    case (1 e)
    then show ?case by (simp add: wp_return recorded_def)
  next
    case (2 ns' os)
    have "frame {} {} {} {status_key inst node} w (w\<lparr>NodeStatuses := os\<rparr>)"
      using 2(3) by (rule frame_store(4)) (simp add: key)
    moreover have "gauge_set (metrics w) m ns \<Longrightarrow> gauge_set (metrics w) m ns'" for m using gauge_set_served(1) [OF 2(1)] by simp
    moreover note served_nsD [OF 2(1)] assms(1)
    ultimately show ?case unfolding option.case
      by (intro wp_conseq [OF wp_report]) (auto simp: recorded_def 2(3) key flds wf_status_def)
  qed
qed

lemma wp_updateStatus:
  assumes "lookup (NodeStatuses w) (status_key inst node) = Some old" and "wf_status old"
  shows "wp (let (statusCopy, nodeStatus) = mergeResult new old in do {
            updateErr \<leftarrow> Update (nss cl) statusCopy;
            case updateErr of Some e' \<Rightarrow> State_Monad.return (Some e')
            | None \<Rightarrow> do {
                w \<leftarrow> State_Monad.get;
                met (\<lambda>m. snd (GetFileIntegrityNodeStatus node m));
                (case readMetric (fst (GetFileIntegrityNodeStatus node (metrics w))) of
                   Inl e' \<Rightarrow> State_Monad.return (Some (Wrapped ''error getting FileIntegrityNodeStatus metric'' e'))
                 | Inr (metricValue, found) \<Rightarrow>
                     if conditionIsNewFailureOrTransition metricValue found nodeStatus statusCopy then do {
                       updateNodeStatusMetrics statusCopy;
                       createNodeStatusEvent inst statusCopy;
                       State_Monad.return None }
                     else State_Monad.return None) } }) (recorded node inst new w) w"
proof -
  obtain st where st: "mergeResult new old = (st, old)" using mergeResult_keeps(3) [OF assms(2)] by (metis prod.collapse)
  have key: "nsname st = status_key inst node" and name: "NodeName st = NodeName old"
    using mergeResult_keeps [OF assms(2), of new] st assms lookup_nsname [OF assms(1)] by simp_all
  have wf: "wf_status st" using wf_mergeResult [OF assms(2), of new] st by simp
  have flds: "Results st = filter (\<lambda>r. Condition r \<noteq> Condition new) (Results old) @ [new]"
    "LastResult st = (if LastProbeTime new > LastProbeTime (LastResult old) then new else LastResult old)"
    using mergeResult_wf [OF assms(2), of new] st by (auto simp: Let_def isLatestScanResult_def split: if_splits)
  show ?thesis unfolding st Let_def prod.case wp_bind
  proof (rule ns.wp_Update, goal_cases)
    case (1 e)
    then show ?case by (simp add: wp_return recorded_def)
  next
    case (2 ns' os)
    have f: "frame {} {} {} {status_key inst node} w (w\<lparr>NodeStatuses := os\<rparr>)"
      using 2(3) by (rule frame_store(4)) (simp add: key)
    have fin: "recorded node inst new w None (w\<lparr>NodeStatuses := os, metrics := m, events := es\<rparr>)"
      if "NodeName old = node \<longrightarrow> gauge_set (metrics w) m st" for m es
    proof -
      have "NodeName old = node \<longrightarrow> gauge_set (metrics w) m ns'" "wf_status ns'" using that wf gauge_set_served [OF 2(1)] by simp_all
      then show ?thesis using f served_nsD [OF 2(1)] flds name key assms(1) by (auto simp: recorded_def named_def 2(3))
    qed
    let ?m = "snd (GetFileIntegrityNodeStatus node (metrics w))"
    show ?case
    proof (cases "conditionIsNewFailureOrTransition (gauge_value (metrics w) node) True old st")
      case True
      show ?thesis
        by (simp add: True wp_bind [of _ "\<lambda>w. State_Monad.bind (met _) (f w)" for f] wp_get wp_met wp_bind [of "met _"])
          (rule wp_conseq [OF wp_report], use fin in auto)
    next
      case False
      then have "NodeName old = node \<longrightarrow> gauge_set (metrics w) ?m st" using quiet_gauge [of "metrics w" st old] name by auto
      from fin [OF this, of "events w"] False show ?thesis by (simp add: wp_simps)
    qed
  qed
qed

end

text \<open>Every stored status is well-formed.\<close>

definition statuses_ok :: "world \<Rightarrow> bool" where
  "statuses_ok w \<longleftrightarrow> (\<forall>k ns. lookup (NodeStatuses w) k = Some ns \<longrightarrow> wf_status ns)"

lemma statuses_ok_other [simp]:
  "statuses_ok (w\<lparr>ConfigMaps := cs\<rparr>) = statuses_ok w" "statuses_ok (w\<lparr>DaemonSets := ds\<rparr>) = statuses_ok w"
  "statuses_ok (w\<lparr>metrics := m\<rparr>) = statuses_ok w"
  by (simp_all add: statuses_ok_def)

definition failure_key :: "ConfigMap \<Rightarrow> NamespacedName" where
  "failure_key cm = (Namespace cm, Name cm @ ''-failed'')"

definition failure_log :: "ConfigMap \<Rightarrow> ConfigMap" where
  "failure_log cm = \<lparr>Name = Name cm @ ''-failed'', Namespace = Namespace cm,
     Labels = Some ((made (mdelete (Labels cm) IntegrityLogLabelKey))(IntegrityLogResultLabelKey \<mapsto> '''')),
     Annotations = Annotations cm, OwnerReferences = [], CreationTimestamp = 0, UID = '''', Data = Data cm\<rparr>"

text \<open>The scan result a log config map stands for.\<close>

definition result_of :: "ConfigMap \<Rightarrow> FileIntegrityScanResult" where
  "result_of cm = (if IsIntegrityLogAnError cm then erroredResult cm
     else if IsIntegrityLogAFailure cm then failedResult cm (failure_log cm) else succeededResult cm)"

lemma recorded_statuses_ok:
  assumes "recorded node inst new w r w'" and "statuses_ok w"
  shows "statuses_ok w'"
  unfolding statuses_ok_def
proof (intro allI impI)
  fix k ns assume ns: "lookup (NodeStatuses w') k = Some ns"
  show "wf_status ns"
  proof (cases "k = status_key inst node")
    case True
    with assms ns show ?thesis by (cases r) (auto simp: recorded_def statuses_ok_def)
  next
    case False
    have "lookup (NodeStatuses w') k = lookup (NodeStatuses w) k"
      by (rule frame_keeps(4) [of "{}" "{}" "{}" "{status_key inst node}"]) (use assms(1) False in \<open>simp_all add: recorded_def\<close>)
    with ns assms(2) show ?thesis unfolding statuses_ok_def by metis
  qed
qed

lemma getConfigMapForFailureLog_ok: "Labels cm \<noteq> None \<Longrightarrow> getConfigMapForFailureLog cm = Inr (failure_log cm)"
  by (auto simp: getConfigMapForFailureLog_def failure_log_def mput_def mdelete_def)

lemma failure_log_key [simp]: "nsname (failure_log cm) = failure_key cm"
  by (simp add: failure_log_def failure_key_def nsname_def)

lemma failure_key_other [simp]: "failure_key cm \<noteq> nsname cm" "nsname cm \<noteq> failure_key cm"
  by (simp_all add: failure_key_def nsname_def)

context kube_api
begin

lemma wp_createOrUpdateNodeStatus:
  assumes "statuses_ok w"
  shows "wp (createOrUpdateNodeStatus cl node inst new) (recorded node inst new w) w"
  unfolding createOrUpdateNodeStatus_def
proof (simp only: wp_bind, rule ns.wp_Get, goal_cases)
  case (1 e)
  show ?case
  proof (cases "IsNotFound e")
    case True
    with 1 have none: "lookup (NodeStatuses w) (status_key inst node) = None" by simp
    show ?thesis
    proof (cases "SetControllerReference_ns cl inst (initialStatus node inst new)")
      case (Inl e')
      with True owner_errors(2) [OF Inl] show ?thesis by (simp add: wp_return recorded_def)
    next
      case (Inr ns)
      with True wp_createStatus [OF none Inr] show ?thesis by simp
    qed
  qed (use 1 in \<open>simp add: wp_return recorded_def\<close>)
next
  case (2 old)
  then have "wf_status old" using assms by (simp add: statuses_ok_def)
  then show ?case unfolding sum.case by (rule wp_updateStatus [OF 2(1)])
qed

text \<open>The failure log is stored or nothing is written.\<close>

lemma wp_storeFailureLog:
  "wp (storeFailureLog cl (failure_log cm)) (\<lambda>r w'. frame {failure_key cm} {} {} {} w w' \<and> NodeStatuses w' = NodeStatuses w \<and>
     (case r of Some e \<Rightarrow> \<not> is_panic e
      | None \<Rightarrow> \<exists>f. lookup (ConfigMaps w') (failure_key cm) = Some f \<and> served_cm (failure_log cm) f)) w"
  unfolding storeFailureLog_def
proof (simp only: wp_bind, rule cm.wp_Create, goal_cases)
  case (1 e)
  show ?case
  proof (cases "IsAlreadyExists e")
    case True
    show ?thesis by (simp add: True, rule cm.wp_Update) (auto intro: frame_store(1))
  qed (use 1 in \<open>simp add: wp_return\<close>)
next
  case (2 f os)
  then show ?case by (auto simp: wp_return intro: frame_store(1))
qed

end

text \<open>
  The outcome of handling a log: it is deleted only after its result is in the node status (and, for a
  failure, its contents are in the failure log); on an error it is still there.
\<close>

definition log_frame :: "ConfigMap \<Rightarrow> FileIntegrity \<Rightarrow> string \<Rightarrow> world \<Rightarrow> world \<Rightarrow> bool" where
  "log_frame cm fi node w w' \<longleftrightarrow> frame {nsname cm, failure_key cm} {} {} {status_key fi node} w w'"

definition log_kept :: "ConfigMap \<Rightarrow> world \<Rightarrow> bool" where
  "log_kept cm w \<longleftrightarrow> \<not> IsIntegrityLogAnError cm \<and> IsIntegrityLogAFailure cm \<longrightarrow>
     (\<exists>f. lookup (ConfigMaps w) (failure_key cm) = Some f \<and> served_cm (failure_log cm) f)"

definition log_stored :: "ConfigMap \<Rightarrow> FileIntegrity \<Rightarrow> string \<Rightarrow> world \<Rightarrow> error + unit \<Rightarrow> world \<Rightarrow> bool" where
  "log_stored cm fi node w r w' \<longleftrightarrow> log_frame cm fi node w w' \<and> statuses_ok w' \<and>
     lookup (ConfigMaps w') (nsname cm) = lookup (ConfigMaps w) (nsname cm) \<and>
     (case r of Inl e \<Rightarrow> \<not> is_panic e
      | Inr _ \<Rightarrow> log_kept cm w' \<and>
          (\<exists>ns. lookup (NodeStatuses w') (status_key fi node) = Some ns \<and> result_of cm \<in> set (Results ns) \<and>
             wf_status ns \<and> (named fi node w \<longrightarrow> gauge_agrees (metrics w') ns)))"

context kube_api
begin

lemma wp_record_log:
  assumes "statuses_ok w1" and "log_frame cm fi node w w1" and "log_kept cm w1" and "NodeStatuses w1 = NodeStatuses w"
    and "lookup (ConfigMaps w1) (nsname cm) = lookup (ConfigMaps w) (nsname cm)"
  shows "wp (thenE (createOrUpdateNodeStatus cl node fi (result_of cm)) (ok ())) (log_stored cm fi node w) w1"
proof (rule wp_thenE_rule [OF wp_createOrUpdateNodeStatus [OF assms(1)]], goal_cases)
  case (1 e w2)
  with assms show ?case by (simp add: recorded_def log_stored_def)
next
  case (2 w2)
  then have ok2: "statuses_ok w2" using recorded_statuses_ok assms(1) by blast
  from 2 have f: "frame {} {} {} {status_key fi node} w1 w2" by (simp add: recorded_def)
  then have cms: "lookup (ConfigMaps w2) k = lookup (ConfigMaps w1) k" for k using frame_keeps(1) by simp
  from f have "log_frame cm fi node w w2"
    unfolding log_frame_def by (intro frame_trans [OF assms(2) [unfolded log_frame_def]]) (rule frame_mono, auto)
  with 2 assms(3-5) cms ok2 show ?case by (auto simp: wp_ok recorded_def log_stored_def log_kept_def named_def gauge_set_agrees)
qed

lemma wp_storeLog:
  assumes "statuses_ok w" and "Labels cm \<noteq> None"
  shows "wp (if IsIntegrityLogAnError cm then thenE (createOrUpdateNodeStatus cl node fi (erroredResult cm)) (ok ())
      else if IsIntegrityLogAFailure cm then
        (case getConfigMapForFailureLog cm of Inl e \<Rightarrow> throw e
         | Inr failedCM \<Rightarrow>
             thenE (storeFailureLog cl failedCM)
               (thenE (createOrUpdateNodeStatus cl node fi (failedResult cm failedCM)) (ok ())))
      else thenE (createOrUpdateNodeStatus cl node fi (succeededResult cm)) (ok ())) (log_stored cm fi node w) w"
proof (cases "\<not> IsIntegrityLogAnError cm \<and> IsIntegrityLogAFailure cm")
  case False
  then have "log_kept cm w" by (auto simp: log_kept_def)
  from wp_record_log [OF assms(1) _ this refl refl] False show ?thesis by (auto simp: log_frame_def result_of_def)
next
  case True
  then have res: "result_of cm = failedResult cm (failure_log cm)" by (simp add: result_of_def)
  have "wp (thenE (storeFailureLog cl (failure_log cm))
      (thenE (createOrUpdateNodeStatus cl node fi (result_of cm)) (ok ()))) (log_stored cm fi node w) w"
  proof (rule wp_thenE_rule [OF wp_storeFailureLog], goal_cases)
    case (1 e w1)
    then have "log_frame cm fi node w w1" by (auto simp: log_frame_def intro: frame_mono)
    moreover have "lookup (ConfigMaps w1) (nsname cm) = lookup (ConfigMaps w) (nsname cm)"
      using 1 frame_keeps(1) by (metis failure_key_other(2) singletonD)
    moreover have "statuses_ok w1" using 1 assms(1) by (simp add: statuses_ok_def)
    ultimately show ?case using 1 by (simp add: log_stored_def)
  next
    case (2 w1)
    have "log_frame cm fi node w w1" using 2 by (auto simp: log_frame_def intro: frame_mono)
    moreover have "lookup (ConfigMaps w1) (nsname cm) = lookup (ConfigMaps w) (nsname cm)"
      using 2 frame_keeps(1) by (metis failure_key_other(2) singletonD)
    moreover have "log_kept cm w1" using 2 by (simp add: log_kept_def)
    moreover have "NodeStatuses w1 = NodeStatuses w" using 2 by simp
    moreover have "statuses_ok w1" using 2 assms(1) by (simp add: statuses_ok_def)
    ultimately show ?case by (intro wp_record_log)
  qed
  with True res getConfigMapForFailureLog_ok [OF assms(2)] show ?thesis by simp
qed

end

definition log_handled :: "ConfigMap \<Rightarrow> world \<Rightarrow> error + Result \<Rightarrow> world \<Rightarrow> bool" where
  "log_handled cm w r w' \<longleftrightarrow>
     (case r of
        Inl e \<Rightarrow> \<not> is_panic e \<and> lookup (ConfigMaps w') (nsname cm) = lookup (ConfigMaps w) (nsname cm)
      | Inr res \<Rightarrow> res = Done \<and>
          (w' = w \<and> (mget (Labels cm) IntegrityOwnerLabelKey = None \<or> mget (Labels cm) IntegrityConfigMapNodeLabelKey = None)
           \<or> lookup (ConfigMaps w') (nsname cm) = None \<and> log_kept cm w' \<and>
             (\<exists>owner node fi ns. mget (Labels cm) IntegrityOwnerLabelKey = Some owner \<and>
                mget (Labels cm) IntegrityConfigMapNodeLabelKey = Some node \<and>
                lookup (FileIntegrities w) (Namespace cm, owner) = Some fi \<and>
                lookup (NodeStatuses w') (status_key fi node) = Some ns \<and> result_of cm \<in> set (Results ns) \<and>
                wf_status ns \<and> (named fi node w \<longrightarrow> gauge_agrees (metrics w') ns)))) \<and>
     statuses_ok w' \<and> (\<exists>N. frame {nsname cm, failure_key cm} {} {} N w w')"

context kube_api
begin

lemma wp_delete_log:
  assumes "log_stored cm fi node w (Inr u) w1" and "lookup (FileIntegrities w) (Namespace cm, owner) = Some fi"
    and "mget (Labels cm) IntegrityOwnerLabelKey = Some owner" "mget (Labels cm) IntegrityConfigMapNodeLabelKey = Some node"
  shows "wp (thenE (Delete (cms cl) cm) (ok Done)) (log_handled cm w) w1"
proof (simp only: wp_thenE, rule cm.wp_Delete, goal_cases)
  case (1 e)
  with assms(1) show ?case by (auto simp: log_handled_def log_stored_def log_frame_def)
next
  case (2 os)
  have "frame {nsname cm, failure_key cm} {} {} {status_key fi node} w (w1\<lparr>ConfigMaps := os\<rparr>)"
    by (rule frame_then_store(1) [OF _ 2(2)]) (use assms(1) in \<open>simp_all add: log_stored_def log_frame_def\<close>)
  with 2 assms show ?case
    by (auto simp: wp_ok log_handled_def log_stored_def log_kept_def simp del: split_paired_All split_paired_Ex)
qed

lemma wp_handleIntegrityLog:
  assumes "statuses_ok w"
  shows "wp (handleIntegrityLog cl cm) (log_handled cm w) w"
proof (cases "mget (Labels cm) IntegrityOwnerLabelKey")
  case None
  with assms show ?thesis by (auto simp: handleIntegrityLog_def GetConfigMapOwnerName_def wp_ok log_handled_def)
next
  case owner: (Some owner)
  show ?thesis
  proof (cases "mget (Labels cm) IntegrityConfigMapNodeLabelKey")
    case None
    with owner assms show ?thesis
      by (auto simp: handleIntegrityLog_def GetConfigMapOwnerName_def GetConfigMapNodeName_def wp_ok log_handled_def)
  next
    case node: (Some node)
    have labels: "Labels cm \<noteq> None" using owner by (cases "Labels cm") simp_all
    have names: "GetConfigMapOwnerName cm = Inr owner" "GetConfigMapNodeName cm = Inr node"
      using owner node by (simp_all add: GetConfigMapOwnerName_def GetConfigMapNodeName_def)
    show ?thesis unfolding handleIntegrityLog_def names sum.case wp_bindE [of "Get (fis cl) _"]
    proof (rule fi.wp_Get, goal_cases)
      case (1 e)
      with assms show ?case by (auto simp: log_handled_def)
    next
      case stored: (2 fi)
      note stored = stored(1)
      show ?case unfolding sum.case
      proof (rule wp_bindE_rule [OF wp_storeLog [OF assms labels]], goal_cases)
        case (1 e w1)
        then show ?case by (auto simp: log_stored_def log_handled_def log_frame_def)
      next
        case (2 u w1)
        then show ?case using wp_delete_log [OF _ stored owner node] by simp
      qed
    qed
  qed
qed

end

section \<open>Re-inits, step by step\<close>

definition popped :: "string list \<Rightarrow> string option" where
  "popped nodeList = (if length nodeList > 1 then Some (Join (butlast nodeList) '','') else None)"

text \<open>
  The outcome of waiting for a re-init daemon set: no daemon set, try again; not ready, look again in a
  second; ready, the daemon set is gone, the node is off the mark and the data is kept.
\<close>

definition reinit_finished :: "Env \<Rightarrow> ConfigMap \<Rightarrow> string \<Rightarrow> string list \<Rightarrow> world \<Rightarrow> error + Result \<Rightarrow> world \<Rightarrow> bool" where
  "reinit_finished env inst dsName nodeList w r w' \<longleftrightarrow>
     frame {nsname inst} {(FileIntegrityNamespace env, dsName)} {} {} w w' \<and>
     (case r of Inl e \<Rightarrow> \<not> is_panic e
      | Inr res \<Rightarrow>
          (case lookup (DaemonSets w) (FileIntegrityNamespace env, dsName) of
             None \<Rightarrow> res = Again \<and> w' = w
           | Some ds \<Rightarrow>
               if \<not> DaemonSetIsReady ds then res = \<lparr>Requeue = False, RequeueAfter = 1000000000\<rparr> \<and> w' = w
               else res = Done \<and> lookup (DaemonSets w') (FileIntegrityNamespace env, dsName) = None \<and>
                 (\<exists>cm. lookup (ConfigMaps w') (nsname inst) = Some cm \<and>
                    mget (Annotations cm) AideConfigUpdatedAnnotationKey = popped nodeList \<and>
                    (\<forall>k. mget (Data cm) k = mget (Data inst) k) \<and> (\<forall>k. mget (Labels cm) k = mget (Labels inst) k))))"

context kube_api
begin

lemma wp_finishReinit:
  assumes "Annotations inst = Some a"
  shows "wp (finishReinit cl env inst dsName nodeList) (reinit_finished env inst dsName nodeList w) w"
  unfolding finishReinit_def
proof (simp only: wp_bind, rule ds.wp_Get, goal_cases)
  case (1 e)
  then show ?case
    by (cases "lookup (DaemonSets w) (FileIntegrityNamespace env, dsName)") (auto simp: wp_simps reinit_finished_def)
next
  case (2 ds)
  show ?case
  proof (cases "DaemonSetIsReady ds")
    case False
    with 2 show ?thesis by (simp add: wp_simps reinit_finished_def)
  next
    case True
    let ?ann = "if length nodeList > 1 then Some (a(AideConfigUpdatedAnnotationKey \<mapsto> Join (butlast nodeList) '',''))
        else Some (a(AideConfigUpdatedAnnotationKey := None))"
    have ann: "(if length nodeList > 1 then mput (Annotations inst) AideConfigUpdatedAnnotationKey (Join (butlast nodeList) '','')
        else Some (mdelete (Annotations inst) AideConfigUpdatedAnnotationKey)) = Some ?ann"
      by (simp add: assms mput_def mdelete_def)
    have read: "DaemonSetIsReady ds \<longleftrightarrow> True" using True by simp
    show ?thesis unfolding sum.case read not_True_eq_False if_False wp_thenE [of "Delete _ _"] ann
    proof (rule ds.wp_Delete, goal_cases)
      case (1 e)
      with 2 show ?case by (simp add: reinit_finished_def)
    next
      case del: (2 os)
      let ?w1 = "w\<lparr>DaemonSets := os\<rparr>"
      have f1: "frame {nsname inst} {(FileIntegrityNamespace env, dsName)} {} {} w ?w1"
        using del(2) by (rule frame_store(2)) (use 2 in simp)
      show ?case unfolding option.case wp_bind wp_met wp_thenE
      proof (rule cm.wp_Update, goal_cases)
        case (1 e)
        with f1 show ?case by (simp add: reinit_finished_def)
      next
        case upd: (2 cm' cs)
        have "frame {nsname inst} {(FileIntegrityNamespace env, dsName)} {} {} w
            (?w1\<lparr>metrics := IncFileIntegrityReinitDaemonsetDelete (metrics ?w1), ConfigMaps := cs\<rparr>)"
          by (rule frame_then_store(1) [OF _ upd(3)]) (use f1 in simp_all)
        with 2 del True upd(3) served_cmD [OF upd(1)] show ?case
          by (simp add: wp_ok reinit_finished_def popped_def)
      qed
    qed
  qed
qed

end

text \<open>The clean-up removes only daemon sets of another name from its list, and all of them on success.\<close>

definition cleaned :: "string \<Rightarrow> DaemonSet list \<Rightarrow> world \<Rightarrow> error option \<Rightarrow> world \<Rightarrow> bool" where
  "cleaned dsName items w r w' \<longleftrightarrow> frame {} (nsname ` {ds \<in> set items. Name ds \<noteq> dsName}) {} {} w w' \<and>
     ConfigMaps w' = ConfigMaps w \<and> lookup (DaemonSets w') \<subseteq>\<^sub>m lookup (DaemonSets w) \<and>
     (case r of Some e \<Rightarrow> \<not> is_panic e
      | None \<Rightarrow> \<forall>ds\<in>set items. Name ds \<noteq> dsName \<longrightarrow> lookup (DaemonSets w') (nsname ds) = None)"

lemma map_le_del: "m(k := None) \<subseteq>\<^sub>m m"
  by (simp add: map_le_def)

lemma map_le_None: "m \<subseteq>\<^sub>m m' \<Longrightarrow> m' k = None \<Longrightarrow> m k = None"
  by (auto simp: map_le_def dom_def)

lemma cleaned_step:
  assumes "cleaned dsName rest w1 r w'" and "Name ds \<noteq> dsName" and "lookup (DaemonSets w1) (nsname ds) = None"
    and "frame {} {nsname ds} {} {} w w1" and "ConfigMaps w1 = ConfigMaps w" and "lookup (DaemonSets w1) \<subseteq>\<^sub>m lookup (DaemonSets w)"
  shows "cleaned dsName (ds # rest) w r w'"
proof -
  let ?D = "nsname ` {d \<in> set (ds # rest). Name d \<noteq> dsName}"
  have "frame {} ?D {} {} w w1" by (rule frame_mono [OF assms(4)]) (use assms(2) in auto)
  moreover have "frame {} ?D {} {} w1 w'"
    by (rule frame_mono [of "{}" "nsname ` {d \<in> set rest. Name d \<noteq> dsName}"]) (use assms(1) in \<open>auto simp: cleaned_def\<close>)
  ultimately have "frame {} ?D {} {} w w'" by (rule frame_trans)
  moreover have le: "lookup (DaemonSets w') \<subseteq>\<^sub>m lookup (DaemonSets w1)" using assms(1) by (simp add: cleaned_def)
  moreover have "lookup (DaemonSets w') \<subseteq>\<^sub>m lookup (DaemonSets w)" using map_le_trans [OF le assms(6)] .
  moreover have "lookup (DaemonSets w') (nsname ds) = None" using map_le_None [OF le assms(3)] .
  ultimately show ?thesis using assms(1,5) by (auto simp: cleaned_def split: option.splits)
qed

context kube_api
begin

lemma wp_cleanupLoop: "wp (cleanupLoop cl dsName items) (cleaned dsName items w) w"
proof (induction items arbitrary: w)
  case Nil
  then show ?case by (simp add: wp_return cleaned_def)
next
  case (Cons ds rest)
  show ?case
  proof (cases "Name ds = dsName")
    case True
    then have "{d \<in> set (ds # rest). Name d \<noteq> dsName} = {d \<in> set rest. Name d \<noteq> dsName}" by auto
    with True show ?thesis by (simp, intro wp_conseq [OF Cons.IH]) (auto simp: cleaned_def split: option.splits)
  next
    case False
    then have off: "Name ds \<noteq> dsName" .
    show ?thesis unfolding cleanupLoop.simps if_P [OF off] wp_bind
    proof (rule ds.wp_Delete, goal_cases)
      case (1 e)
      show ?case
      proof (cases "IsNotFound e")
        case True
        with 1 have "lookup (DaemonSets w) (nsname ds) = None" by simp
        then show ?thesis using True off
          by (simp, intro wp_conseq [OF Cons.IH]) (rule cleaned_step, auto)
      next
        case False
        with 1 show ?thesis by (simp add: wp_return cleaned_def)
      qed
    next
      case (2 os)
      let ?w1 = "w\<lparr>DaemonSets := os, metrics := IncFileIntegrityReinitDaemonsetDelete (metrics w)\<rparr>"
      have "frame {} {nsname ds} {} {} w ?w1" "lookup (DaemonSets ?w1) \<subseteq>\<^sub>m lookup (DaemonSets w)"
        using 2(2) by (auto intro: frame_store(2) map_le_del)
      then show ?case using 2(2) off
        by (simp add: wp_bind wp_met, intro wp_conseq [OF Cons.IH [of ?w1]])
          (rule cleaned_step [of _ _ ?w1], simp_all)
    qed
  qed
qed

end

text \<open>The outcome for a marked AIDE config map whose FileIntegrity exists.\<close>

definition marked_handled :: "Env \<Rightarrow> ConfigMap \<Rightarrow> FileIntegrity \<Rightarrow> string \<Rightarrow> string list \<Rightarrow> world \<Rightarrow> error + Result \<Rightarrow> world \<Rightarrow> bool" where
  "marked_handled env inst fi node nodeList w r w' \<longleftrightarrow>
     (\<exists>D. frame {nsname inst} D {} {} w w') \<and>
     (case r of Inl e \<Rightarrow> \<not> is_panic e
      | Inr res \<Rightarrow>
          (case lookup (DaemonSets w) (reinit_key env fi node) of
             None \<Rightarrow> res = Again \<and> ConfigMaps w' = ConfigMaps w
           | Some ds \<Rightarrow>
               if \<not> DaemonSetIsReady ds
               then res = \<lparr>Requeue = False, RequeueAfter = 1000000000\<rparr> \<and> ConfigMaps w' = ConfigMaps w \<and>
                 lookup (DaemonSets w') (reinit_key env fi node) = Some ds
               else res = Done \<and> lookup (DaemonSets w') (reinit_key env fi node) = None \<and>
                 (\<exists>cm. lookup (ConfigMaps w') (nsname inst) = Some cm \<and>
                    mget (Annotations cm) AideConfigUpdatedAnnotationKey = popped nodeList \<and>
                    (\<forall>k. mget (Data cm) k = mget (Data inst) k) \<and> (\<forall>k. mget (Labels cm) k = mget (Labels inst) k))))"

lemma marked_handled_finish:
  assumes "reinit_finished env inst (ReinitDaemonSetNodeName (Name fi) node) nodeList w1 r w'"
    and "lookup (DaemonSets w1) (reinit_key env fi node) = lookup (DaemonSets w) (reinit_key env fi node)"
    and "ConfigMaps w1 = ConfigMaps w" and "frame {} D {} {} w w1"
  shows "marked_handled env inst fi node nodeList w r w'"
proof -
  let ?D = "insert (reinit_key env fi node) D"
  have "frame {nsname inst} ?D {} {} w w1" by (rule frame_mono [OF assms(4)]) auto
  moreover have "frame {nsname inst} ?D {} {} w1 w'"
    by (rule frame_mono [of "{nsname inst}" "{reinit_key env fi node}"]) (use assms(1) in \<open>auto simp: reinit_finished_def\<close>)
  ultimately have "frame {nsname inst} ?D {} {} w w'" by (rule frame_trans)
  then have "\<exists>D. frame {nsname inst} D {} {} w w'" by (rule exI)
  with assms(1-3) show ?thesis
    by (auto simp: reinit_finished_def marked_handled_def split: sum.splits option.splits if_splits)
qed

context kube_api
begin

lemma wp_finish_marked:
  assumes "Annotations inst = Some a" and "lookup (FileIntegrities w) (Namespace inst, owner) = Some fi"
    and "lookup (DaemonSets w1) (reinit_key env fi node) = lookup (DaemonSets w) (reinit_key env fi node)"
    and "ConfigMaps w1 = ConfigMaps w" and "frame {} D {} {} w w1"
  shows "wp (finishReinit cl env inst (ReinitDaemonSetNodeName (Name fi) node) nodeList) (\<lambda>r w'.
     (case r of Inl e \<Rightarrow> \<not> is_panic e \<and> (\<exists>D. frame {nsname inst} D {} {} w w')
      | Inr res \<Rightarrow> \<exists>fi. lookup (FileIntegrities w) (Namespace inst, owner) = Some fi \<and>
          marked_handled env inst fi node nodeList w (Inr res) w')) w1"
proof (rule wp_conseq [OF wp_finishReinit [OF assms(1)]], goal_cases)
  case (1 r w')
  from marked_handled_finish [OF 1 assms(3-5)] assms(2) show ?case
    by (cases r) (auto simp: marked_handled_def)
qed

lemma wp_reconcileAideConf:
  assumes "mget (Annotations inst) AideConfigUpdatedAnnotationKey = Some v" and "updatedNodes v = (node, nodeList)"
    and "mget (Labels inst) IntegrityOwnerLabelKey = Some owner"
  shows "wp (reconcileAideConfAndHandleReinitDs cl env inst) (\<lambda>r w'.
     (case r of Inl e \<Rightarrow> \<not> is_panic e \<and> (\<exists>D. frame {nsname inst} D {} {} w w')
      | Inr res \<Rightarrow> \<exists>fi. lookup (FileIntegrities w) (Namespace inst, owner) = Some fi \<and>
          marked_handled env inst fi node nodeList w (Inr res) w')) w"
proof -
  obtain a where a: "Annotations inst = Some a" using assms(1) by (cases "Annotations inst") auto
  have names: "GetConfigMapOwnerName inst = Inr owner" using assms(3) by (simp add: GetConfigMapOwnerName_def)
  show ?thesis unfolding reconcileAideConfAndHandleReinitDs_def assms(1) option.case assms(2) names Let_def prod.case sum.case
    wp_bindE [of "Get (fis cl) _"]
  proof (rule fi.wp_Get, goal_cases)
    case (1 e)
    then show ?case by auto
  next
    case fi: (2 fi)
    let ?n = "ReinitDaemonSetNodeName (Name fi) node"
    note finish = wp_finish_marked [OF a fi(1)]
    show ?case
    proof (cases "node = ''''")
      case False
      then show ?thesis using finish [of w env node "{}"] by simp
    next
      case True
      show ?thesis unfolding sum.case if_P [OF True] wp_bindE [of "ListObjs _ _"]
      proof (rule ds.wp_List, goal_cases)
        case (1 e)
        then show ?case by auto
      next
        case (2 items)
        show ?case unfolding sum.case
        proof (rule wp_thenE_rule [OF wp_cleanupLoop], goal_cases)
          case (1 e w1)
          then have "frame {nsname inst} (nsname ` {ds \<in> set items. Name ds \<noteq> ?n}) {} {} w w1"
            by (auto simp: cleaned_def intro: frame_mono)
          with 1 show ?case by (auto simp: cleaned_def)
        next
          case (2 w1)
          then have f: "frame {} (nsname ` {ds \<in> set items. Name ds \<noteq> ?n}) {} {} w w1" by (simp add: cleaned_def)
          have "lookup (DaemonSets w1) (reinit_key env fi node) = lookup (DaemonSets w) (reinit_key env fi node)"
            by (rule frame_keeps(2) [OF f]) (auto simp: nsname_def)
          with 2 f show ?case by (intro finish) (simp_all add: cleaned_def)
        qed
      qed
    qed
  qed
qed

end

context kube_api
begin

lemma wp_aide_config:
  assumes "statuses_ok w"
  shows "wp (reconcileAideConfAndHandleReinitDs cl env inst) (\<lambda>r w'. statuses_ok w' \<and> (\<forall>e. r = Inl e \<longrightarrow> \<not> is_panic e) \<and>
     (\<exists>C D N. frame C D {} N w w')) w"
proof (cases "mget (Annotations inst) AideConfigUpdatedAnnotationKey")
  case None
  with assms show ?thesis by (auto simp: reconcileAideConfAndHandleReinitDs_def wp_ok)
next
  case (Some v)
  obtain node nodeList where nodes: "updatedNodes v = (node, nodeList)" by fastforce
  show ?thesis
  proof (cases "mget (Labels inst) IntegrityOwnerLabelKey")
    case None
    with assms Some nodes show ?thesis
      by (auto simp: reconcileAideConfAndHandleReinitDs_def GetConfigMapOwnerName_def wp_throw)
  next
    case owner: (Some owner)
    show ?thesis
    proof (rule wp_conseq [OF wp_reconcileAideConf [OF Some nodes owner]], goal_cases)
      case (1 r w')
      then obtain D where f: "frame {nsname inst} D {} {} w w'" by (cases r) (auto simp: marked_handled_def)
      have "lookup (NodeStatuses w') k = lookup (NodeStatuses w) k" for k using frame_keeps(4) [OF f] by simp
      with assms have "statuses_ok w'" by (simp add: statuses_ok_def)
      with 1 f show ?case by (cases r) auto
    qed
  qed
qed

lemma wp_ConfigMapReconcile:
  assumes "statuses_ok w"
  shows "wp (ConfigMapReconcile cl env request) (\<lambda>r w'. statuses_ok w' \<and> (\<forall>e. r = Inl e \<longrightarrow> \<not> is_panic e) \<and>
     (\<exists>C D N. frame C D {} N w w')) w"
  unfolding ConfigMapReconcile_def
proof (simp only: wp_bind, rule cm.wp_Get, goal_cases)
  case (1 e)
  with assms show ?case by (auto simp: wp_simps)
next
  case (2 cm)
  have "wp (handleIntegrityLog cl cm) (\<lambda>r w'. statuses_ok w' \<and> (\<forall>e. r = Inl e \<longrightarrow> \<not> is_panic e) \<and>
     (\<exists>C D N. frame C D {} N w w')) w"
    by (rule wp_conseq [OF wp_handleIntegrityLog [OF assms]]) (auto simp: log_handled_def)
  with assms wp_aide_config [OF assms] show ?case by (auto simp: wp_ok)
qed

end

end
