(* ===== verification/FI_Properties.thy ===== *)
theory FI_Properties
  imports FI_Controller
begin

text \<open>
  The properties of the FileIntegrity controller, for every client that obeys the laws of
  \<open>kube_api\<close>, whatever calls fail. The witnesses run against the in-memory server.
\<close>

section \<open>A small cluster\<close>

definition sample_world :: world where
  "sample_world = \<lparr>ConfigMaps = [aideReinitScript sample_env, aidePauseScript sample_env, defaultAIDEConfigMap sample_env ''f''],
     DaemonSets = [], FileIntegrities = [sample_fi], NodeStatuses = [], Nodes = [], Pods = [], PriorityClasses = [],
     Deployments = [\<lparr>Name = ''file-integrity-operator'', Namespace = ''ns'', Labels = None, Annotations = None,
       OwnerReferences = [], CreationTimestamp = 0, UID = '''',
       depContainers = [\<lparr>cSecurityContext = None, cName = ''operator'', cImage = ''img:1'', cCommand = [], cArgs = [],
         cEnv = [], cVolumeMounts = [], cResources = small_resources\<rparr>]\<rparr>],
     metrics = NewControllerMetrics, events = []\<rparr>"

lemmas run_simps = bindE_def thenE_def throw_def ok_def met_def Eventf_def State_Monad.update_def
  mem_client_def mem_api_def no_faults_def nsname_def Let_def

lemma sample_sel [simp]:
  "Name sample_fi = ''f''" "Namespace sample_fi = ''ns''" "Annotations sample_fi = None"
  "PriorityClassName (fiSpec sample_fi) = ''''" "cfgName (Config (fiSpec sample_fi)) = ''''"
  "InitialDelay (Config (fiSpec sample_fi)) = 0" "CreationTimestamp sample_fi = 0"
  "FileIntegrityNamespace sample_env = ''ns''"
  by (simp_all add: sample_fi_def sample_env_def)

lemma script_sel [simp]:
  "Name (aideReinitScript env) = ''aide-reinit''" "Namespace (aideReinitScript env) = FileIntegrityNamespace env"
  "Name (aidePauseScript env) = ''aide-pause''" "Namespace (aidePauseScript env) = FileIntegrityNamespace env"
  "Name (defaultAIDEConfigMap env n) = n" "Namespace (defaultAIDEConfigMap env n) = FileIntegrityNamespace env"
  "Data (defaultAIDEConfigMap env n) = Some [DefaultConfDataKey \<mapsto> GetAideConfigDefault env]"
  "mget (Labels (defaultAIDEConfigMap env n)) IntegrityOwnerLabelKey = Some n"
  by (simp_all add: aideReinitScript_def aidePauseScript_def defaultAIDEConfigMap_def key_defs)

lemma scripts_match_self [simp]:
  "dataMatchesReinitScript env (aideReinitScript env)" "dataMatchesPauseScript env (aidePauseScript env)"
  by (simp_all add: dataMatchesReinitScript_def dataMatchesPauseScript_def configMapKeyDataMatches_def)

lemma sample_reconcile:
  "\<exists>w'. run_state (FileIntegrityControllerReconcile (mem_client no_faults) sample_env 1 (''ns'', ''f'')) sample_world = (Inr Done, w')"
  by (simp add: FileIntegrityControllerReconcile_def reconcilePriorityClass_def getOperatorDeploymentImage_def
      handleDefaultConfigMaps_def handleScriptConfigMap_def reconcileUserConfig_def aideConfigIsDefault_def
      configMapKeyDataMatches_def reconcileReinit_def no_reinit_request reconcileDaemonSet_def deleteLegacyDaemonSets_def
      delayTime_def int64_id sample_world_def run_simps
      AideReinitScriptConfigMapName_def PauseConfigMapName_def)

lemma sample_stored:
  "\<forall>k ds. lookup (DaemonSets sample_world) k = Some ds \<longrightarrow> has_container ds"
  "lookup (FileIntegrities sample_world) (''ns'', ''f'') = Some sample_fi"
  by (simp_all add: sample_world_def nsname_def)

section \<open>The whole reconcile\<close>

text \<open>
  C3. A reconcile never panics and never touches what is not its own, whichever API calls fail: of the
  config maps only the two script maps and the one named after the FileIntegrity can change, of the
  daemon sets only its own, its re-init and its legacy ones, of the FileIntegrities only the one
  requested; node statuses, nodes, priority classes and deployments never change and pods are at
  most deleted. A request for a FileIntegrity that does not exist changes nothing.
\<close>

theorem reconcile_safe:
  assumes "kube_api cl" and "\<forall>k ds. lookup (DaemonSets w) k = Some ds \<longrightarrow> has_container ds"
    and "run_state (FileIntegrityControllerReconcile cl env now request) w = (r, w')"
  shows "(\<forall>e. r = Inl e \<longrightarrow> \<not> is_panic e) \<and>
     (case lookup (FileIntegrities w) request of
        None \<Rightarrow> w' = w
      | Some inst \<Rightarrow> frame (operator_cms env inst)
          (insert (ds_key env inst) (reinit_keys env inst \<union> legacy_keys inst w)) {request} {} w w')"
proof -
  from wp_run [OF kube_api.wp_FileIntegrityControllerReconcile [OF assms(1,2)] assms(3)]
  show ?thesis
  proof (cases "lookup (FileIntegrities w) request")
    case (Some inst)
    moreover have "nsname inst = request" using Some by (rule lookup_nsname)
    moreover note \<open>case lookup (FileIntegrities w) request of None \<Rightarrow> _ | Some inst \<Rightarrow> _ inst\<close>
    ultimately show ?thesis by (auto simp: reconciled_def reconcile_frame_def)
  qed (auto split: sum.splits)
qed

theorem reconcile_safe_witness:
  "\<exists>r w'. run_state (FileIntegrityControllerReconcile (mem_client no_faults) sample_env 1 (''ns'', ''f'')) sample_world = (r, w')
     \<and> (\<forall>e. r = Inl e \<longrightarrow> \<not> is_panic e)
     \<and> frame (operator_cms sample_env sample_fi)
          (insert (ds_key sample_env sample_fi) (reinit_keys sample_env sample_fi \<union> legacy_keys sample_fi sample_world))
          {(''ns'', ''f'')} {} sample_world w'"
proof -
  obtain w' where run: "run_state (FileIntegrityControllerReconcile (mem_client no_faults) sample_env 1 (''ns'', ''f'')) sample_world = (Inr Done, w')"
    using sample_reconcile by blast
  from reconcile_safe [OF mem.kube_api_axioms sample_stored(1) run] run show ?thesis
    by (auto simp: sample_stored intro!: exI [of _ "Inr Done"] exI [of _ w'])
qed

text \<open>
  C1. A successful reconcile converges. For a FileIntegrity without re-init annotations (whose name and
  user config map do not collide with an operator config map), a reconcile that ends with success and
  no requeue leaves both script config maps with their data, the requested AIDE configuration (the
  default, or the prepared contents of the user's config map) in the config map of the FileIntegrity,
  and the daemon set with the arguments, image, node selector, tolerations, priority class and volume
  mounts rendered from the FileIntegrity and the operator's own image.
\<close>

theorem reconcile_converges:
  assumes "kube_api cl" and "\<forall>k ds. lookup (DaemonSets w) k = Some ds \<longrightarrow> has_container ds"
    and "lookup (FileIntegrities w) request = Some inst" and "plain env inst"
    and "run_state (FileIntegrityControllerReconcile cl env now request) w = (Inr Done, w')"
  shows "converged env inst w w'"
  using wp_run [OF kube_api.wp_FileIntegrityControllerReconcile [OF assms(1,2)] assms(5)] assms(3,4)
  by (simp add: reconciled_def)

lemma sample_plain: "plain sample_env sample_fi"
  by (simp add: plain_def operator_cms_def nsname_def AideReinitScriptConfigMapName_def PauseConfigMapName_def)

theorem reconcile_converges_witness:
  "\<exists>w'. run_state (FileIntegrityControllerReconcile (mem_client no_faults) sample_env 1 (''ns'', ''f'')) sample_world = (Inr Done, w')
     \<and> converged sample_env sample_fi sample_world w'"
proof -
  obtain w' where run: "run_state (FileIntegrityControllerReconcile (mem_client no_faults) sample_env 1 (''ns'', ''f'')) sample_world = (Inr Done, w')"
    using sample_reconcile by blast
  from reconcile_converges [OF mem.kube_api_axioms sample_stored sample_plain run] run show ?thesis by blast
qed

section \<open>The user's configuration\<close>

text \<open>
  C15. Reconciling the user configuration: on success the answer says whether the wanted configuration
  (default, prepared user contents, or what is there when the user's config map or entry is missing)
  differs from the current one; if it does the config map holds it, keeps its labels and is marked
  for every node, and if not nothing changes. On an error nothing changes either.
\<close>

theorem reconcileUserConfig_spec:
  assumes "kube_api cl" and "lookup (ConfigMaps w) (conf_key env inst) = Some current"
    and "mget (Data current) DefaultConfDataKey = Some old"
    and "run_state (reconcileUserConfig cl env inst current) w = (r, w')"
  shows "case r of Inl e \<Rightarrow> w' = w
     | Inr changed \<Rightarrow> (changed \<longleftrightarrow> wanted_conf env inst w old \<noteq> old) \<and>
         (if changed
          then (\<exists>cm. lookup (ConfigMaps w') (conf_key env inst) = Some cm \<and>
                 mget (Data cm) DefaultConfDataKey = Some (wanted_conf env inst w old) \<and>
                 mget (Annotations cm) AideConfigUpdatedAnnotationKey = Some '''' \<and>
                 (\<forall>k. mget (Labels cm) k = mget (Labels current) k))
          else w' = w)"
proof -
  have data: "mget (Data current) DefaultConfDataKey \<noteq> None" and old: "mval (Data current) DefaultConfDataKey = old"
    using assms(3) by (simp_all add: mval_def)
  have "nsname current = conf_key env inst" using assms(2) by (rule lookup_nsname)
  with wp_run [OF kube_api.wp_reconcileUserConfig [OF assms(1,2) data] assms(4)] old show ?thesis
    by (auto simp: user_config_done_def Let_def split: sum.splits if_splits)
qed

definition custom_fi :: FileIntegrity where
  "custom_fi = sample_fi\<lparr>fiSpec := (fiSpec sample_fi)\<lparr>Config := \<lparr>cfgName = ''mine'', cfgNamespace = ''ns'', cfgKey = ''c'',
     GracePeriod = 900, MaxBackups = 5, InitialDelay = 0\<rparr>\<rparr>\<rparr>"

definition custom_world :: world where
  "custom_world = sample_world\<lparr>FileIntegrities := [custom_fi], ConfigMaps := ConfigMaps sample_world @
     [\<lparr>Name = ''mine'', Namespace = ''ns'', Labels = None, Annotations = None, OwnerReferences = [], CreationTimestamp = 0,
       UID = '''', Data = Some [''c'' \<mapsto> ''/etc X'']\<rparr>]\<rparr>"

lemma custom_lookup:
  "lookup (ConfigMaps custom_world) (''ns'', ''f'') = Some (defaultAIDEConfigMap sample_env ''f'')"
  "lookup (ConfigMaps custom_world) (''ns'', ''mine'') = Some \<lparr>Name = ''mine'', Namespace = ''ns'', Labels = None,
     Annotations = None, OwnerReferences = [], CreationTimestamp = 0, UID = '''', Data = Some [''c'' \<mapsto> ''/etc X'']\<rparr>"
  by (simp_all add: custom_world_def sample_world_def nsname_def)

lemma custom_sel [simp]:
  "Name custom_fi = ''f''" "cfgName (Config (fiSpec custom_fi)) = ''mine''"
  "cfgNamespace (Config (fiSpec custom_fi)) = ''ns''" "cfgKey (Config (fiSpec custom_fi)) = ''c''"
  by (simp_all add: custom_fi_def)

lemma custom_wanted: "wanted_conf sample_env custom_fi custom_world old = ''/hostroot/etc X''"
  by (simp add: wanted_conf_def Let_def custom_lookup prepareAideConf_def prepareLine_def)

lemma default_not_short: "GetAideConfigDefault env \<noteq> ''/hostroot/etc X''"
proof
  assume a: "GetAideConfigDefault env = ''/hostroot/etc X''"
  have "hd (GetAideConfigDefault env) = CHR ''@''"
    by (simp add: GetAideConfigDefault_def CommonStart018_lines_def CommonStart_lines_def unlines_def)
  with a show False by simp
qed

theorem reconcileUserConfig_spec_witness:
  "\<exists>w' cm. run_state (reconcileUserConfig (mem_client no_faults) sample_env custom_fi (defaultAIDEConfigMap sample_env ''f'')) custom_world
       = (Inr True, w') \<and> lookup (ConfigMaps w') (''ns'', ''f'') = Some cm \<and>
     mget (Data cm) DefaultConfDataKey = Some ''/hostroot/etc X''"
proof -
  let ?cur = "defaultAIDEConfigMap sample_env ''f''"
  obtain r w' where run: "run_state (reconcileUserConfig (mem_client no_faults) sample_env custom_fi ?cur) custom_world = (r, w')"
    by fastforce
  have "\<exists>b. r = Inr b"
    using run by (auto simp: reconcileUserConfig_def updateAideConfig_def mput_def run_simps custom_lookup
        custom_lookup [unfolded nsname_def] prepareAideConf_Join mset_key_def split: if_splits option.splits)
  moreover have "lookup (ConfigMaps custom_world) (conf_key sample_env custom_fi) = Some ?cur"
    "mget (Data ?cur) DefaultConfDataKey = Some (GetAideConfigDefault sample_env)"
    by (simp_all add: custom_lookup)
  note reconcileUserConfig_spec [OF mem.kube_api_axioms this run]
  ultimately show ?thesis
    using default_not_short [of sample_env] run by (auto simp: custom_wanted)
qed

section \<open>Re-init\<close>

text \<open>
  C16. A re-init daemon set is created at most once and lands on the right nodes: one that exists is
  left alone; for a named node it is created only when the node exists and it selects exactly that
  node's hostname; for no node it selects the node group of the FileIntegrity. Nothing else changes,
  an error changes nothing, and without an error either the daemon set is there or the node is gone.
\<close>

theorem createReinitDaemonSet_spec:
  assumes "kube_api cl" and "run_state (createReinitDaemonSet cl env inst node img) w = (r, w')"
  shows "frame {} {reinit_key env inst node} {} {} w w' \<and>
     (case r of Inl e \<Rightarrow> w' = w
      | Inr created \<Rightarrow>
          if created
          then lookup (DaemonSets w) (reinit_key env inst node) = None \<and>
            (\<exists>ds sel. lookup (DaemonSets w') (reinit_key env inst node) = Some ds \<and>
               mget (Labels ds) IntegrityReinitOwnerLabelKey = Some (Name inst) \<and>
               selector_for inst w node sel \<and> (\<forall>k. mget (psNodeSelector (pod_of ds)) k = mget sel k))
          else w' = w \<and> (lookup (DaemonSets w) (reinit_key env inst node) \<noteq> None
                         \<or> node \<noteq> '''' \<and> lookup (Nodes w) ('''', node) = None))"
  using wp_run [OF kube_api.wp_createReinitDaemonSet [OF assms(1)] assms(2)]
  by (auto simp: reinit_created_def simp del: split_paired_Ex split: sum.splits if_splits)

lemma reinit_name_f: "ReinitDaemonSetNodeName ''f'' '''' = ''aide-ini-f''"
  by (simp add: ReinitDaemonSetNodeName_def ReinitDaemonSetName_eq ReinitDaemonSetPrefix_def)

theorem createReinitDaemonSet_spec_witness:
  "\<exists>w' ds. run_state (createReinitDaemonSet (mem_client no_faults) sample_env sample_fi '''' ''img:1'') sample_world = (Inr True, w')
     \<and> lookup (DaemonSets w') (''ns'', ''aide-ini-f'') = Some ds \<and> mget (psNodeSelector (pod_of ds)) ''role'' = Some ''worker''"
proof -
  obtain w' where run: "run_state (createReinitDaemonSet (mem_client no_faults) sample_env sample_fi '''' ''img:1'') sample_world = (Inr True, w')"
    by (simp add: createReinitDaemonSet_def tryGettingNode_def narrowNodeSelector_def run_simps sample_world_def)
  from createReinitDaemonSet_spec [OF mem.kube_api_axioms this] run show ?thesis
    by (auto simp: selector_for_def reinit_name_f) (simp add: sample_fi_def)
qed

text \<open>
  C17. The re-init-on-failed request: it is removed, in one write that adds to the re-init request. Where no re-init was pending, the new
  request is for exactly the nodes whose last result for this FileIntegrity is a failure (no request when there is none). Where one was pending for
  all nodes it stays; where one was pending for a list, only one failed node joins it, the last one found whose name is
  not a substring of the list. The spec and all other annotations are unchanged, and an error changes nothing.
\<close>

theorem reinitOnFailed_spec:
  assumes "kube_api cl" and "run_state (reinitOnFailed cl inst) w = (r, w')"
  shows "case r of Inl e \<Rightarrow> w' = w
     | Inr res \<Rightarrow> res = Done \<and> (\<exists>fi' ns. lookup (FileIntegrities w') (nsname inst) = Some fi' \<and>
         fiSpec fi' = fiSpec inst \<and> mget (Annotations fi') AideDatabaseReinitOnFailedAnnotationKey = None \<and>
         set ns = failed_nodes inst w \<and>
         mget (Annotations fi') AideDatabaseReinitAnnotationKey =
           (case mget (Annotations inst) AideDatabaseReinitAnnotationKey of
              None \<Rightarrow> if ns = [] then None else Some (Join ns '','')
            | Some s \<Rightarrow> (let new = filter (\<lambda>n. \<not> Contains s n) ns in
                if s = '''' \<or> new = [] then Some s else Some (s @ '','' @ last new))) \<and>
         (\<forall>k. k \<notin> {AideDatabaseReinitAnnotationKey, AideDatabaseReinitOnFailedAnnotationKey} \<longrightarrow>
            mget (Annotations fi') k = mget (Annotations inst) k))"
proof (cases r)
  case (Inr res)
  have "on_failed_done inst w r w'" using wp_run [OF kube_api.wp_reinitOnFailed [OF assms(1)] assms(2)] .
  then show ?thesis by (simp only: on_failed_done_def reinit_added_def Inr sum.case simp_thms)
qed (use wp_run [OF kube_api.wp_reinitOnFailed [OF assms(1)] assms(2)] in \<open>simp add: on_failed_done_def\<close>)

definition failed_fi :: FileIntegrity where
  "failed_fi = sample_fi\<lparr>Annotations := Some [AideDatabaseReinitOnFailedAnnotationKey \<mapsto> '''']\<rparr>"

definition failed_result :: FileIntegrityScanResult where
  "failed_result = \<lparr>LastProbeTime = 5, Condition = NodeConditionFailed, ResultConfigMapName = '''', ResultConfigMapNamespace = '''',
     ErrorMsg = '''', FilesAdded = 1, FilesChanged = 0, FilesRemoved = 0\<rparr>"

definition n1_status :: FileIntegrityNodeStatus where
  "n1_status = \<lparr>Name = ''f-n1'', Namespace = ''ns'', Labels = Some [IntegrityOwnerLabelKey \<mapsto> ''f''], Annotations = None,
     OwnerReferences = [], CreationTimestamp = 0, UID = '''', NodeName = ''n1'', Results = [failed_result],
     LastResult = failed_result\<rparr>"

definition failed_world :: world where
  "failed_world = sample_world\<lparr>FileIntegrities := [failed_fi], NodeStatuses := [n1_status]\<rparr>"

lemma failed_world_nodes: "failed_nodes failed_fi failed_world = {''n1''}"
proof -
  have "lookup (NodeStatuses failed_world) (nsname ns) = Some ns \<longleftrightarrow> ns = n1_status" for ns
    by (auto simp: failed_world_def)
  then show ?thesis
    by (simp add: failed_nodes_def del: split_paired_Ex) (simp add: n1_status_def failed_result_def failed_fi_def)
qed

theorem reinitOnFailed_spec_witness:
  "\<exists>w' fi' ns. run_state (reinitOnFailed (mem_client no_faults) failed_fi) failed_world = (Inr Done, w')
     \<and> lookup (FileIntegrities w') (''ns'', ''f'') = Some fi' \<and> set ns = {''n1''}
     \<and> mget (Annotations fi') AideDatabaseReinitAnnotationKey = Some (Join ns '','')"
proof -
  obtain r w' where run: "run_state (reinitOnFailed (mem_client no_faults) failed_fi) failed_world = (r, w')" by fastforce
  have no: "mget (Annotations failed_fi) AideDatabaseReinitAnnotationKey = None" by (simp add: failed_fi_def)
  have key: "nsname failed_fi = (''ns'', ''f'')" by (simp add: failed_fi_def nsname_def)
  have stored: "lookup (FileIntegrities failed_world) (''ns'', ''f'') = Some failed_fi" by (simp add: failed_world_def key)
  have "\<exists>x. r = Inr x" using run
    by (auto simp: reinitOnFailed_def GetFailedNodes_def run_simps stored key [unfolded nsname_def] GetAddedNodeReinitAnnotation_def
        split: if_splits prod.splits)
  with reinitOnFailed_spec [OF mem.kube_api_axioms run] no show ?thesis
    by (auto simp: run failed_world_nodes key split: if_splits)
qed

section \<open>The initial delay\<close>

text \<open>
  C33. No daemon set before the initial delay is over: for a delay of up to 9223372036 seconds, while the
  time is before creation plus delay and there is no daemon set yet, a reconcile of the daemon set
  that succeeds creates none and asks to be called again after the delay.
\<close>

theorem initial_delay_respected:
  assumes "kube_api cl" and "lookup (DaemonSets w) (ds_key env inst) = None"
    and "0 \<le> InitialDelay (Config (fiSpec inst))" and "InitialDelay (Config (fiSpec inst)) \<le> 9223372036"
    and "now < (CreationTimestamp inst + InitialDelay (Config (fiSpec inst))) * 1000000000"
    and "run_state (reconcileDaemonSet cl env now inst img u) w = (Inr res, w')"
  shows "lookup (DaemonSets w') (ds_key env inst) = None \<and> Requeue res \<and>
     RequeueAfter res = InitialDelay (Config (fiSpec inst)) * 1000000000"
proof -
  have delay: "delayTime inst = InitialDelay (Config (fiSpec inst)) * 1000000000"
    unfolding delayTime_def by (rule int64_id) (use assms(3,4) in auto)
  have "too_early now inst" using assms(5) by (simp add: too_early_def delay algebra_simps)
  moreover have "\<forall>ds. lookup (DaemonSets w) (ds_key env inst) = Some ds \<longrightarrow> has_container ds" using assms(2) by simp
  ultimately show ?thesis
    using wp_run [OF kube_api.wp_reconcileDaemonSet [OF assms(1)] assms(6)] assms(2) delay
    by (simp add: daemonset_done_def)
qed

definition delayed_fi :: "int \<Rightarrow> FileIntegrity" where
  "delayed_fi d = sample_fi\<lparr>fiSpec := (fiSpec sample_fi)\<lparr>Config := \<lparr>cfgName = '''', cfgNamespace = '''', cfgKey = '''',
     GracePeriod = 900, MaxBackups = 5, InitialDelay = d\<rparr>\<rparr>\<rparr>"

lemma delayed_sel [simp]: "Name (delayed_fi d) = ''f''" "CreationTimestamp (delayed_fi d) = 0"
  "InitialDelay (Config (fiSpec (delayed_fi d))) = d"
  by (simp_all add: delayed_fi_def)

theorem initial_delay_respected_witness:
  "\<exists>res w'. run_state (reconcileDaemonSet (mem_client no_faults) sample_env 59000000000 (delayed_fi 60) ''img:1'' False) sample_world
       = (Inr res, w') \<and> lookup (DaemonSets w') (''ns'', DaemonSetName ''f'') = None \<and> RequeueAfter res = 60000000000"
proof -
  obtain res w' where run: "run_state (reconcileDaemonSet (mem_client no_faults) sample_env 59000000000 (delayed_fi 60) ''img:1'' False) sample_world
       = (Inr res, w')"
    by (simp add: reconcileDaemonSet_def deleteLegacyDaemonSets_def run_simps sample_world_def delayTime_def int64_id)
  have "lookup (DaemonSets sample_world) (ds_key sample_env (delayed_fi 60)) = None" by (simp add: sample_world_def)
  from initial_delay_respected [OF mem.kube_api_axioms this _ _ _ run] run show ?thesis by auto
qed

text \<open>
  The delay is a 64-bit number of nanoseconds: an initial delay of 9223372037 seconds becomes a
  negative duration, so at any time from the creation on it is taken to be over and the daemon set is
  created at once.
\<close>

theorem initial_delay_wraps:
  "delayTime (delayed_fi 9223372037) = -9223372036709551616 \<and>
   (\<forall>now. 0 \<le> now \<longrightarrow> \<not> too_early now (delayed_fi 9223372037))"
  by (simp add: delayTime_def too_early_def int64_def)

theorem initial_delay_wraps_witness: "\<not> too_early 5 (delayed_fi 9223372037)"
  using initial_delay_wraps by simp

section \<open>Where the code falls short\<close>

text \<open>
  A re-init request for a node that is gone: the step succeeds, creates no re-init daemon set, and
  still marks the AIDE config map as updated for that node, so the config map controller is told to
  wait for a daemon set that nobody creates.
\<close>

theorem reinit_missing_node_marks_config:
  assumes "kube_api cl" and "lookup (ConfigMaps w) (conf_key env inst) = Some conf" and "mget (Data conf) DefaultConfDataKey \<noteq> None"
    and "pickNode inst False = Inr (node, True)" and "node \<noteq> ''''" and "lookup (Nodes w) ('''', node) = None"
    and "lookup (DaemonSets w) (reinit_key env inst node) = None"
    and "run_state (reconcileReinit cl env inst img conf False) w = (Inr stop, w')"
  shows "lookup (DaemonSets w') (reinit_key env inst node) = None \<and>
     (\<exists>cm v. lookup (ConfigMaps w') (conf_key env inst) = Some cm \<and>
        mget (Annotations cm) AideConfigUpdatedAnnotationKey = Some v \<and> node \<in> set (Split comma v))"
proof -
  have "nsname conf = conf_key env inst" using assms(2) by (rule lookup_nsname)
  from wp_run [OF kube_api.wp_reconcileReinit [OF assms(1-3) this] assms(8)] assms(4-7) show ?thesis
    by (auto simp: reinit_done_def node_marked_def)
qed

definition request_fi :: "string \<Rightarrow> FileIntegrity" where
  "request_fi v = sample_fi\<lparr>Annotations := Some [AideDatabaseReinitAnnotationKey \<mapsto> v]\<rparr>"

definition request_world :: "string \<Rightarrow> world" where
  "request_world v = sample_world\<lparr>FileIntegrities := [request_fi v]\<rparr>"

lemma request_sel [simp]:
  "Name (request_fi v) = ''f''" "Namespace (request_fi v) = ''ns''" "fiSpec (request_fi v) = fiSpec sample_fi"
  "Annotations (request_fi v) = Some [AideDatabaseReinitAnnotationKey \<mapsto> v]" "nsname (request_fi v) = (''ns'', ''f'')"
  by (simp_all add: request_fi_def nsname_def)

lemma request_lookup:
  "lookup (ConfigMaps (request_world v)) (''ns'', ''f'') = Some (defaultAIDEConfigMap sample_env ''f'')"
  "lookup (FileIntegrities (request_world v)) (''ns'', ''f'') = Some (request_fi v)"
  "DaemonSets (request_world v) = []" "Nodes (request_world v) = []"
  by (simp_all add: request_world_def sample_world_def nsname_def AideReinitScriptConfigMapName_def PauseConfigMapName_def)

lemma pick_request: "pickNode (request_fi ''n9'') False = Inr (''n9'', True)"
  by (simp add: pickNode_def HasReinitAnnotation_def)

lemmas reinit_eval = reconcileReinit_def createReinitDaemonSet_def tryGettingNode_def narrowNodeSelector_def
  retrieveAndAnnotateAideConfig_def updateAideConfig_def mput_def mset_key_def GetRemovedNodeReinitAnnotation_def
  IsNodeInReinit_def IsNodeIn_def

theorem reinit_missing_node_marks_config_witness:
  "\<exists>stop w' cm v. run_state (reconcileReinit (mem_client no_faults) sample_env (request_fi ''n9'') ''img:1''
        (defaultAIDEConfigMap sample_env ''f'') False) (request_world ''n9'') = (Inr stop, w') \<and>
     lookup (DaemonSets w') (reinit_key sample_env (request_fi ''n9'') ''n9'') = None \<and>
     lookup (ConfigMaps w') (''ns'', ''f'') = Some cm \<and>
     mget (Annotations cm) AideConfigUpdatedAnnotationKey = Some v \<and> ''n9'' \<in> set (Split comma v)"
proof -
  let ?conf = "defaultAIDEConfigMap sample_env ''f''"
  have ann: "Annotations ?conf = None" by (simp add: defaultAIDEConfigMap_def)
  obtain stop w' where run: "run_state (reconcileReinit (mem_client no_faults) sample_env (request_fi ''n9'') ''img:1'' ?conf False)
      (request_world ''n9'') = (Inr stop, w')"
    by (simp add: reinit_eval pick_request run_simps request_lookup ann) blast
  have "lookup (ConfigMaps (request_world ''n9'')) (conf_key sample_env (request_fi ''n9'')) = Some ?conf"
    "mget (Data ?conf) DefaultConfDataKey \<noteq> None" "lookup (Nodes (request_world ''n9'')) ('''', ''n9'') = None"
    "lookup (DaemonSets (request_world ''n9'')) (reinit_key sample_env (request_fi ''n9'') ''n9'') = None"
    by (simp_all add: request_lookup)
  from reinit_missing_node_marks_config [OF mem.kube_api_axioms this(1,2) pick_request _ this(3,4) run] run
  show ?thesis by auto
qed

definition fi_write_fails :: faults where
  "fi_write_fails v k = (if v = ''update fileintegrities'' then Some (ApiError ''timeout'') else None)"

text \<open>
  When the request cannot be removed from the FileIntegrity (its update fails), the reconcile ends
  with success and without a requeue, although the code logs that it re-queues: the request is still
  there and the daemon set of the FileIntegrity has not been created.
\<close>

theorem reinit_request_kept_without_requeue:
  "\<exists>w'. run_state (FileIntegrityControllerReconcile (mem_client fi_write_fails) sample_env 1 (''ns'', ''f'')) (request_world '''')
       = (Inr Done, w') \<and> \<not> Requeue Done \<and> RequeueAfter Done = 0 \<and>
     lookup (FileIntegrities w') (''ns'', ''f'') = Some (request_fi '''') \<and>
     lookup (DaemonSets w') (ds_key sample_env (request_fi '''')) = None"
proof -
  have pick: "pickNode (request_fi '''') False = Inr ('''', True)" by (simp add: pickNode_def HasReinitAnnotation_def)
  have ann: "Annotations (defaultAIDEConfigMap sample_env ''f'') = None" by (simp add: defaultAIDEConfigMap_def)
  have names: "DaemonSetName ''f'' = ''aide-f''" by (simp add: DaemonSetName_eq DaemonSetPrefix_def)
  have onfail: "mget (Annotations (request_fi '''')) AideDatabaseReinitOnFailedAnnotationKey = None" by simp
  show ?thesis
    by (simp add: FileIntegrityControllerReconcile_def reconcilePriorityClass_def getOperatorDeploymentImage_def
      handleDefaultConfigMaps_def handleScriptConfigMap_def reconcileUserConfig_def aideConfigIsDefault_def
      configMapKeyDataMatches_def run_simps AideReinitScriptConfigMapName_def PauseConfigMapName_def
      reinit_eval pick request_lookup ann names reinit_name_f fi_write_fails_def request_world_def sample_world_def)
      (simp add: Done_def reinitAideDaemonset_def Let_def)
qed

definition not_both :: "Env \<Rightarrow> world \<Rightarrow> bool" where
  "not_both env w \<longleftrightarrow> (\<forall>cm. lookup (ConfigMaps w) (FileIntegrityNamespace env, AideReinitScriptConfigMapName) = Some cm \<longrightarrow>
     mget (Data cm) AideScriptKey = None \<or> mget (Data cm) DefaultConfDataKey = None)"

context kube_api
begin

lemma wp_script_not_both:
  assumes "not_both env w"
  shows "wp (handleScriptConfigMap cl (aideReinitScript env) (dataMatchesReinitScript env))
    (\<lambda>r w'. \<forall>u cm. r = Inr u \<longrightarrow> lookup (ConfigMaps w') (FileIntegrityNamespace env, AideReinitScriptConfigMapName) = Some cm \<longrightarrow>
       mget (Data cm) DefaultConfDataKey = None) w"
  unfolding handleScriptConfigMap_def
proof (simp only: wp_bind, rule cm.wp_Get, goal_cases)
  case (1 e)
  have served: "mget (Data cm) DefaultConfDataKey = None" if "served_cm (aideReinitScript env) cm" for cm
    using served_cmD(4) [OF that] by (simp add: aideReinitScript_def key_defs)
  show ?case
  proof (cases "IsNotFound e")
    case True
    show ?thesis by (simp add: True wp_simps, rule cm.wp_Create) (auto simp: wp_simps served)
  qed (simp add: wp_simps)
next
  case (2 old)
  have served: "mget (Data cm) DefaultConfDataKey = None" if "served_cm (aideReinitScript env) cm" for cm
    using served_cmD(4) [OF that] by (simp add: aideReinitScript_def key_defs)
  show ?case
  proof (cases "dataMatchesReinitScript env old")
    case True
    have "mget (Data old) AideScriptKey \<noteq> None"
      using True by (auto simp: dataMatchesReinitScript_def configMapKeyDataMatches_def mval_def aideReinitScript_def
          aideReinitContainerScript_def unlines_def split: option.splits)
    with 2 assms True show ?thesis by (auto simp: not_both_def wp_simps)
  next
    case False
    show ?thesis by (simp add: False wp_simps, rule cm.wp_Update) (auto simp: wp_simps served)
  qed
qed

lemma wp_conf_not_both:
  assumes "\<forall>cm. lookup (ConfigMaps w) (FileIntegrityNamespace env, AideReinitScriptConfigMapName) = Some cm \<longrightarrow>
       mget (Data cm) DefaultConfDataKey = None"
    and "Name f = AideReinitScriptConfigMapName"
  shows "wp (do {
       r \<leftarrow> Get (cms cl) (FileIntegrityNamespace env, Name f);
       case r of
         Inl e \<Rightarrow> if \<not> IsNotFound e then throw e
                  else thenE (Create (cms cl) (defaultAIDEConfigMap env (Name f))) (ok (None, u))
       | Inr confCm \<Rightarrow>
           (if \<not> mget (Data confCm) DefaultConfDataKey \<noteq> None \<or> \<not> mget (Labels confCm) IntegrityOwnerLabelKey \<noteq> None
               then thenE (Update (cms cl) (defaultAIDEConfigMap env (Name f))) (ok (None, u))
               else ok (Some confCm, u)) })
     (\<lambda>r w'. \<forall>conf u. r = Inr (conf, u) \<longrightarrow> conf = None \<and> not_both env w') w"
proof (simp only: wp_bind, rule cm.wp_Get, goal_cases)
  case (1 e)
  have served: "mget (Data cm) AideScriptKey = None" if "served_cm (defaultAIDEConfigMap env n) cm" for cm n
    using served_cmD(4) [OF that] by (simp add: key_defs)
  show ?case
  proof (cases "IsNotFound e")
    case True
    show ?thesis by (simp add: True wp_simps, rule cm.wp_Create) (auto simp: wp_simps not_both_def assms(2) served)
  qed (simp add: wp_simps)
next
  case (2 cm)
  have served: "mget (Data cm) AideScriptKey = None" if "served_cm (defaultAIDEConfigMap env n) cm" for cm n
    using served_cmD(4) [OF that] by (simp add: key_defs)
  have "mget (Data cm) DefaultConfDataKey = None" using 2 assms by simp
  then show ?case by (simp add: wp_simps, intro cm.wp_Update) (auto simp: wp_simps not_both_def assms(2) served)
qed

lemma wp_defaults_not_both:
  assumes "Name f = AideReinitScriptConfigMapName" and "not_both env w"
  shows "wp (handleDefaultConfigMaps cl env f) (\<lambda>r w'. \<forall>conf u. r = Inr (conf, u) \<longrightarrow> conf = None \<and> not_both env w') w"
  unfolding handleDefaultConfigMaps_def
proof (rule wp_bindE_rule [OF wp_script_not_both [OF assms(2)]], goal_cases)
  case (2 u1 w1)
  show ?case
  proof (rule wp_bindE_rule [OF wp_handleScriptConfigMap [OF scripts_match(2)]], goal_cases)
    case (2 u2 w2)
    have "lookup (ConfigMaps w2) (FileIntegrityNamespace env, AideReinitScriptConfigMapName)
        = lookup (ConfigMaps w1) (FileIntegrityNamespace env, AideReinitScriptConfigMapName)"
      using 2 script_names_differ by (auto dest: frame_keeps(1))
    then have "\<forall>cm. lookup (ConfigMaps w2) (FileIntegrityNamespace env, AideReinitScriptConfigMapName) = Some cm \<longrightarrow>
       mget (Data cm) DefaultConfDataKey = None"
      using \<open>\<forall>u cm. Inr u1 = Inr u \<longrightarrow> _ u cm\<close> by simp
    then show ?case unfolding Let_def by (rule wp_conf_not_both) (rule assms(1))
  qed simp
qed simp

end

text \<open>
  A FileIntegrity named like the re-init script config map never gets past the default config maps:
  each reconcile overwrites the one with the other. Starting from a config map of that name that does
  not hold both the script and a configuration, \<open>handleDefaultConfigMaps\<close> never hands on a
  configuration, and leaves a config map of the same kind, so every reconcile asks for another one.
\<close>

theorem script_name_never_settles:
  assumes "kube_api cl" and "Name f = AideReinitScriptConfigMapName" and "not_both env w"
    and "run_state (handleDefaultConfigMaps cl env f) w = (Inr (conf, u), w')"
  shows "conf = None \<and> not_both env w'"
  using wp_run [OF kube_api.wp_defaults_not_both [OF assms(1-3)] assms(4)] by simp

definition clash_fi :: FileIntegrity where
  "clash_fi = sample_fi\<lparr>Name := ''aide-reinit''\<rparr>"

theorem script_name_never_settles_witness:
  "\<exists>u w'. run_state (handleDefaultConfigMaps (mem_client no_faults) sample_env clash_fi) sample_world = (Inr (None, u), w')
     \<and> not_both sample_env w'"
proof -
  have nb: "not_both sample_env sample_world"
    by (simp add: not_both_def sample_world_def nsname_def AideReinitScriptConfigMapName_def)
      (simp add: aideReinitScript_def key_defs)
  have name: "Name clash_fi = AideReinitScriptConfigMapName" by (simp add: clash_fi_def AideReinitScriptConfigMapName_def)
  have nodata: "mget (Data (aideReinitScript sample_env)) DefaultConfDataKey = None" by (simp add: aideReinitScript_def key_defs)
  obtain conf u w' where run: "run_state (handleDefaultConfigMaps (mem_client no_faults) sample_env clash_fi) sample_world = (Inr (conf, u), w')"
    by (simp add: handleDefaultConfigMaps_def handleScriptConfigMap_def run_simps name sample_world_def nodata
        AideReinitScriptConfigMapName_def PauseConfigMapName_def) blast
  from script_name_never_settles [OF mem.kube_api_axioms name nb run] run show ?thesis by auto
qed

section \<open>Config map events\<close>

text \<open>
  The event mapping misses no FileIntegrity: when the list call succeeds, a config map event asks for
  the reconcile of every FileIntegrity that names the config map as its configuration and of the one
  whose own config map it is, only existing ones are asked for, and nothing changes.
\<close>

theorem mapper_complete:
  assumes "kube_api cl" and "run_state (ListObjs (fis cl) \<lparr>loNamespace = '''', loSelector = None\<rparr>) w = (Inr items, w1)"
    and "run_state (fileIntegrityMapper_Map cl obj) w = (requests, w')"
  shows "w' = w \<and>
     (\<forall>fi. lookup (FileIntegrities w) (nsname fi) = Some fi \<and>
        ((cfgNamespace (Config (fiSpec fi)), cfgName (Config (fiSpec fi))) = nsname obj \<or> nsname fi = nsname obj)
        \<longrightarrow> nsname fi \<in> set requests) \<and>
     (\<forall>k\<in>set requests. lookup (FileIntegrities w) k \<noteq> None)"
proof -
  from api_laws.list_law [OF kube_api.fis_laws [OF assms(1)] assms(2)]
  have w1: "w1 = w" and items: "fi \<in> set items \<longleftrightarrow> lookup (FileIntegrities w) (nsname fi) = Some fi" for fi
    by (auto simp: listed_def selector_matches_def)
  from assms(2,3) w1 have w': "w' = w" and requests: "requests = map nsname (filter (\<lambda>fi.
       \<not> (cfgName (Config (fiSpec fi)) \<noteq> Name obj \<and> Name fi \<noteq> Name obj) \<and>
       \<not> (cfgNamespace (Config (fiSpec fi)) \<noteq> Namespace obj \<and> Namespace fi \<noteq> Namespace obj)) items)"
    by (simp_all add: fileIntegrityMapper_Map_def)
  have "nsname fi \<in> set requests" if "lookup (FileIntegrities w) (nsname fi) = Some fi"
    and "(cfgNamespace (Config (fiSpec fi)), cfgName (Config (fiSpec fi))) = nsname obj \<or> nsname fi = nsname obj" for fi
    unfolding requests set_map set_filter
    by (rule imageI) (use that items in \<open>auto simp: nsname_def\<close>)
  moreover have "lookup (FileIntegrities w) k \<noteq> None" if "k \<in> set requests" for k
    using that items unfolding requests by auto
  ultimately show ?thesis using w' by blast
qed

theorem mapper_complete_witness:
  "\<exists>requests. run_state (fileIntegrityMapper_Map (mem_client no_faults) (aideReinitScript sample_env\<lparr>Name := ''mine''\<rparr>)) custom_world
       = (requests, custom_world) \<and> (''ns'', ''f'') \<in> set requests"
proof -
  let ?obj = "aideReinitScript sample_env\<lparr>Name := ''mine''\<rparr>"
  obtain requests w' where run: "run_state (fileIntegrityMapper_Map (mem_client no_faults) ?obj) custom_world = (requests, w')" by fastforce
  have list: "run_state (ListObjs (fis (mem_client no_faults)) \<lparr>loNamespace = '''', loSelector = None\<rparr>) custom_world = (Inr [custom_fi], custom_world)"
    by (simp add: mem_client_def mem_api_def no_faults_def custom_world_def listed_def selector_matches_def)
  have "nsname custom_fi = (''ns'', ''f'')" by (simp add: nsname_def custom_fi_def)
  moreover have "lookup (FileIntegrities custom_world) (nsname custom_fi) = Some custom_fi" by (simp add: custom_world_def)
  moreover have "nsname ?obj = (''ns'', ''mine'')" by (simp add: nsname_def aideReinitScript_def)
  ultimately show ?thesis
    using mapper_complete [OF mem.kube_api_axioms list run] run custom_sel by (auto dest!: spec [of _ custom_fi])
qed

section \<open>Between two reads\<close>

text \<open>
  A reconcile reads the AIDE config map twice: for the check of its contents, and again to mark it. What was checked before need not hold at the second
  read: when another client has removed all data in between, marking the config map panics.
\<close>

theorem emptied_config_panics:
  assumes "lookup (ConfigMaps w) (nsname conf) = Some cm" and "Data cm = None"
  shows "run_state (retrieveAndAnnotateAideConfig (mem_client no_faults) conf node) w = (Some (Panic ''assignment to entry in nil map''), w)"
  using assms by (simp add: retrieveAndAnnotateAideConfig_def updateAideConfig_def mput_def run_simps nsname_def)

end
