(* ===== verification/CM_Properties.thy ===== *)
theory CM_Properties
  imports ConfigMap_Controller FI_Properties
begin

text \<open>
  The properties of the config map controller: node statuses, logs and re-inits, for every client
  that obeys the laws of \<open>kube_api\<close>.
\<close>

section \<open>Merging a result into a status\<close>

text \<open>
  C11. Recording a result keeps a node status well-formed: there is one result per condition, so at most
  three, the new result is among them and those of the other conditions are kept, no result is newer
  than the last result, and the last result is the new one exactly when that is newer than the old
  last result, which otherwise stays.
\<close>

theorem status_merge_invariant:
  assumes "wf_status ns" and "mergeResult new ns = (cur, prev)"
  shows "wf_status cur \<and> length (Results cur) \<le> 3 \<and> new \<in> set (Results cur) \<and>
     (\<forall>r. Condition r \<noteq> Condition new \<longrightarrow> (r \<in> set (Results cur) \<longleftrightarrow> r \<in> set (Results ns))) \<and>
     LastResult cur = (if LastProbeTime new > LastProbeTime (LastResult ns) then new else LastResult ns) \<and>
     NodeName cur = NodeName ns \<and> prev = ns"
proof -
  have "wf_status cur" using wf_mergeResult [OF assms(1), of new] assms(2) by simp
  moreover from this have "length (Results cur) \<le> 3" by (rule wf_status_three)
  moreover have "cur = (let st = ns\<lparr>Results := filter (\<lambda>r. Condition r \<noteq> Condition new) (Results ns) @ [new]\<rparr>
     in if isLatestScanResult new ns then st\<lparr>LastResult := new\<rparr> else st)" "prev = ns"
    using mergeResult_wf [OF assms(1), of new] assms(2) by (auto simp: Let_def split: if_splits)
  ultimately show ?thesis by (auto simp: Let_def isLatestScanResult_def)
qed

definition n1_failed_then_ok :: FileIntegrityScanResult where
  "n1_failed_then_ok = emptyResult\<lparr>LastProbeTime := 7\<rparr>"

theorem status_merge_invariant_witness:
  "\<exists>cur prev. mergeResult n1_failed_then_ok n1_status = (cur, prev) \<and> LastResult cur = n1_failed_then_ok \<and>
     length (Results cur) \<le> 3 \<and> failed_result \<in> set (Results cur)"
proof -
  have wf: "wf_status n1_status" by (simp add: wf_status_def n1_status_def)
  obtain cur prev where run: "mergeResult n1_failed_then_ok n1_status = (cur, prev)" by fastforce
  from status_merge_invariant [OF wf run] run show ?thesis
    by (auto simp: n1_status_def failed_result_def n1_failed_then_ok_def emptyResult_def)
qed

text \<open>
  Processing the same result twice (a reconcile that is retried because the log could not be deleted)
  changes nothing the second time: the status is the same.
\<close>

theorem status_merge_idempotent:
  assumes "wf_status ns"
  shows "fst (mergeResult new (fst (mergeResult new ns))) = fst (mergeResult new ns)"
proof -
  let ?c = "fst (mergeResult new ns)"
  have c: "Results ?c = filter (\<lambda>r. Condition r \<noteq> Condition new) (Results ns) @ [new]"
    "\<not> isLatestScanResult new ?c"
    using mergeResult_wf [OF assms, of new] by (auto simp: Let_def isLatestScanResult_def)
  then have "filter (\<lambda>r. Condition r \<noteq> Condition new) (Results ?c) @ [new] = Results ?c" by simp
  with c(2) show ?thesis using mergeResult_wf [OF wf_mergeResult [OF assms], of new new] by (simp add: Let_def)
qed

theorem status_merge_idempotent_witness:
  "fst (mergeResult n1_failed_then_ok (fst (mergeResult n1_failed_then_ok n1_status))) = fst (mergeResult n1_failed_then_ok n1_status)"
  by (rule status_merge_idempotent) (simp add: wf_status_def n1_status_def)

section \<open>Logs\<close>

text \<open>
  C4. No scan result is lost. Handling a log config map that fails leaves the log where it is, so it is
  handled again; one that succeeds on a well-labelled log has deleted it and has its result in the
  status of its node, and for an integrity failure the log's data and counts in the failure log; a
  log without owner or node label is left alone.
\<close>

theorem log_not_lost:
  assumes "kube_api cl" and "statuses_ok w" and "run_state (handleIntegrityLog cl cm) w = (r, w')"
  shows "case r of
       Inl e \<Rightarrow> lookup (ConfigMaps w') (nsname cm) = lookup (ConfigMaps w) (nsname cm)
     | Inr res \<Rightarrow>
         w' = w \<and> (mget (Labels cm) IntegrityOwnerLabelKey = None \<or> mget (Labels cm) IntegrityConfigMapNodeLabelKey = None)
         \<or> lookup (ConfigMaps w') (nsname cm) = None \<and>
           (\<not> IsIntegrityLogAnError cm \<and> IsIntegrityLogAFailure cm \<longrightarrow>
              (\<exists>f. lookup (ConfigMaps w') (Namespace cm, Name cm @ ''-failed'') = Some f \<and>
                 (\<forall>k. mget (Data f) k = mget (Data cm) k) \<and> (\<forall>k. mget (Annotations f) k = mget (Annotations cm) k) \<and>
                 mget (Labels f) IntegrityLogLabelKey = None)) \<and>
           (\<exists>owner node fi ns. mget (Labels cm) IntegrityOwnerLabelKey = Some owner \<and>
              mget (Labels cm) IntegrityConfigMapNodeLabelKey = Some node \<and>
              lookup (FileIntegrities w) (Namespace cm, owner) = Some fi \<and>
              lookup (NodeStatuses w') (status_key fi node) = Some ns \<and> result_of cm \<in> set (Results ns))"
proof -
  have "log_handled cm w r w'" using wp_run [OF kube_api.wp_handleIntegrityLog [OF assms(1,2)] assms(3)] .
  moreover have "(\<forall>k. mget (Data f) k = mget (Data cm) k) \<and> (\<forall>k. mget (Annotations f) k = mget (Annotations cm) k) \<and>
      mget (Labels f) IntegrityLogLabelKey = None" if "served_cm (failure_log cm) f" for f
    using served_cmD [OF that] by (simp add: failure_log_def mget_made IntegrityLogLabelKey_def IntegrityLogResultLabelKey_def)
  ultimately show ?thesis
    by (cases r) (force simp: log_handled_def log_kept_def failure_key_def simp del: split_paired_Ex)+
qed

definition log_cm :: ConfigMap where
  "log_cm = \<lparr>Name = ''aide-f-n1'', Namespace = ''ns'', Labels = Some [IntegrityLogLabelKey \<mapsto> '''',
       IntegrityOwnerLabelKey \<mapsto> ''f'', IntegrityConfigMapNodeLabelKey \<mapsto> ''n1''],
     Annotations = Some [IntegrityLogFilesAddedAnnotation \<mapsto> ''3''], OwnerReferences = [], CreationTimestamp = 9, UID = '''',
     Data = Some [IntegrityLogContentKey \<mapsto> ''log'']\<rparr>"

definition log_world :: world where
  "log_world = sample_world\<lparr>ConfigMaps := [log_cm]\<rparr>"

lemma log_labels [simp]:
  "mget (Labels log_cm) IntegrityOwnerLabelKey = Some ''f''" "mget (Labels log_cm) IntegrityConfigMapNodeLabelKey = Some ''n1''"
  "Namespace log_cm = ''ns''" "Name log_cm = ''aide-f-n1''"
  by (simp_all add: log_cm_def key_defs)

lemma log_world_ok: "statuses_ok log_world"
  by (simp add: statuses_ok_def log_world_def sample_world_def)

lemma log_run: "\<exists>w'. run_state (handleIntegrityLog (mem_client no_faults) log_cm) log_world = (Inr Done, w')"
proof -
  have lab: "getConfigMapForFailureLog log_cm = Inr (failure_log log_cm)"
    by (rule getConfigMapForFailureLog_ok) (simp add: log_cm_def)
  have err: "\<not> IsIntegrityLogAnError log_cm" "IsIntegrityLogAFailure log_cm"
    by (simp_all add: IsIntegrityLogAnError_def IsIntegrityLogAFailure_def log_cm_def mval_def key_defs)
  have names: "GetConfigMapOwnerName log_cm = Inr ''f''" "GetConfigMapNodeName log_cm = Inr ''n1''"
    by (simp_all add: GetConfigMapOwnerName_def GetConfigMapNodeName_def)
  have keys: "Name (failure_log log_cm) = ''aide-f-n1-failed''" "Namespace (failure_log log_cm) = ''ns''"
    by (simp_all add: failure_log_def)
  show ?thesis
    by (simp add: handleIntegrityLog_def names lab err storeFailureLog_def createOrUpdateNodeStatus_def initialStatus_def
        updateNodeStatusMetrics_def createNodeStatusEvent_def failedResult_def log_world_def sample_world_def keys run_simps)
qed

theorem log_not_lost_witness:
  "\<exists>w' ns. run_state (handleIntegrityLog (mem_client no_faults) log_cm) log_world = (Inr Done, w') \<and>
     lookup (ConfigMaps w') (''ns'', ''aide-f-n1'') = None \<and>
     lookup (NodeStatuses w') (''ns'', ''f-n1'') = Some ns \<and> result_of log_cm \<in> set (Results ns)"
proof -
  obtain w' where run: "run_state (handleIntegrityLog (mem_client no_faults) log_cm) log_world = (Inr Done, w')"
    using log_run by blast
  have fi: "lookup (FileIntegrities log_world) (''ns'', ''f'') = Some sample_fi"
    by (simp add: log_world_def sample_world_def nsname_def)
  from log_not_lost [OF mem.kube_api_axioms log_world_ok run] run fi show ?thesis
    by (auto simp: nsname_def)
qed

text \<open>
  C5. The node status invariant holds after every reconcile of a config map, whatever fails: every stored
  status has one result per condition and none newer than its last result. The reconcile of a config
  map changes no FileIntegrity and no daemon set other than re-init ones, and never panics.
\<close>

theorem configmap_reconcile_invariant:
  assumes "kube_api cl" and "statuses_ok w" and "run_state (ConfigMapReconcile cl env request) w = (r, w')"
  shows "statuses_ok w' \<and> (\<forall>e. r = Inl e \<longrightarrow> \<not> is_panic e) \<and> (\<exists>C D N. frame C D {} N w w')"
  using wp_run [OF kube_api.wp_ConfigMapReconcile [OF assms(1,2)] assms(3)] by simp

theorem configmap_reconcile_invariant_witness:
  "\<exists>r w'. run_state (ConfigMapReconcile (mem_client no_faults) sample_env (''ns'', ''aide-f-n1'')) log_world = (r, w') \<and> statuses_ok w'"
proof -
  obtain r w' where run: "run_state (ConfigMapReconcile (mem_client no_faults) sample_env (''ns'', ''aide-f-n1'')) log_world = (r, w')"
    by fastforce
  from configmap_reconcile_invariant [OF mem.kube_api_axioms log_world_ok run] run show ?thesis by blast
qed

section \<open>The gauge\<close>



section \<open>Finishing re-inits\<close>

text \<open>
  C24. A re-init ends when its daemon set is ready and not before. The node that is handled is the last one of the list that the AIDE config
  map is marked with (every node when the list is empty). Without its daemon set the reconcile asks to be repeated and
  leaves the mark; with one that is not ready it comes back in a second and leaves both; with a ready
  one, success means that the daemon set is deleted and exactly this last entry is off the list (no mark when
  it was the only one), with the data and labels of the config map unchanged.
\<close>

theorem reinit_ends_when_ready:
  assumes "kube_api cl" and "mget (Annotations cm) AideConfigUpdatedAnnotationKey = Some v"
    and "mget (Labels cm) IntegrityOwnerLabelKey = Some owner"
    and "run_state (reconcileAideConfAndHandleReinitDs cl env cm) w = (Inr res, w')"
  shows "\<exists>fi. lookup (FileIntegrities w) (Namespace cm, owner) = Some fi \<and>
     (let key = reinit_key env fi (if v = '''' then '''' else last (Split comma v)) in
      case lookup (DaemonSets w) key of
        None \<Rightarrow> res = Again \<and> ConfigMaps w' = ConfigMaps w
      | Some ds \<Rightarrow>
          if \<not> DaemonSetIsReady ds
          then res = \<lparr>Requeue = False, RequeueAfter = 1000000000\<rparr> \<and> ConfigMaps w' = ConfigMaps w \<and> lookup (DaemonSets w') key = Some ds
          else res = Done \<and> lookup (DaemonSets w') key = None \<and>
            (\<exists>cm'. lookup (ConfigMaps w') (nsname cm) = Some cm' \<and>
               mget (Annotations cm') AideConfigUpdatedAnnotationKey
                 = (if length (Split comma v) > 1 then Some (Join (butlast (Split comma v)) '','') else None) \<and>
               (\<forall>k. mget (Data cm') k = mget (Data cm) k) \<and> (\<forall>k. mget (Labels cm') k = mget (Labels cm) k)))"
proof -
  define node nodeList where "node = (if v = '''' then '''' else last (Split comma v))" and "nodeList = (if v = '''' then [] else Split comma v)"
  have nodes: "updatedNodes v = (node, nodeList)" by (simp add: updatedNodes_def node_def nodeList_def Let_def)
  have list: "(length nodeList > 1) = (length (Split comma v) > 1)" "length nodeList > 1 \<Longrightarrow> nodeList = Split comma v"
    by (auto simp: nodeList_def Split_no_sep)
  obtain fi where "lookup (FileIntegrities w) (Namespace cm, owner) = Some fi"
    and "marked_handled env cm fi node nodeList w (Inr res) w'"
    using wp_run [OF kube_api.wp_reconcileAideConf [OF assms(1,2) nodes assms(3)] assms(4)] by auto
  then show ?thesis using list unfolding Let_def node_def [symmetric]
    by (intro exI [of _ fi]) (auto simp: marked_handled_def popped_def split: option.splits if_splits)
qed

definition marked_cm :: "string \<Rightarrow> ConfigMap" where
  "marked_cm v = (defaultAIDEConfigMap sample_env ''f'')\<lparr>Annotations := Some [AideConfigUpdatedAnnotationKey \<mapsto> v]\<rparr>"

definition ready_ds :: DaemonSet where
  "ready_ds = (reinitAideDaemonset sample_env ''aide-ini-f'' sample_fi None ''img:1'')\<lparr>dsStatus :=
     \<lparr>DesiredNumberScheduled = 2, NumberAvailable = 2, UpdatedNumberScheduled = 2, NumberUnavailable = 0\<rparr>\<rparr>"

definition n2_ds :: DaemonSet where
  "n2_ds = ready_ds\<lparr>Name := ReinitDaemonSetNodeName ''f'' ''n2''\<rparr>"

definition marked_world :: world where
  "marked_world = sample_world\<lparr>ConfigMaps := [marked_cm ''n1,n2''], DaemonSets := [n2_ds]\<rparr>"

lemma marked_sel [simp]:
  "mget (Annotations (marked_cm v)) AideConfigUpdatedAnnotationKey = Some v" "Namespace (marked_cm v) = ''ns''"
  "Name (marked_cm v) = ''f''" "mget (Labels (marked_cm v)) IntegrityOwnerLabelKey = Some ''f''"
  "Annotations (marked_cm v) = Some [AideConfigUpdatedAnnotationKey \<mapsto> v]"
  "Name ready_ds = ''aide-ini-f''" "Namespace ready_ds = ''ns''" "DaemonSetIsReady ready_ds"
  by (simp_all add: marked_cm_def ready_ds_def reinitAideDaemonset_def DaemonSetIsReady_def Let_def)

lemma n2_ds_sel:
  "Name n2_ds = ReinitDaemonSetNodeName ''f'' ''n2''" "Namespace n2_ds = ''ns''" "DaemonSetIsReady n2_ds"
  by (simp_all add: n2_ds_def ready_ds_def reinitAideDaemonset_def DaemonSetIsReady_def Let_def)

theorem reinit_ends_when_ready_witness:
  "\<exists>w' cm'. run_state (reconcileAideConfAndHandleReinitDs (mem_client no_faults) sample_env (marked_cm ''n1,n2'')) marked_world = (Inr Done, w')
     \<and> lookup (DaemonSets w') (''ns'', ReinitDaemonSetNodeName ''f'' ''n2'') = None \<and> lookup (ConfigMaps w') (''ns'', ''f'') = Some cm'
     \<and> mget (Annotations cm') AideConfigUpdatedAnnotationKey = Some ''n1''"
proof -
  have owner: "GetConfigMapOwnerName (marked_cm v) = Inr ''f''" for v by (simp add: GetConfigMapOwnerName_def)
  have split: "Split comma ''n1,n2'' = [''n1'', ''n2'']" by simp
  obtain res w' where run: "run_state (reconcileAideConfAndHandleReinitDs (mem_client no_faults) sample_env (marked_cm ''n1,n2'')) marked_world = (Inr res, w')"
    by (simp add: reconcileAideConfAndHandleReinitDs_def owner updatedNodes_def split finishReinit_def mput_def marked_world_def sample_world_def
        n2_ds_sel run_simps)
  have "lookup (FileIntegrities marked_world) (''ns'', ''f'') = Some sample_fi"
    "lookup (DaemonSets marked_world) (''ns'', ReinitDaemonSetNodeName ''f'' ''n2'') = Some n2_ds" "nsname (marked_cm ''n1,n2'') = (''ns'', ''f'')"
    by (simp_all add: marked_world_def sample_world_def nsname_def n2_ds_sel)
  with reinit_ends_when_ready [OF mem.kube_api_axioms marked_sel(1) marked_sel(4) run] run n2_ds_sel(3) show ?thesis
    by (auto simp: split Let_def)
qed

end
