(* ===== verification/Status_Properties.thy ===== *)
theory Status_Properties
  imports Status_Controller CM_Properties
begin

text \<open>
  The properties of the status controller, for every client that obeys the laws of \<open>kube_api\<close>: which
  phase a reconcile reports, what it leaves alone, and that errors of vanished nodes wear off.
\<close>

section \<open>The reported phase\<close>

text \<open>
  C18. A status reconcile that succeeds stores exactly the phase that the daemon sets and node statuses
  of the FileIntegrity call for, and comes back after 30 seconds. The transition is counted and
  announced by exactly one event (a warning for Error) when the phase is a new one, and neither
  when it is the old one. A FileIntegrity that is gone is left alone.
\<close>

theorem status_reports_phase:
  assumes "kube_api cl" and "run_state (StatusReconcile cl env request) w = (Inr res, w')"
  shows "case lookup (FileIntegrities w) request of
      None \<Rightarrow> res = Done \<and> w' = w
    | Some fi \<Rightarrow> (let phase = phase_of env w fi in
        res = \<lparr>Requeue = False, RequeueAfter = 30000000000\<rparr> \<and>
        lookup (FileIntegrities w') = (lookup (FileIntegrities w))(request \<mapsto> fi\<lparr>Phase := phase\<rparr>) \<and>
        metrics w' = (if Phase fi = phase then metrics w else countPhase phase (metrics w)) \<and>
        events w' = events w @ (if Phase fi = phase then [] else
          [\<lparr>evObject = Name fi, evType = (if phase = PhaseError then EventTypeWarning else EventTypeNormal),
            evReason = ''FileIntegrityStatus'', evMessage = phase_string phase\<rparr>]))"
  using wp_run [OF kube_api.wp_StatusReconcile [OF assms(1)] assms(2)]
  by (auto simp: status_outcome_def reported_def Let_def statusRequeue_def lookup_nsname split: option.splits)

definition active_ds :: DaemonSet where
  "active_ds = (aideDaemonset sample_env (DaemonSetName ''f'') sample_fi ''img:1'')\<lparr>dsStatus :=
     \<lparr>DesiredNumberScheduled = 1, NumberAvailable = 1, UpdatedNumberScheduled = 1, NumberUnavailable = 0\<rparr>\<rparr>"

text \<open>A world with a ready daemon set and the given node statuses.\<close>

definition active_world :: "FileIntegrityNodeStatus list \<Rightarrow> world" where
  "active_world sts = sample_world\<lparr>DaemonSets := [active_ds], NodeStatuses := sts\<rparr>"

lemma active_sel [simp]:
  "Name active_ds = DaemonSetName ''f''" "Namespace active_ds = ''ns''" "DaemonSetIsReady active_ds"
  "\<not> DaemonSetIsUpdating active_ds" "\<not> listed \<lparr>loNamespace = '''', loSelector = Some [IntegrityReinitOwnerLabelKey \<mapsto> n]\<rparr> active_ds"
  by (simp_all add: active_ds_def aideDaemonset_def DaemonSetIsReady_def DaemonSetIsUpdating_def Let_def listed_def
      selector_matches_def made_def map_le_def key_defs)

lemma active_phase:
  "phase_of sample_env (active_world sts) sample_fi = (if list_ex errored (owned_statuses (active_world sts) sample_fi) then PhaseError else PhaseActive)"
  by (simp add: phase_of_def active_world_def visible_def nsname_def)

lemma active_stored: "lookup (FileIntegrities (active_world sts)) (''ns'', ''f'') = Some sample_fi"
  by (simp add: active_world_def sample_world_def nsname_def)

text \<open>Without injected failures a reconcile of the active world succeeds.\<close>

lemma active_runs:
  "\<exists>res w'. run_state (StatusReconcile (mem_client no_faults) sample_env (''ns'', ''f'')) (active_world []) = (Inr res, w')"
  by (simp add: StatusReconcile_def mapActiveStatus_def updateStatus_def active_world_def sample_world_def run_simps split: if_splits)

theorem status_reports_phase_witness:
  "\<exists>res w'. run_state (StatusReconcile (mem_client no_faults) sample_env (''ns'', ''f'')) (active_world []) = (Inr res, w')
     \<and> lookup (FileIntegrities w') (''ns'', ''f'') = Some (sample_fi\<lparr>Phase := PhaseActive\<rparr>)"
proof -
  obtain res w' where run: "run_state (StatusReconcile (mem_client no_faults) sample_env (''ns'', ''f'')) (active_world []) = (Inr res, w')"
    using active_runs by blast
  have "phase_of sample_env (active_world []) sample_fi = PhaseActive"
    by (simp add: active_phase) (simp add: owned_statuses_def active_world_def visible_def)
  with status_reports_phase [OF mem.kube_api_axioms run] run show ?thesis by (simp add: active_stored Let_def)
qed

text \<open>
  C19. Whatever calls fail, a status reconcile does not panic, writes nothing but the phase of the
  FileIntegrity, metrics and events, and deletes no node status but those of the FileIntegrity whose
  node is gone: statuses of present nodes and of other FileIntegrities are exactly as before.
\<close>

theorem status_reconcile_safe:
  assumes "kube_api cl" and "run_state (StatusReconcile cl env request) w = (r, w')"
    and "lookup (FileIntegrities w) request = Some fi"
  shows "(\<forall>e. r = Inl e \<longrightarrow> \<not> is_panic e) \<and>
     (\<exists>phase. lookup (FileIntegrities w') = (lookup (FileIntegrities w))(request \<mapsto> fi\<lparr>Phase := phase\<rparr>)) \<and>
     (\<forall>k. lookup (NodeStatuses w') k = lookup (NodeStatuses w) k \<or>
        lookup (NodeStatuses w') k = None \<and>
        (\<exists>ns. lookup (NodeStatuses w) k = Some ns \<and> mget (Labels ns) IntegrityOwnerLabelKey = Some (Name fi) \<and>
           NodeName ns \<notin> node_names w)) \<and>
     (ConfigMaps w', DaemonSets w', Nodes w', Pods w', PriorityClasses w', Deployments w')
       = (ConfigMaps w, DaemonSets w, Nodes w, Pods w, PriorityClasses w, Deployments w)"
proof -
  have out: "status_outcome env request w r w'" by (rule wp_run [OF kube_api.wp_StatusReconcile [OF assms(1)] assms(2)])
  then have only: "only_status fi w w'" using assms(3) by (simp add: status_outcome_def)
  have "(lookup (FileIntegrities w))(request \<mapsto> fi\<lparr>Phase := Phase fi\<rparr>) = lookup (FileIntegrities w)"
    using assms(3) by auto
  with only have "\<exists>phase. lookup (FileIntegrities w') = (lookup (FileIntegrities w))(request \<mapsto> fi\<lparr>Phase := phase\<rparr>)"
    using lookup_nsname [OF assms(3)] unfolding only_status_def by metis
  moreover have "\<exists>ns. lookup (NodeStatuses w) k = Some ns \<and> mget (Labels ns) IntegrityOwnerLabelKey = Some (Name fi) \<and> NodeName ns \<notin> node_names w"
    if "k \<in> stale_keys w fi" for k
    using that by (auto simp: stale_keys_def owned_statuses_def visible_iff listed_def selector_matches_def map_le_def mget_made made_def
        split: option.splits)
  with only have "\<forall>k. lookup (NodeStatuses w') k = lookup (NodeStatuses w) k \<or> lookup (NodeStatuses w') k = None \<and>
      (\<exists>ns. lookup (NodeStatuses w) k = Some ns \<and> mget (Labels ns) IntegrityOwnerLabelKey = Some (Name fi) \<and> NodeName ns \<notin> node_names w)"
    unfolding only_status_def drops_def by blast
  moreover have "\<forall>e. r = Inl e \<longrightarrow> \<not> is_panic e" using out by (auto simp: status_outcome_def)
  moreover have "(ConfigMaps w', DaemonSets w', Nodes w', Pods w', PriorityClasses w', Deployments w')
       = (ConfigMaps w, DaemonSets w, Nodes w, Pods w, PriorityClasses w, Deployments w)"
    by (rule only_status_keeps [OF only])
  ultimately show ?thesis by blast
qed

definition errored_result :: FileIntegrityScanResult where
  "errored_result = emptyResult\<lparr>Condition := NodeConditionErrored, ErrorMsg := ''exit 17''\<rparr>"

text \<open>The status of a node that is not in the cluster.\<close>

definition gone_status :: FileIntegrityNodeStatus where
  "gone_status = n1_status\<lparr>Results := [errored_result], LastResult := errored_result\<rparr>"

definition status_run :: "world \<Rightarrow> (error + Result) \<times> world" where
  "status_run w = run_state (StatusReconcile (mem_client no_faults) sample_env (''ns'', ''f'')) w"

lemma gone_sel [simp]: "Name gone_status = ''f-n1''" "Namespace gone_status = ''ns''" "NodeName gone_status = ''n1''"
    "Labels gone_status = Some [IntegrityOwnerLabelKey \<mapsto> ''f'']" "LastResult gone_status = errored_result"
    "Condition errored_result = NodeConditionErrored" "errored gone_status"
  by (simp_all add: gone_status_def n1_status_def errored_result_def errored_def)

lemma gone_listed: "listed \<lparr>loNamespace = '''', loSelector = Some [IntegrityOwnerLabelKey \<mapsto> ''f'']\<rparr> gone_status"
  by (simp add: listed_def selector_matches_def made_def)

lemma sample_phase: "Phase sample_fi = PhaseUnset"
  by (simp add: sample_fi_def)

lemma gone_runs:
  "\<exists>res w'. status_run (active_world [gone_status]) = (Inr res, w') \<and> (\<exists>res' w''. status_run w' = (Inr res', w''))"
  by (simp add: status_run_def StatusReconcile_def mapActiveStatus_def updateStatus_def active_world_def sample_world_def run_simps
      gone_listed split: if_splits)

theorem status_reconcile_safe_witness:
  "\<exists>r w'. run_state (StatusReconcile (mem_client no_faults) sample_env (''ns'', ''f'')) (active_world [gone_status]) = (r, w')
     \<and> ConfigMaps w' = ConfigMaps sample_world \<and> DaemonSets w' = [active_ds]"
proof -
  obtain r w' where run: "run_state (StatusReconcile (mem_client no_faults) sample_env (''ns'', ''f'')) (active_world [gone_status]) = (r, w')"
    by fastforce
  from status_reconcile_safe [OF mem.kube_api_axioms run active_stored] run show ?thesis
    by (auto simp: active_world_def)
qed

section \<open>Errors of vanished nodes\<close>

definition errored_statuses :: "world \<Rightarrow> FileIntegrity \<Rightarrow> FileIntegrityNodeStatus set" where
  "errored_statuses w fi = {ns \<in> set (owned_statuses w fi). errored ns}"

text \<open>The daemon set runs, and only nodes that are gone have errors.\<close>

definition only_gone_errored :: "Env \<Rightarrow> world \<Rightarrow> FileIntegrity \<Rightarrow> bool" where
  "only_gone_errored env w fi \<longleftrightarrow> phase_of env w fi \<in> {PhaseError, PhaseActive} \<and>
     (\<forall>ns\<in>errored_statuses w fi. NodeName ns \<notin> node_names w)"

lemma status_views_phase [simp]:
  "owned_statuses w (fi\<lparr>Phase := p\<rparr>) = owned_statuses w fi" "phase_of env w (fi\<lparr>Phase := p\<rparr>) = phase_of env w fi"
  "errored_statuses w (fi\<lparr>Phase := p\<rparr>) = errored_statuses w fi"
  "only_gone_errored env w (fi\<lparr>Phase := p\<rparr>) = only_gone_errored env w fi"
  by (simp_all add: owned_statuses_def phase_of_def errored_statuses_def only_gone_errored_def)

lemma phase_errored: "only_gone_errored env w fi \<Longrightarrow>
    phase_of env w fi = (if errored_statuses w fi = {} then PhaseActive else PhaseError)"
  by (auto simp: only_gone_errored_def phase_of_def errored_statuses_def list_ex_iff split: if_splits option.splits)

lemma owned_statuses_drops:
  assumes "drops K (lookup (NodeStatuses w)) (lookup (NodeStatuses w'))"
  shows "ns \<in> set (owned_statuses w' fi) \<Longrightarrow> ns \<in> set (owned_statuses w fi)"
  using assms unfolding owned_statuses_def visible_iff drops_def by (metis option.distinct(1))

lemma phase_running:
  "phase_of env w fi \<in> {PhaseError, PhaseActive} \<Longrightarrow> DaemonSets w' = DaemonSets w \<Longrightarrow> phase_of env w' fi \<in> {PhaseError, PhaseActive}"
  by (auto simp: phase_of_def split: option.splits if_splits)

text \<open>While only vanished nodes have errors, a reconcile keeps it so and removes one of them if there is one.\<close>

lemma gone_step:
  assumes "kube_api cl" and "run_state (StatusReconcile cl env request) w = (Inr res, w')"
    and "lookup (FileIntegrities w) request = Some fi" and "only_gone_errored env w fi"
  shows "lookup (FileIntegrities w') request = Some (fi\<lparr>Phase := phase_of env w fi\<rparr>)" and "only_gone_errored env w' fi"
    and "errored_statuses w' fi \<subseteq> errored_statuses w fi"
    and "errored_statuses w fi \<noteq> {} \<Longrightarrow> errored_statuses w' fi \<noteq> errored_statuses w fi"
proof -
  have "status_outcome env request w (Inr res) w'" by (rule wp_run [OF kube_api.wp_StatusReconcile [OF assms(1)] assms(2)])
  then have rep: "reported env fi w w'" and only: "only_status fi w w'"
    using assms(3) by (simp_all add: status_outcome_def)
  show "lookup (FileIntegrities w') request = Some (fi\<lparr>Phase := phase_of env w fi\<rparr>)"
    using rep lookup_nsname [OF assms(3)] by (simp add: reported_def Let_def)
  have keep: "DaemonSets w' = DaemonSets w" "Nodes w' = Nodes w" using only_status_keeps [OF only] by simp_all
  have drops: "drops (stale_keys w fi) (lookup (NodeStatuses w)) (lookup (NodeStatuses w'))"
    using only by (simp only: only_status_def)
  show sub: "errored_statuses w' fi \<subseteq> errored_statuses w fi"
    using owned_statuses_drops [OF drops] by (auto simp: errored_statuses_def)
  with keep assms(4) phase_running [OF _ keep(1)] show "only_gone_errored env w' fi"
    unfolding only_gone_errored_def node_names_def by auto
  assume "errored_statuses w fi \<noteq> {}"
  with phase_errored [OF assms(4)] have "phase_of env w fi = PhaseError" by simp
  with rep obtain ns where ns: "ns \<in> errored_statuses w fi"
    "NodeName ns \<notin> node_names w \<longrightarrow> lookup (NodeStatuses w') (nsname ns) = None"
    by (auto simp: reported_def errored_statuses_def)
  with assms(4) have "ns \<notin> errored_statuses w' fi"
    by (auto simp: only_gone_errored_def errored_statuses_def owned_statuses_def visible_iff)
  with ns(1) show "errored_statuses w' fi \<noteq> errored_statuses w fi" by blast
qed

text \<open>
  C27. Errors of vanished nodes wear off. A node status whose node is gone makes the phase Error once
  more, in the very reconcile that deletes it; but each successful reconcile removes one, so after as many
  reconciles as there are errored statuses of vanished nodes, and one more, the phase is Active
  (when the daemon set runs and no present node has an error).
\<close>

theorem gone_errors_wear_off:
  assumes "kube_api cl" and "\<forall>i\<le>n. \<exists>res. run_state (StatusReconcile cl env request) (ws i) = (Inr res, ws (Suc i))"
    and "lookup (FileIntegrities (ws 0)) request = Some fi" and "only_gone_errored env (ws 0) fi"
    and "card (errored_statuses (ws 0) fi) \<le> n"
  shows "\<exists>fi'. lookup (FileIntegrities (ws (Suc n))) request = Some fi' \<and> Phase fi' = PhaseActive"
  using assms(2-5)
proof (induction n arbitrary: ws fi)
  case 0
  then obtain res where run: "run_state (StatusReconcile cl env request) (ws 0) = (Inr res, ws (Suc 0))" by blast
  from 0 have "errored_statuses (ws 0) fi = {}" by (simp add: errored_statuses_def)
  with gone_step(1) [OF assms(1) run 0(2,3)] phase_errored [OF 0(3)] show ?case by simp
next
  case (Suc n)
  then obtain res where run: "run_state (StatusReconcile cl env request) (ws 0) = (Inr res, ws (Suc 0))" by blast
  note step = gone_step [OF assms(1) run Suc.prems(2,3)]
  have "card (errored_statuses (ws (Suc 0)) fi) \<le> n"
  proof (cases "errored_statuses (ws 0) fi = {}")
    case True
    with step(3) show ?thesis by simp
  next
    case False
    with step(3,4) have "errored_statuses (ws (Suc 0)) fi \<subset> errored_statuses (ws 0) fi" by blast
    then have "card (errored_statuses (ws (Suc 0)) fi) < card (errored_statuses (ws 0) fi)"
      by (rule psubset_card_mono [rotated]) (simp add: errored_statuses_def)
    with Suc.prems(4) show ?thesis by simp
  qed
  with Suc.IH [of "\<lambda>i. ws (Suc i)" "fi\<lparr>Phase := phase_of env (ws 0) fi\<rparr>"] step(1,2) Suc.prems(1)
  show ?case by auto
qed

theorem gone_errors_wear_off_witness:
  "\<exists>w1 w2 fi1 fi2 res'. status_run (active_world [gone_status]) = (Inr \<lparr>Requeue = False, RequeueAfter = statusRequeue\<rparr>, w1) \<and>
     status_run w1 = (Inr res', w2) \<and>
     lookup (FileIntegrities w1) (''ns'', ''f'') = Some fi1 \<and> Phase fi1 = PhaseError \<and> NodeStatuses w1 = [] \<and>
     lookup (FileIntegrities w2) (''ns'', ''f'') = Some fi2 \<and> Phase fi2 = PhaseActive"
proof -
  obtain res w1 res' w2 where runs: "status_run (active_world [gone_status]) = (Inr res, w1)" "status_run w1 = (Inr res', w2)"
    using gone_runs by blast
  define ws where "ws = (\<lambda>i :: nat. if i = 0 then active_world [gone_status] else if i = 1 then w1 else w2)"
  have owned: "owned_statuses (active_world [gone_status]) sample_fi = [gone_status]"
    by (simp add: owned_statuses_def active_world_def visible_def listed_def selector_matches_def made_def)
  have only: "only_gone_errored sample_env (ws 0) sample_fi"
    by (simp add: only_gone_errored_def ws_def active_phase errored_statuses_def owned)
      (simp add: node_names_def active_world_def sample_world_def visible_def)
  have "\<forall>i\<le>1. \<exists>res. run_state (StatusReconcile (mem_client no_faults) sample_env (''ns'', ''f'')) (ws i) = (Inr res, ws (Suc i))"
    using runs by (auto simp: ws_def status_run_def le_Suc_eq)
  moreover have "errored_statuses (ws 0) sample_fi = {gone_status}"
    by (auto simp: ws_def errored_statuses_def owned)
  ultimately obtain fi2 where
    fi2: "lookup (FileIntegrities w2) (''ns'', ''f'') = Some fi2" "Phase fi2 = PhaseActive"
    using gone_errors_wear_off [OF mem.kube_api_axioms, of 1 sample_env "(''ns'', ''f'')" ws sample_fi] only
    by (auto simp: ws_def active_stored)
  have w1: "res = \<lparr>Requeue = False, RequeueAfter = statusRequeue\<rparr> \<and> NodeStatuses w1 = [] \<and>
      (\<exists>fi1. lookup (FileIntegrities w1) (''ns'', ''f'') = Some fi1 \<and> Phase fi1 = PhaseError)"
    using runs(1) by (auto simp: status_run_def StatusReconcile_def mapActiveStatus_def updateStatus_def active_world_def
        sample_world_def run_simps gone_listed sample_phase split: if_splits)
  from w1 obtain fi1 where "lookup (FileIntegrities w1) (''ns'', ''f'') = Some fi1" "Phase fi1 = PhaseError" by blast
  with w1 fi2 runs show ?thesis by (intro exI [of _ w1] exI [of _ w2] exI [of _ fi1] exI [of _ fi2] exI [of _ res']) simp
qed

end
