(* ===== verification/Node_Controller.thy ===== *)
theory Node_Controller
  imports FI_Controller
begin

text \<open>
  The node controller, \<open>src/pkg/controller/node/node_controller.go\<close>: while the machine config
  operator updates a node, the node is put in the hold-off list of the FileIntegrities that select
  it; when the update is over the node leaves the list and a re-init of its database is requested.
  The annotation keys and state names are constants of the machine config operator.
\<close>

section \<open>The state of a node\<close>

definition CurrentMachineConfigAnnotationKey :: string where
  "CurrentMachineConfigAnnotationKey = ''machineconfiguration.openshift.io/currentConfig''"
definition DesiredMachineConfigAnnotationKey :: string where
  "DesiredMachineConfigAnnotationKey = ''machineconfiguration.openshift.io/desiredConfig''"
definition MachineConfigDaemonStateAnnotationKey :: string where
  "MachineConfigDaemonStateAnnotationKey = ''machineconfiguration.openshift.io/state''"

definition nodeHasMCOAnnotations :: "Node \<Rightarrow> bool" where
  "nodeHasMCOAnnotations n \<longleftrightarrow> mget (Annotations n) CurrentMachineConfigAnnotationKey \<noteq> None \<and>
     mget (Annotations n) DesiredMachineConfigAnnotationKey \<noteq> None \<and>
     mget (Annotations n) MachineConfigDaemonStateAnnotationKey \<noteq> None"

definition isNodeBeingUpdateByMCO :: "string \<Rightarrow> string \<Rightarrow> string \<Rightarrow> bool" where
  "isNodeBeingUpdateByMCO currentConfig desiredConfig mcdState \<longleftrightarrow> currentConfig \<noteq> desiredConfig \<and> mcdState = ''Working''"

definition isNodeUpToDateWithMCO :: "string \<Rightarrow> string \<Rightarrow> string \<Rightarrow> bool" where
  "isNodeUpToDateWithMCO currentConfig desiredConfig mcdState \<longleftrightarrow> currentConfig = desiredConfig \<and> mcdState = ''Done''"

definition isNodeDegraded :: "string \<Rightarrow> bool" where
  "isNodeDegraded mcdState \<longleftrightarrow> mcdState = ''Degraded''"

section \<open>Operations\<close>

text \<open>
  The FileIntegrities whose selector lists the node. Node names are unique, since nodes are cluster
  scoped, so a FileIntegrity is found once.
\<close>

fun findLoop :: "client \<Rightarrow> Node \<Rightarrow> FileIntegrity list \<Rightarrow> FileIntegrity list \<Rightarrow> (error + FileIntegrity list) io" where
  "findLoop cl currentnode [] resultingFIs = ok resultingFIs"
| "findLoop cl currentnode (fi # rest) resultingFIs =
     bindE (ListObjs (nodes cl) \<lparr>loNamespace = '''', loSelector = NodeSelector (fiSpec fi)\<rparr>) (\<lambda>nodeList.
     findLoop cl currentnode rest
       (resultingFIs @ map (\<lambda>_. fi) (filter (\<lambda>node. Name node = Name currentnode) nodeList)))"

definition findRelevantFileIntegrities :: "client \<Rightarrow> Node \<Rightarrow> (error + FileIntegrity list) io" where
  "findRelevantFileIntegrities cl currentnode =
     bindE (ListObjs (fis cl) \<lparr>loNamespace = '''', loSelector = None\<rparr>) (\<lambda>fiList. findLoop cl currentnode fiList [])"

text \<open>
  What the two loops below write into one FileIntegrity, \<open>None\<close> where they \<open>continue\<close>. The release
  computes the re-init annotation from the annotations without the node's hold-off.
\<close>

definition holdoffChange :: "string \<Rightarrow> FileIntegrity \<Rightarrow> gomap option" where
  "holdoffChange node fi =
     (if IsNodeInHoldoff fi node then None
      else (let (newAnnotation, needsChange) = GetAddedNodeHoldoffAnnotation fi node
            in if \<not> needsChange then None else Some newAnnotation))"

definition releaseChange :: "string \<Rightarrow> FileIntegrity \<Rightarrow> gomap option" where
  "releaseChange node fi =
     (if \<not> IsNodeInHoldoff fi node then None
      else if IsNodeInReinit fi node then None
      else (let (newHoldOffAnnotation, hasChanged1) = GetRemovedNodeHoldoffAnnotation fi node;
                (newReinitAnnotation, hasChanged2) =
                  GetAddedNodeReinitAnnotation (fi\<lparr>Annotations := newHoldOffAnnotation\<rparr>) [node]
            in if \<not> (hasChanged1 \<or> hasChanged2) then None else Some newReinitAnnotation))"

text \<open>Writing the changes in order, counting each, until a write fails.\<close>

fun annotateLoop :: "client \<Rightarrow> (FileIntegrity \<Rightarrow> gomap option) \<Rightarrow> (FileIntegrity \<Rightarrow> string) \<Rightarrow> (Metrics \<Rightarrow> Metrics)
    \<Rightarrow> FileIntegrity list \<Rightarrow> error option io" where
  "annotateLoop cl change failure count [] = State_Monad.return None"
| "annotateLoop cl change failure count (fi # rest) =
     (case change fi of
        None \<Rightarrow> annotateLoop cl change failure count rest
      | Some ann \<Rightarrow> do {
          err \<leftarrow> Update (fis cl) (fi\<lparr>Annotations := ann\<rparr>);
          case err of Some e \<Rightarrow> State_Monad.return (Some (Wrapped (failure fi) e))
          | None \<Rightarrow> do { met count; annotateLoop cl change failure count rest } })"

definition addHoldOffAnnotations :: "client \<Rightarrow> FileIntegrity list \<Rightarrow> Node \<Rightarrow> error option io" where
  "addHoldOffAnnotations cl fil n =
     annotateLoop cl (holdoffChange (Name n)) (\<lambda>_. ''failed to add node '' @ Name n @ '' to holdoff list'')
       (IncFileIntegrityPause (Name n)) fil"

definition getAnnotatedFileIntegrities :: "FileIntegrity list \<Rightarrow> Node \<Rightarrow> FileIntegrity list" where
  "getAnnotatedFileIntegrities fil n = filter (\<lambda>fi. IsNodeInHoldoff fi (Name n)) fil"

definition removeHoldoffAnnotationAndReinitFileIntegrityDatabases :: "client \<Rightarrow> FileIntegrity list \<Rightarrow> Node \<Rightarrow> error option io" where
  "removeHoldoffAnnotationAndReinitFileIntegrityDatabases cl fil n =
     annotateLoop cl (releaseChange (Name n))
       (\<lambda>fi. ''failed to update Fileintegrity '' @ Name fi @ '' holdoff and reinit annotations for node '' @ Name n)
       (\<lambda>m. IncFileIntegrityReinitByNode (Name n) (IncFileIntegrityUnpause (Name n) m)) fil"

definition NodeControllerReconcile :: "client \<Rightarrow> NamespacedName \<Rightarrow> (error + Result) io" where
  "NodeControllerReconcile cl request = do {
     r \<leftarrow> Get (nodes cl) request;
     case r of
       Inl e \<Rightarrow> if IsNotFound e then ok Done else throw e
     | Inr node \<Rightarrow>
         (let currentConfig = mval (Annotations node) CurrentMachineConfigAnnotationKey;
              desiredConfig = mval (Annotations node) DesiredMachineConfigAnnotationKey;
              mcdState = mval (Annotations node) MachineConfigDaemonStateAnnotationKey
          in if nodeHasMCOAnnotations node then
               bindE (findRelevantFileIntegrities cl node) (\<lambda>fil.
               if isNodeBeingUpdateByMCO currentConfig desiredConfig mcdState then
                 thenE (addHoldOffAnnotations cl fil node) (ok Done)
               else if isNodeUpToDateWithMCO currentConfig desiredConfig mcdState \<or> isNodeDegraded mcdState then
                 thenE (removeHoldoffAnnotationAndReinitFileIntegrityDatabases cl
                          (getAnnotatedFileIntegrities fil node) node) (ok Again)
               else ok Done)
             else ok Done) }"

section \<open>The outcome\<close>

definition cluster_scoped :: "world \<Rightarrow> bool" where
  "cluster_scoped w \<longleftrightarrow> (\<forall>k nd. lookup (Nodes w) k = Some nd \<longrightarrow> Namespace nd = '''')"

definition selects :: "FileIntegrity \<Rightarrow> Node \<Rightarrow> bool" where
  "selects fi nd \<longleftrightarrow> selector_matches (NodeSelector (fiSpec fi)) (Labels nd)"

text \<open>
  What a loop does to a FileIntegrity of its list: nothing where there is no change to make, the
  change where there is; after an error some changes may be missing.
\<close>

definition rewritten :: "(FileIntegrity \<Rightarrow> gomap option) \<Rightarrow> error option \<Rightarrow> FileIntegrity \<Rightarrow> FileIntegrity \<Rightarrow> bool" where
  "rewritten change r fi fi' \<longleftrightarrow> (case change fi of
       None \<Rightarrow> fi' = fi
     | Some ann \<Rightarrow> served_fi (fi\<lparr>Annotations := ann\<rparr>) fi' \<and> Phase fi' = Phase fi \<or> r \<noteq> None \<and> fi' = fi)"

definition annotated :: "(FileIntegrity \<Rightarrow> gomap option) \<Rightarrow> FileIntegrity list \<Rightarrow> world \<Rightarrow> error option \<Rightarrow> world \<Rightarrow> bool" where
  "annotated change fil w r w' \<longleftrightarrow>
     (\<exists>fl m. w' = w\<lparr>FileIntegrities := fl, metrics := m\<rparr>) \<and>
     eq_off (nsname ` {fi \<in> set fil. change fi \<noteq> None}) (lookup (FileIntegrities w)) (lookup (FileIntegrities w')) \<and>
     (\<forall>e. r = Some e \<longrightarrow> \<not> is_panic e) \<and>
     (\<forall>fi\<in>set fil. \<exists>fi'. lookup (FileIntegrities w') (nsname fi) = Some fi' \<and> rewritten change r fi fi')"

lemma annotated_Cons:
  assumes "annotated change fil w1 r w'" and "nsname fi \<notin> nsname ` set fil"
    and "\<exists>fl m. w1 = w\<lparr>FileIntegrities := fl, metrics := m\<rparr>" and "lookup (FileIntegrities w1) (nsname fi) = Some fi'"
    and "rewritten change r fi fi'"
    and "eq_off (nsname ` {x \<in> {fi}. change x \<noteq> None}) (lookup (FileIntegrities w)) (lookup (FileIntegrities w1))"
  shows "annotated change (fi # fil) w r w'"
proof -
  have off: "eq_off (nsname ` {fi \<in> set fil. change fi \<noteq> None}) (lookup (FileIntegrities w1)) (lookup (FileIntegrities w'))"
    using assms(1) by (simp add: annotated_def)
  have "lookup (FileIntegrities w') (nsname fi) = lookup (FileIntegrities w1) (nsname fi)"
    by (rule eq_offD [OF off]) (use assms(2) in auto)
  then have fi: "\<exists>fi'. lookup (FileIntegrities w') (nsname fi) = Some fi' \<and> rewritten change r fi fi'"
    using assms(4,5) by auto
  have "eq_off (nsname ` {x \<in> set (fi # fil). change x \<noteq> None}) (lookup (FileIntegrities w)) (lookup (FileIntegrities w'))"
    by (rule eq_off_trans [OF eq_off_mono [OF assms(6)] eq_off_mono [OF off]]) auto
  moreover have "\<exists>fl m. w' = w\<lparr>FileIntegrities := fl, metrics := m\<rparr>"
  proof -
    from assms(1,3) obtain fl m fl' m' where "w1 = w\<lparr>FileIntegrities := fl, metrics := m\<rparr>"
      "w' = w1\<lparr>FileIntegrities := fl', metrics := m'\<rparr>" unfolding annotated_def by blast
    then have "w' = w\<lparr>FileIntegrities := fl', metrics := m'\<rparr>" by simp
    then show ?thesis by blast
  qed
  ultimately show ?thesis using fi assms(1) unfolding annotated_def by simp
qed

context kube_api
begin

lemma wp_annotateLoop:
  assumes "distinct (map nsname fil)" and "\<And>fi. fi \<in> set fil \<Longrightarrow> lookup (FileIntegrities w) (nsname fi) = Some fi"
  shows "wp (annotateLoop cl change failure count fil) (annotated change fil w) w"
  using assms
proof (induction fil arbitrary: w)
  case Nil
  show ?case by (auto simp: wp_simps annotated_def intro!: exI [of _ "FileIntegrities w"] exI [of _ "metrics w"])
next
  case (Cons fi fil)
  have new: "nsname fi \<notin> nsname ` set fil" using Cons.prems(1) by simp
  have stored: "lookup (FileIntegrities w) (nsname fi) = Some fi" using Cons.prems(2) by simp
  have same: "\<exists>fl m. w = w\<lparr>FileIntegrities := fl, metrics := m\<rparr>"
    by (intro exI [of _ "FileIntegrities w"] exI [of _ "metrics w"]) simp
  show ?case
  proof (cases "change fi")
    case None
    have "wp (annotateLoop cl change failure count fil) (annotated change fil w) w"
      using Cons.prems by (intro Cons.IH) auto
    then have "wp (annotateLoop cl change failure count fil) (annotated change (fi # fil) w) w"
      by (rule wp_conseq) (erule annotated_Cons [OF _ new same stored], simp_all add: rewritten_def None)
    then show ?thesis using None by simp
  next
    case (Some ann)
    have key: "nsname (fi\<lparr>Annotations := ann\<rparr>) = nsname fi" by simp
    show ?thesis unfolding annotateLoop.simps Some option.case wp_bind
    proof (rule wp_Update_fi, goal_cases)
      case (1 e)
      show ?case unfolding option.case wp_return annotated_def rewritten_def
        using same Cons.prems(2) by (auto split: option.splits)
    next
      case (2 old fi' os)
      let ?w1 = "w\<lparr>FileIntegrities := os, metrics := count (metrics w)\<rparr>"
      have os: "lookup os = (lookup (FileIntegrities w))(nsname fi \<mapsto> fi')" using 2(4) by simp
      have phase: "Phase fi' = Phase fi" using 2(1,3) stored by simp
      have "wp (annotateLoop cl change failure count fil) (annotated change fil ?w1) ?w1"
        using Cons.prems new by (intro Cons.IH) (auto simp: os image_iff)
      then have "wp (annotateLoop cl change failure count fil) (annotated change (fi # fil) w) ?w1"
      proof (rule wp_conseq, goal_cases)
        case (1 r w')
        show ?case by (rule annotated_Cons [OF 1 new, of _ fi']) (use 2(2) in \<open>auto simp: os rewritten_def Some phase intro!: eq_off_upd\<close>)
      qed
      then show ?case by (simp add: wp_simps)
    qed
  qed
qed

end

datatype update_state = Updating | Settled | Unknown

definition update_state_of :: "Node \<Rightarrow> update_state" where
  "update_state_of nd =
     (let cur = mval (Annotations nd) CurrentMachineConfigAnnotationKey;
          des = mval (Annotations nd) DesiredMachineConfigAnnotationKey;
          st = mval (Annotations nd) MachineConfigDaemonStateAnnotationKey
      in if \<not> nodeHasMCOAnnotations nd then Unknown
         else if cur \<noteq> des \<and> st = ''Working'' then Updating
         else if cur = des \<and> st = ''Done'' \<or> st = ''Degraded'' then Settled
         else Unknown)"

definition node_change :: "Node \<Rightarrow> FileIntegrity \<Rightarrow> gomap option" where
  "node_change nd fi = (if \<not> selects fi nd then None else
     case update_state_of nd of
       Updating \<Rightarrow> holdoffChange (Name nd) fi
     | Settled \<Rightarrow> releaseChange (Name nd) fi
     | Unknown \<Rightarrow> None)"

text \<open>Every stored FileIntegrity is rewritten by the change; nothing but them and the metrics is touched.\<close>

definition node_written :: "(FileIntegrity \<Rightarrow> gomap option) \<Rightarrow> world \<Rightarrow> error option \<Rightarrow> world \<Rightarrow> bool" where
  "node_written change w err w' \<longleftrightarrow>
     (\<exists>fl m. w' = w\<lparr>FileIntegrities := fl, metrics := m\<rparr>) \<and>
     (\<forall>e. err = Some e \<longrightarrow> \<not> is_panic e) \<and>
     (\<forall>k. case lookup (FileIntegrities w) k of
        None \<Rightarrow> lookup (FileIntegrities w') k = None
      | Some fi \<Rightarrow> \<exists>fi'. lookup (FileIntegrities w') k = Some fi' \<and> rewritten change err fi fi')"

lemma node_writtenD:
  assumes "node_written change w err w'" and "lookup (FileIntegrities w) k = Some fi"
  shows "\<exists>fi'. lookup (FileIntegrities w') k = Some fi' \<and> rewritten change err fi fi'"
proof -
  have "case lookup (FileIntegrities w) k of None \<Rightarrow> lookup (FileIntegrities w') k = None
      | Some fi \<Rightarrow> \<exists>fi'. lookup (FileIntegrities w') k = Some fi' \<and> rewritten change err fi fi'"
    using assms(1) unfolding node_written_def by blast
  with assms(2) show ?thesis by simp
qed

lemma node_written_refl: "(\<And>e. err = Some e \<Longrightarrow> \<not> is_panic e) \<Longrightarrow> err \<noteq> None \<or> change = (\<lambda>_. None) \<Longrightarrow> node_written change w err w"
  by (auto simp: node_written_def rewritten_def split: option.splits intro!: exI [of _ "FileIntegrities w"] exI [of _ "metrics w"])

lemma node_written_annotated:
  assumes "annotated change0 fil w err w'" and "\<And>fi. fi \<in> set fil \<Longrightarrow> change fi = change0 fi"
    and "\<And>fi. fi \<in> set fil \<Longrightarrow> lookup (FileIntegrities w) (nsname fi) = Some fi"
    and "\<And>fi. lookup (FileIntegrities w) (nsname fi) = Some fi \<Longrightarrow> fi \<notin> set fil \<Longrightarrow> change fi = None"
  shows "node_written change w err w'"
proof -
  have off: "eq_off (nsname ` {fi \<in> set fil. change0 fi \<noteq> None}) (lookup (FileIntegrities w)) (lookup (FileIntegrities w'))"
    using assms(1) by (simp add: annotated_def)
  have "case lookup (FileIntegrities w) k of None \<Rightarrow> lookup (FileIntegrities w') k = None
      | Some fi \<Rightarrow> \<exists>fi'. lookup (FileIntegrities w') k = Some fi' \<and> rewritten change err fi fi'" for k
  proof (cases "\<exists>fi\<in>set fil. nsname fi = k")
    case True
    then obtain fi where fi: "fi \<in> set fil" "nsname fi = k" by blast
    with assms(1) have "\<exists>fi'. lookup (FileIntegrities w') k = Some fi' \<and> rewritten change0 err fi fi'"
      by (auto simp: annotated_def)
    with fi assms(2) [OF fi(1)] assms(3) [OF fi(1)] show ?thesis by (simp add: rewritten_def)
  next
    case False
    then have same: "lookup (FileIntegrities w') k = lookup (FileIntegrities w) k" by (intro eq_offD [OF off]) auto
    show ?thesis
    proof (cases "lookup (FileIntegrities w) k")
      case (Some fi)
      moreover from this lookup_nsname have "nsname fi = k" by blast
      ultimately have "change fi = None" using False assms(4) [of fi] by blast
      with Some same show ?thesis by (simp add: rewritten_def)
    qed (simp add: same)
  qed
  with assms(1) show ?thesis unfolding node_written_def annotated_def by blast
qed

definition node_outcome :: "NamespacedName \<Rightarrow> world \<Rightarrow> error + Result \<Rightarrow> world \<Rightarrow> bool" where
  "node_outcome request w r w' \<longleftrightarrow> (let err = (case r of Inl e \<Rightarrow> Some e | Inr _ \<Rightarrow> None) in
     case lookup (Nodes w) request of
       None \<Rightarrow> w' = w \<and> (\<forall>e. r = Inl e \<longrightarrow> \<not> is_panic e) \<and> (\<forall>res. r = Inr res \<longrightarrow> res = Done)
     | Some nd \<Rightarrow> node_written (node_change nd) w err w' \<and>
         (\<forall>res. r = Inr res \<longrightarrow> res = (if update_state_of nd = Settled then Again else Done)))"

lemma singleton_filter:
  assumes "distinct (map f xs)" and "\<And>x. x \<in> set xs \<Longrightarrow> P x \<Longrightarrow> x = a" and "P a"
  shows "filter P xs = (if a \<in> set xs then [a] else [])"
proof -
  have one: "ys = [] \<or> ys = [a]" if "distinct ys" "set ys \<subseteq> {a}" for ys
    using that by (cases ys; cases "tl ys") auto
  have "filter P xs = [] \<or> filter P xs = [a]"
    by (rule one) (use assms(1,2) in \<open>auto simp: distinct_map\<close>)
  moreover have "a \<in> set (filter P xs) \<longleftrightarrow> a \<in> set xs" using assms(3) by simp
  ultimately show ?thesis by fastforce
qed

context kube_api
begin

lemma wp_findLoop:
  assumes "cluster_scoped w" and "lookup (Nodes w) (nsname nd) = Some nd"
  shows "wp (findLoop cl nd fil acc) (\<lambda>r w'. w' = w \<and> (case r of Inl e \<Rightarrow> \<not> is_panic e
     | Inr xs \<Rightarrow> xs = acc @ filter (\<lambda>fi. selects fi nd) fil)) w"
proof (induction fil arbitrary: acc)
  case Nil
  show ?case by (simp add: wp_simps)
next
  case (Cons fi fil)
  show ?case unfolding findLoop.simps wp_bindE
  proof (rule node.wp_List, goal_cases)
    case (1 e)
    then show ?case by simp
  next
    case (2 os)
    have "filter (\<lambda>node. Name node = Name nd) os = (if nd \<in> set os then [nd] else [])"
    proof (rule singleton_filter [OF 2(1)])
      fix x assume x: "x \<in> set os" "Name x = Name nd"
      then have "lookup (Nodes w) (nsname x) = Some x" using 2(2) by blast
      moreover from this assms x(2) have "nsname x = nsname nd" by (auto simp: cluster_scoped_def nsname_def)
      ultimately show "x = nd" using assms(2) by simp
    qed simp
    moreover have "nd \<in> set os \<longleftrightarrow> selects fi nd"
      using 2(2) [of nd] assms(2) by (simp add: listed_def selects_def)
    ultimately have acc: "acc @ map (\<lambda>_. fi) (filter (\<lambda>node. Name node = Name nd) os) = acc @ (if selects fi nd then [fi] else [])" by simp
    show ?case unfolding sum.case acc
      by (rule wp_conseq [OF Cons.IH]) (auto split: sum.splits)
  qed
qed

lemma wp_findRelevantFileIntegrities:
  assumes "cluster_scoped w" and "lookup (Nodes w) (nsname nd) = Some nd"
  shows "wp (findRelevantFileIntegrities cl nd) (\<lambda>r w'. w' = w \<and> (case r of Inl e \<Rightarrow> \<not> is_panic e
     | Inr xs \<Rightarrow> distinct (map nsname xs) \<and>
         (\<forall>fi. fi \<in> set xs \<longleftrightarrow> lookup (FileIntegrities w) (nsname fi) = Some fi \<and> selects fi nd))) w"
  unfolding findRelevantFileIntegrities_def wp_bindE
proof (rule fi.wp_List, goal_cases)
  case (1 e)
  then show ?case by simp
next
  case (2 os)
  have all: "fi \<in> set os \<longleftrightarrow> lookup (FileIntegrities w) (nsname fi) = Some fi" for fi
    using 2(2) [of fi] by (simp add: listed_def selector_matches_def made_def)
  show ?case unfolding sum.case
    by (rule wp_conseq [OF wp_findLoop [OF assms, of os "[]"]])
      (auto simp: all 2(1) distinct_filter_keys split: sum.splits)
qed

lemma wp_written:
  assumes "distinct (map nsname fil)" and "\<And>fi. fi \<in> set fil \<Longrightarrow> lookup (FileIntegrities w) (nsname fi) = Some fi"
    and "\<And>fi. fi \<in> set fil \<Longrightarrow> change fi = change0 fi"
    and "\<And>fi. lookup (FileIntegrities w) (nsname fi) = Some fi \<Longrightarrow> fi \<notin> set fil \<Longrightarrow> change fi = None"
  shows "wp (annotateLoop cl change0 failure count fil) (node_written change w) w"
proof (rule wp_conseq [OF wp_annotateLoop [OF assms(1)]])
  fix err w' assume "annotated change0 fil w err w'"
  then show "node_written change w err w'" by (rule node_written_annotated) (use assms in blast)+
qed (rule assms(2))

lemma wp_node_result:
  assumes "wp m (node_written (node_change nd) w) w" and "lookup (Nodes w) request = Some nd"
    and "res = (if update_state_of nd = Settled then Again else Done)"
  shows "wp (thenE m (ok res)) (node_outcome request w) w"
  unfolding wp_thenE
proof (rule wp_conseq [OF assms(1)], goal_cases)
  case (1 err w')
  with assms(2,3) show ?case by (cases err) (simp_all add: wp_ok node_outcome_def)
qed

text \<open>Nothing is asked for a node whose state is not known.\<close>

lemma node_written_unknown: "update_state_of nd = Unknown \<Longrightarrow> node_written (node_change nd) w None w"
  by (intro node_written_refl) (auto simp: node_change_def)

text \<open>The annotations that the state of the node calls for.\<close>

lemma wp_update_step:
  assumes nd: "lookup (Nodes w) request = Some nd" and mco: "nodeHasMCOAnnotations nd" and fil: "distinct (map nsname fil)"
    "\<And>fi. fi \<in> set fil \<longleftrightarrow> lookup (FileIntegrities w) (nsname fi) = Some fi \<and> selects fi nd"
  shows "wp (let currentConfig = mval (Annotations nd) CurrentMachineConfigAnnotationKey; desiredConfig = mval (Annotations nd) DesiredMachineConfigAnnotationKey;
       mcdState = mval (Annotations nd) MachineConfigDaemonStateAnnotationKey in
     if isNodeBeingUpdateByMCO currentConfig desiredConfig mcdState then thenE (addHoldOffAnnotations cl fil nd) (ok Done)
     else if isNodeUpToDateWithMCO currentConfig desiredConfig mcdState \<or> isNodeDegraded mcdState then
       thenE (removeHoldoffAnnotationAndReinitFileIntegrityDatabases cl (getAnnotatedFileIntegrities fil nd) nd) (ok Again)
     else ok Done) (node_outcome request w) w"
proof -
  let ?cur = "mval (Annotations nd) CurrentMachineConfigAnnotationKey"
    and ?des = "mval (Annotations nd) DesiredMachineConfigAnnotationKey"
    and ?st = "mval (Annotations nd) MachineConfigDaemonStateAnnotationKey"
  have upd: "isNodeBeingUpdateByMCO ?cur ?des ?st \<longleftrightarrow> update_state_of nd = Updating"
    "isNodeUpToDateWithMCO ?cur ?des ?st \<or> isNodeDegraded ?st \<longleftrightarrow> update_state_of nd = Settled"
    using mco by (auto simp: update_state_of_def isNodeBeingUpdateByMCO_def isNodeUpToDateWithMCO_def isNodeDegraded_def Let_def)
  show ?thesis
  proof (cases "update_state_of nd")
    case Updating
    have "wp (addHoldOffAnnotations cl fil nd) (node_written (node_change nd) w) w"
      unfolding addHoldOffAnnotations_def
      by (rule wp_written) (use fil Updating in \<open>auto simp: node_change_def\<close>)
    from wp_node_result [OF this nd, of Done] Updating show ?thesis by (simp add: upd)
  next
    case Settled
    have "wp (removeHoldoffAnnotationAndReinitFileIntegrityDatabases cl (getAnnotatedFileIntegrities fil nd) nd)
        (node_written (node_change nd) w) w"
      unfolding removeHoldoffAnnotationAndReinitFileIntegrityDatabases_def
      by (rule wp_written) (use fil Settled in \<open>auto simp: node_change_def getAnnotatedFileIntegrities_def releaseChange_def
            intro: distinct_filter_keys\<close>)
    from wp_node_result [OF this nd, of Again] Settled show ?thesis by (simp add: upd)
  next
    case Unknown
    with nd node_written_unknown [OF Unknown, of w] show ?thesis by (simp add: upd wp_simps node_outcome_def)
  qed
qed

lemma wp_NodeControllerReconcile:
  assumes "cluster_scoped w"
  shows "wp (NodeControllerReconcile cl request) (node_outcome request w) w"
  unfolding NodeControllerReconcile_def wp_bind
proof (rule node.wp_Get, goal_cases)
  case (1 e)
  then show ?case
    by (auto simp: wp_simps node_outcome_def Let_def intro!: node_written_refl split: option.splits)
next
  case nd: (2 nd)
  show ?case
  proof (cases "nodeHasMCOAnnotations nd")
    case False
    then have "update_state_of nd = Unknown" by (simp add: update_state_of_def)
    with False nd node_written_unknown [OF this, of w] show ?thesis by (simp add: Let_def wp_simps node_outcome_def)
  next
    case mco: True
    have stored: "lookup (Nodes w) (nsname nd) = Some nd" using nd by simp
    show ?thesis unfolding sum.case Let_def if_P [OF mco]
      by (rule wp_bindE_rule [OF wp_findRelevantFileIntegrities [OF assms stored]])
        (use nd wp_update_step [OF nd(1) mco, unfolded Let_def] in \<open>auto simp: node_outcome_def Let_def intro!: node_written_refl\<close>)
  qed
qed

end

end
