(* ===== verification/Node_Properties.thy ===== *)
theory Node_Properties
  imports Node_Controller CM_Properties
begin

text \<open>
  The properties of the node controller: a node is held off for as long as it is updated and its
  database is re-initialised once afterwards, for every client that obeys the laws of \<open>kube_api\<close>.
\<close>

section \<open>One FileIntegrity\<close>

lemma IsNodeIn_mget: "IsNodeIn fi n k \<longleftrightarrow> (case mget (Annotations fi) k of None \<Rightarrow> False
    | Some l \<Rightarrow> l = '''' \<or> n \<in> set (Split comma l))"
  by (auto simp: IsNodeIn_def mget_def list_ex_iff split: option.splits)

lemma holdoff_change:
  assumes "wf_nodes (ann_of fi IntegrityHoldoffAnnotationKey)" and "dns_name n"
  shows "if IsNodeInHoldoff fi n then holdoffChange n fi = None
    else \<exists>a. holdoffChange n fi = Some (Some a) \<and>
      node_entries (a IntegrityHoldoffAnnotationKey) = node_entries (ann_of fi IntegrityHoldoffAnnotationKey) @ [n] \<and>
      wf_nodes (a IntegrityHoldoffAnnotationKey) \<and> (\<forall>k. k \<noteq> IntegrityHoldoffAnnotationKey \<longrightarrow> a k = ann_of fi k)"
proof (cases "IsNodeInHoldoff fi n")
  case False
  then have fresh: "holdoff_fresh fi n"
    using assms(1) by (simp add: IsNodeInHoldoff_def IsNodeIn_entries holdoff_fresh_def)
  from holdoff.add_entries [OF assms fresh] obtain a where a: "GetAddedNodeHoldoffAnnotation fi n = (Some a, True)"
    "node_entries (a IntegrityHoldoffAnnotationKey) = node_entries (ann_of fi IntegrityHoldoffAnnotationKey) @ [n]"
    "\<forall>k. k \<noteq> IntegrityHoldoffAnnotationKey \<longrightarrow> a k = ann_of fi k" by blast
  with holdoff.add_wf [OF assms fresh a(1)] False show ?thesis by (simp add: holdoffChange_def)
qed (simp add: holdoffChange_def)

lemma release_change:
  assumes "wf_nodes (ann_of fi IntegrityHoldoffAnnotationKey)" and "wf_nodes (ann_of fi AideDatabaseReinitAnnotationKey)"
    and "dns_name n" and "IsNodeInHoldoff fi n" and "reinit_fresh fi n"
  shows "\<exists>a. releaseChange n fi = Some (Some a) \<and>
      node_entries (a IntegrityHoldoffAnnotationKey) = filter (\<lambda>x. x \<noteq> n) (node_entries (ann_of fi IntegrityHoldoffAnnotationKey)) \<and>
      node_entries (a AideDatabaseReinitAnnotationKey) = node_entries (ann_of fi AideDatabaseReinitAnnotationKey) @ [n] \<and>
      (\<forall>k. k \<noteq> IntegrityHoldoffAnnotationKey \<longrightarrow> k \<noteq> AideDatabaseReinitAnnotationKey \<longrightarrow> a k = ann_of fi k)"
proof -
  have n: "n \<in> set (node_entries (ann_of fi IntegrityHoldoffAnnotationKey))"
    using assms(1,4) by (simp add: IsNodeInHoldoff_def IsNodeIn_entries)
  have out: "\<not> IsNodeInReinit fi n"
    using assms(2) reinit.fresh_new [OF assms(5)] by (simp add: IsNodeInReinit_def IsNodeIn_entries)
  from holdoff.remove_entries [OF assms(1) n] obtain h where h: "GetRemovedNodeHoldoffAnnotation fi n = (Some h, True)"
    "node_entries (h IntegrityHoldoffAnnotationKey) = filter (\<lambda>x. x \<noteq> n) (node_entries (ann_of fi IntegrityHoldoffAnnotationKey))"
    "\<forall>k. k \<noteq> IntegrityHoldoffAnnotationKey \<longrightarrow> h k = ann_of fi k" by blast
  let ?fi = "fi\<lparr>Annotations := Some h\<rparr>"
  have "wf_nodes (ann_of ?fi AideDatabaseReinitAnnotationKey)" "reinit_fresh ?fi n"
    using assms(2,5) h(3) by (simp_all add: reinit_fresh_def)
  from reinit.add_entries [OF this(1) assms(3) this(2)] obtain a where a: "add_reinit ?fi n = (Some a, True)"
    "node_entries (a AideDatabaseReinitAnnotationKey) = node_entries (ann_of ?fi AideDatabaseReinitAnnotationKey) @ [n]"
    "\<forall>k. k \<noteq> AideDatabaseReinitAnnotationKey \<longrightarrow> a k = ann_of ?fi k" by blast
  from a h assms(4) out show ?thesis by (intro exI [of _ a]) (simp add: releaseChange_def)
qed

text \<open>What a successful reconcile leaves of a stored FileIntegrity.\<close>

lemma node_reconcile_step:
  assumes "kube_api cl" and "cluster_scoped w" and "run_state (NodeControllerReconcile cl request) w = (Inr res, w')"
    and "lookup (Nodes w) request = Some nd" and "lookup (FileIntegrities w) k = Some fi"
  shows "\<exists>fi'. lookup (FileIntegrities w') k = Some fi' \<and> rewritten (node_change nd) None fi fi'"
    and "res = (if update_state_of nd = Settled then Again else Done)"
    and "\<exists>fl m. w' = w\<lparr>FileIntegrities := fl, metrics := m\<rparr>"
proof -
  have out: "node_outcome request w (Inr res) w'"
    by (rule wp_run [OF kube_api.wp_NodeControllerReconcile [OF assms(1,2)] assms(3)])
  then have wr: "node_written (node_change nd) w None w'"
    and res: "res = (if update_state_of nd = Settled then Again else Done)"
    using assms(4) by (simp_all add: node_outcome_def Let_def)
  show "res = (if update_state_of nd = Settled then Again else Done)" by (rule res)
  show "\<exists>fi'. lookup (FileIntegrities w') k = Some fi' \<and> rewritten (node_change nd) None fi fi'"
    by (rule node_writtenD [OF wr assms(5)])
  show "\<exists>fl m. w' = w\<lparr>FileIntegrities := fl, metrics := m\<rparr>" using wr unfolding node_written_def by blast
qed

text \<open>
  While the machine config operator updates a node, a successful reconcile of the node puts it in the
  hold-off list of every FileIntegrity that selects it: afterwards exactly this node and those
  held off before are held off, and neither the spec nor any other annotation has changed.
\<close>

theorem node_update_holds_off:
  assumes "kube_api cl" and "cluster_scoped w" and "run_state (NodeControllerReconcile cl request) w = (Inr res, w')"
    and "lookup (Nodes w) request = Some nd" and "update_state_of nd = Updating" and "dns_name (Name nd)"
    and "lookup (FileIntegrities w) k = Some fi" and "selects fi nd" and "wf_nodes (ann_of fi IntegrityHoldoffAnnotationKey)"
  shows "res = Done \<and> (\<exists>fi'. lookup (FileIntegrities w') k = Some fi' \<and>
     (\<forall>m. IsNodeInHoldoff fi' m \<longleftrightarrow> m = Name nd \<or> IsNodeInHoldoff fi m) \<and>
     fiSpec fi' = fiSpec fi \<and> (\<forall>a. a \<noteq> IntegrityHoldoffAnnotationKey \<longrightarrow> ann_of fi' a = ann_of fi a))"
proof -
  note step = node_reconcile_step [OF assms(1-4,7)]
  from step(1) obtain fi' where fi': "lookup (FileIntegrities w') k = Some fi'" "rewritten (node_change nd) None fi fi'" by blast
  have change: "node_change nd fi = holdoffChange (Name nd) fi" using assms(5,8) by (simp add: node_change_def)
  have "(\<forall>m. IsNodeInHoldoff fi' m \<longleftrightarrow> m = Name nd \<or> IsNodeInHoldoff fi m) \<and> fiSpec fi' = fiSpec fi \<and>
      (\<forall>a. a \<noteq> IntegrityHoldoffAnnotationKey \<longrightarrow> ann_of fi' a = ann_of fi a)"
  proof (cases "IsNodeInHoldoff fi (Name nd)")
    case True
    with holdoff_change [OF assms(9,6)] fi'(2) show ?thesis by (auto simp: rewritten_def change)
  next
    case False
    with holdoff_change [OF assms(9,6)] obtain a where a: "holdoffChange (Name nd) fi = Some (Some a)"
      "node_entries (a IntegrityHoldoffAnnotationKey) = node_entries (ann_of fi IntegrityHoldoffAnnotationKey) @ [Name nd]"
      "wf_nodes (a IntegrityHoldoffAnnotationKey)" "\<forall>k. k \<noteq> IntegrityHoldoffAnnotationKey \<longrightarrow> a k = ann_of fi k"
      by auto
    with fi'(2) have "served_fi (fi\<lparr>Annotations := Some a\<rparr>) fi'" by (simp add: rewritten_def change)
    note served = served_fiD [OF this]
    have "IsNodeInHoldoff fi' m \<longleftrightarrow> m \<in> set (node_entries (a IntegrityHoldoffAnnotationKey))" for m
      using a(3) served(3) by (simp add: IsNodeInHoldoff_def IsNodeIn_entries)
    then have "IsNodeInHoldoff fi' m \<longleftrightarrow> m = Name nd \<or> IsNodeInHoldoff fi m" for m
      using a(2) assms(9) by (auto simp: IsNodeInHoldoff_def IsNodeIn_entries)
    with served(3,4) a(4) show ?thesis by simp
  qed
  with fi'(1) step(2) assms(5) show ?thesis by auto
qed

section \<open>A small cluster\<close>

definition mco_node :: "string \<Rightarrow> string \<Rightarrow> string \<Rightarrow> string \<Rightarrow> Node" where
  "mco_node name cur des st = \<lparr>Name = name, Namespace = '''', Labels = Some [''role'' \<mapsto> ''worker''],
     Annotations = Some [CurrentMachineConfigAnnotationKey \<mapsto> cur, DesiredMachineConfigAnnotationKey \<mapsto> des,
       MachineConfigDaemonStateAnnotationKey \<mapsto> st], OwnerReferences = [], CreationTimestamp = 0, UID = ''''\<rparr>"

definition mco_world :: "Node \<Rightarrow> gomap \<Rightarrow> world" where
  "mco_world nd ann = sample_world\<lparr>Nodes := [nd], FileIntegrities := [sample_fi\<lparr>Annotations := ann\<rparr>]\<rparr>"

lemmas mco_keys = CurrentMachineConfigAnnotationKey_def DesiredMachineConfigAnnotationKey_def MachineConfigDaemonStateAnnotationKey_def

lemma mco_node_sel [simp]:
  "Name (mco_node n c d s) = n" "Namespace (mco_node n c d s) = ''''" "selects (sample_fi\<lparr>Annotations := a\<rparr>) (mco_node n c d s)"
  "update_state_of (mco_node n c d s) = (if c \<noteq> d \<and> s = ''Working'' then Updating
     else if c = d \<and> s = ''Done'' \<or> s = ''Degraded'' then Settled else Unknown)"
  by (simp_all add: mco_node_def selects_def selector_matches_def made_def sample_fi_def update_state_of_def nodeHasMCOAnnotations_def
      mco_keys mval_def)

lemma mco_world_sel:
  "cluster_scoped (mco_world (mco_node n c d s) ann)" "lookup (Nodes (mco_world (mco_node n c d s) ann)) ('''', n) = Some (mco_node n c d s)"
  "lookup (FileIntegrities (mco_world nd ann)) (''ns'', ''f'') = Some (sample_fi\<lparr>Annotations := ann\<rparr>)"
  by (simp_all add: mco_world_def cluster_scoped_def nsname_def)

text \<open>Without injected failures a reconcile of the node succeeds.\<close>

lemma mco_runs:
  assumes "Nodes w = [mco_node n c d s]" and "FileIntegrities w = [sample_fi\<lparr>Annotations := ann\<rparr>]"
  shows "\<exists>res w' ann'. run_state (NodeControllerReconcile (mem_client no_faults) ('''', n)) w = (Inr res, w') \<and>
     FileIntegrities w' = [sample_fi\<lparr>Annotations := ann'\<rparr>]"
proof -
  let ?nd = "mco_node n c d s"
  have listed: "listed \<lparr>loNamespace = '''', loSelector = NodeSelector (fiSpec (sample_fi\<lparr>Annotations := ann\<rparr>))\<rparr> ?nd"
    "listed \<lparr>loNamespace = '''', loSelector = None\<rparr> (sample_fi\<lparr>Annotations := ann\<rparr>)"
    using mco_node_sel(3) [of ann n c d s] by (simp_all add: listed_def selects_def selector_matches_def made_def)
  show ?thesis
    using listed by (simp add: NodeControllerReconcile_def findRelevantFileIntegrities_def assms addHoldOffAnnotations_def
        removeHoldoffAnnotationAndReinitFileIntegrityDatabases_def getAnnotatedFileIntegrities_def run_simps split: option.splits)
       (auto)
qed

lemma mco_world_lists: "Nodes (mco_world nd ann) = [nd]" "FileIntegrities (mco_world nd ann) = [sample_fi\<lparr>Annotations := ann\<rparr>]"
  by (simp_all add: mco_world_def)

theorem node_update_holds_off_witness:
  "\<exists>w' fi'. run_state (NodeControllerReconcile (mem_client no_faults) ('''', ''n1'')) (mco_world (mco_node ''n1'' ''a'' ''b'' ''Working'') None) = (Inr Done, w')
     \<and> lookup (FileIntegrities w') (''ns'', ''f'') = Some fi' \<and> IsNodeInHoldoff fi' ''n1''"
proof -
  let ?w = "mco_world (mco_node ''n1'' ''a'' ''b'' ''Working'') None"
  obtain res w' where run: "run_state (NodeControllerReconcile (mem_client no_faults) ('''', ''n1'')) ?w = (Inr res, w')"
    using mco_runs [OF mco_world_lists] by blast
  have "wf_nodes (ann_of (sample_fi\<lparr>Annotations := None\<rparr>) IntegrityHoldoffAnnotationKey)" "dns_name ''n1''"
    by (simp_all add: wf_nodes_def dns_name_def dns_char_def)
  with node_update_holds_off [OF mem.kube_api_axioms mco_world_sel(1) run mco_world_sel(2) _ _ mco_world_sel(3)] run
  show ?thesis by auto
qed

section \<open>The whole update\<close>

text \<open>
  C20. The hold-off of a node update is a round trip. When a node is updated (first reconcile) and
  then done or degraded (second reconcile, after the node object has changed), every FileIntegrity
  that selects it has the hold-off list it had before the update, its re-init list has the node
  appended, and the spec and all other annotations are as before, provided that both lists are
  well-formed, the node was in neither of them, its name is not a substring of the re-init list, and
  nothing but nodes changed in between.
\<close>

theorem node_update_cycle:
  assumes "kube_api cl" and "cluster_scoped w" and "run_state (NodeControllerReconcile cl request) w = (Inr res1, w1)"
    and "lookup (Nodes w) request = Some nd" and "update_state_of nd = Updating" and "dns_name (Name nd)"
    and "cluster_scoped w2" and "w2 = w1\<lparr>Nodes := nds\<rparr>" and "lookup nds request = Some nd'" and "update_state_of nd' = Settled"
    and "run_state (NodeControllerReconcile cl request) w2 = (Inr res2, w3)"
    and "lookup (FileIntegrities w) k = Some fi" and "selects fi nd" and "selects fi nd'"
    and "wf_nodes (ann_of fi IntegrityHoldoffAnnotationKey)" and "wf_nodes (ann_of fi AideDatabaseReinitAnnotationKey)"
    and "\<not> IsNodeInHoldoff fi (Name nd)" and "reinit_fresh fi (Name nd)"
  shows "\<exists>fi'. lookup (FileIntegrities w3) k = Some fi' \<and> fiSpec fi' = fiSpec fi \<and>
     node_entries (ann_of fi' IntegrityHoldoffAnnotationKey) = node_entries (ann_of fi IntegrityHoldoffAnnotationKey) \<and>
     node_entries (ann_of fi' AideDatabaseReinitAnnotationKey) = node_entries (ann_of fi AideDatabaseReinitAnnotationKey) @ [Name nd] \<and>
     (\<forall>a. a \<noteq> IntegrityHoldoffAnnotationKey \<longrightarrow> a \<noteq> AideDatabaseReinitAnnotationKey \<longrightarrow> ann_of fi' a = ann_of fi a)"
proof -
  let ?H = IntegrityHoldoffAnnotationKey and ?R = AideDatabaseReinitAnnotationKey and ?n = "Name nd"
  have name: "Name nd' = ?n" using lookup_nsname [OF assms(4)] lookup_nsname [OF assms(9)] by (auto simp: nsname_def)
  obtain f1 where f1: "lookup (FileIntegrities w1) k = Some f1" "rewritten (node_change nd) None fi f1"
    using node_reconcile_step(1) [OF assms(1-4,12)] by blast
  obtain a where a: "holdoffChange ?n fi = Some (Some a)" "node_entries (a ?H) = node_entries (ann_of fi ?H) @ [?n]"
    "wf_nodes (a ?H)" "\<forall>k. k \<noteq> ?H \<longrightarrow> a k = ann_of fi k"
    using holdoff_change [OF assms(15,6)] assms(17) by auto
  with f1(2) assms(5,13) have "served_fi (fi\<lparr>Annotations := Some a\<rparr>) f1" by (simp add: rewritten_def node_change_def)
  note s1 = served_fiD [OF this]
  have r1: "ann_of f1 ?R = ann_of fi ?R" using s1(3) a(4) by simp
  have "lookup (FileIntegrities w2) k = Some f1" "lookup (Nodes w2) request = Some nd'" using f1(1) assms(8,9) by simp_all
  from node_reconcile_step(1) [OF assms(1,7,11) this(2,1)] obtain f2 where
    f2: "lookup (FileIntegrities w3) k = Some f2" "rewritten (node_change nd') None f1 f2" by blast
  have hold1: "wf_nodes (ann_of f1 ?H)" "IsNodeInHoldoff f1 ?n"
    using a(2,3) s1(3) by (simp_all add: IsNodeInHoldoff_def IsNodeIn_entries)
  have "reinit_fresh f1 ?n" "wf_nodes (ann_of f1 ?R)" using assms(16,18) r1 by (simp_all add: reinit_fresh_def)
  from release_change [OF hold1(1) this(2) assms(6) hold1(2) this(1)] obtain b where b: "releaseChange ?n f1 = Some (Some b)"
    "node_entries (b ?H) = filter (\<lambda>x. x \<noteq> ?n) (node_entries (ann_of f1 ?H))"
    "node_entries (b ?R) = node_entries (ann_of f1 ?R) @ [?n]" "\<forall>k. k \<noteq> ?H \<longrightarrow> k \<noteq> ?R \<longrightarrow> b k = ann_of f1 k" by blast
  have "selects f1 nd'" using assms(14) s1(4) by (simp add: selects_def)
  with f2(2) b(1) assms(10) have "served_fi (f1\<lparr>Annotations := Some b\<rparr>) f2" by (simp add: rewritten_def node_change_def name)
  note s2 = served_fiD [OF this]
  have "filter (\<lambda>x. x \<noteq> ?n) (node_entries (ann_of fi ?H)) = node_entries (ann_of fi ?H)"
    using assms(15,17) by (auto simp: IsNodeInHoldoff_def IsNodeIn_entries intro!: filter_True)
  with s1 s2 a b r1 f2(1) show ?thesis by (intro exI [of _ f2]) simp
qed

theorem node_update_cycle_witness:
  "\<exists>w1 w3 fi'. run_state (NodeControllerReconcile (mem_client no_faults) ('''', ''n1'')) (mco_world (mco_node ''n1'' ''a'' ''b'' ''Working'') None) = (Inr Done, w1)
     \<and> run_state (NodeControllerReconcile (mem_client no_faults) ('''', ''n1'')) (w1\<lparr>Nodes := [mco_node ''n1'' ''b'' ''b'' ''Done'']\<rparr>) = (Inr Again, w3)
     \<and> lookup (FileIntegrities w3) (''ns'', ''f'') = Some fi'
     \<and> node_entries (ann_of fi' IntegrityHoldoffAnnotationKey) = [] \<and> node_entries (ann_of fi' AideDatabaseReinitAnnotationKey) = [''n1'']"
proof -
  let ?w = "mco_world (mco_node ''n1'' ''a'' ''b'' ''Working'') None" and ?nd' = "mco_node ''n1'' ''b'' ''b'' ''Done''"
  let ?rec = "NodeControllerReconcile (mem_client no_faults) ('''', ''n1'')"
  obtain res1 w1 ann where run1: "run_state ?rec ?w = (Inr res1, w1)" and fis: "FileIntegrities w1 = [sample_fi\<lparr>Annotations := ann\<rparr>]"
    using mco_runs [OF mco_world_lists] by blast
  let ?w2 = "w1\<lparr>Nodes := [?nd']\<rparr>"
  have w2: "cluster_scoped ?w2" "lookup (Nodes ?w2) ('''', ''n1'') = Some ?nd'" by (simp_all add: cluster_scoped_def nsname_def)
  obtain res2 w3 where run2: "run_state ?rec ?w2 = (Inr res2, w3)" using mco_runs [of ?w2] fis by fastforce
  note step1 = node_reconcile_step [OF mem.kube_api_axioms mco_world_sel(1) run1 mco_world_sel(2,3)]
  have "lookup (FileIntegrities ?w2) (''ns'', ''f'') = Some (sample_fi\<lparr>Annotations := ann\<rparr>)" using fis by (simp add: nsname_def)
  note step2 = node_reconcile_step [OF mem.kube_api_axioms w2(1) run2 w2(2) this]
  have dns: "dns_name ''n1''" "wf_nodes None" by (simp_all add: dns_name_def dns_char_def wf_nodes_def)
  with node_update_cycle [OF mem.kube_api_axioms mco_world_sel(1) run1 mco_world_sel(2) _ _ w2(1) refl _ _ run2 mco_world_sel(3)]
    run1 run2 step1(2) step2(2) show ?thesis
    by (fastforce simp: nsname_def IsNodeInHoldoff_def IsNodeIn_def reinit_fresh_def)
qed

section \<open>Safety\<close>

text \<open>The changes of a FileIntegrity concern two annotations only.\<close>

abbreviation node_keys :: "string set" where
  "node_keys \<equiv> {IntegrityHoldoffAnnotationKey, AideDatabaseReinitAnnotationKey}"

lemma holdoff_change_keys:
  "holdoffChange n fi = Some ann \<Longrightarrow> k \<notin> node_keys \<Longrightarrow> mget ann k = mget (Annotations fi) k"
  by (auto simp: holdoffChange_def GetAddedNodeHoldoffAnnotation_def mset_key_def mget_made Let_def split: if_splits option.splits)

lemma removed_holdoff_keys:
  assumes "GetRemovedNodeHoldoffAnnotation fi n = (h, b)" and "IsNodeInHoldoff fi n" and "k \<noteq> IntegrityHoldoffAnnotationKey"
  shows "mget h k = mget (Annotations fi) k"
proof -
  obtain a l where "Annotations fi = Some a" "a IntegrityHoldoffAnnotationKey = Some l"
    using assms(2) by (auto simp: IsNodeInHoldoff_def IsNodeIn_def split: option.splits)
  with assms show ?thesis
    by (auto simp: GetRemovedNodeHoldoffAnnotation_def mset_key_def mdelete_def mget_def Let_def split: if_splits)
qed

lemma release_change_keys:
  assumes "releaseChange n fi = Some ann" and "k \<notin> node_keys"
  shows "mget ann k = mget (Annotations fi) k"
proof -
  obtain h b where h: "GetRemovedNodeHoldoffAnnotation fi n = (h, b)" by fastforce
  let ?fi = "fi\<lparr>Annotations := h\<rparr>"
  obtain need where g: "GetAddedNodeReinitAnnotation ?fi [n] = (ann, need)" and held: "IsNodeInHoldoff fi n" and out: "\<not> IsNodeInReinit fi n"
    using assms(1) h by (auto simp: releaseChange_def split: if_splits prod.splits)
  note kept = removed_holdoff_keys [OF h held]
  have "mget (Annotations ?fi) AideDatabaseReinitAnnotationKey \<noteq> Some ''''"
    using kept [of AideDatabaseReinitAnnotationKey] out by (auto simp: IsNodeInReinit_def IsNodeIn_mget)
  then have "\<not> need \<Longrightarrow> mget ann k = mget (Annotations ?fi) k"
    using g by (auto simp: GetAddedNodeReinitAnnotation_def Let_def mget_made split: if_splits option.splits)
  with GetAdded_reinit(2) [OF g, of k] assms(2) kept [of k] show ?thesis by (cases need) auto
qed

lemma node_change_keys: "node_change nd fi = Some ann \<Longrightarrow> k \<notin> node_keys \<Longrightarrow> mget ann k = mget (Annotations fi) k"
  using holdoff_change_keys [of "Name nd" fi ann k] release_change_keys [of "Name nd" fi ann k]
  by (auto simp: node_change_def split: if_splits update_state.splits)

lemma served_annotations: "served_fi (fi\<lparr>Annotations := ann\<rparr>) fi' \<Longrightarrow> served_fi (fi\<lparr>Annotations := Annotations fi'\<rparr>) fi'"
  by (cases fi; cases fi') (simp add: served_fi_def canon_meta_def)

lemma rewritten_node_change:
  assumes "rewritten (node_change nd) err fi fi'"
  shows "served_fi (fi\<lparr>Annotations := Annotations fi'\<rparr>) fi'" and "Phase fi' = Phase fi"
    and "k \<notin> node_keys \<Longrightarrow> mget (Annotations fi') k = mget (Annotations fi) k" and "\<not> selects fi nd \<Longrightarrow> fi' = fi"
proof -
  have "served_fi (fi\<lparr>Annotations := Annotations fi'\<rparr>) fi' \<and> Phase fi' = Phase fi \<and>
    (k \<notin> node_keys \<longrightarrow> mget (Annotations fi') k = mget (Annotations fi) k)"
  proof (cases "fi' = fi")
    case False
    with assms obtain ann where ann: "node_change nd fi = Some ann" "served_fi (fi\<lparr>Annotations := ann\<rparr>) fi'" "Phase fi' = Phase fi"
      by (auto simp: rewritten_def split: option.splits)
    then show ?thesis using served_annotations [OF ann(2)] served_fiD(3) [OF ann(2), of k] node_change_keys [OF ann(1), of k] by simp
  qed simp
  then show "served_fi (fi\<lparr>Annotations := Annotations fi'\<rparr>) fi'" and "Phase fi' = Phase fi"
    and "k \<notin> node_keys \<Longrightarrow> mget (Annotations fi') k = mget (Annotations fi) k" by blast+
  show "\<not> selects fi nd \<Longrightarrow> fi' = fi" using assms by (simp add: rewritten_def node_change_def)
qed

text \<open>
  C21. Whatever calls fail, a reconcile of a node does not panic and writes nothing but the hold-off and the re-init annotation of
  FileIntegrities that select the node: no FileIntegrity appears or vanishes; each keeps its name, labels, owner references,
  spec and phase and all its other annotations; one that does not select the node is untouched, and so is
  every other kind of object.
\<close>

theorem node_reconcile_safe:
  assumes "kube_api cl" and "cluster_scoped w" and "run_state (NodeControllerReconcile cl request) w = (r, w')"
  shows "(\<forall>e. r = Inl e \<longrightarrow> \<not> is_panic e) \<and>
     (\<forall>k. lookup (FileIntegrities w) k = None \<longrightarrow> lookup (FileIntegrities w') k = None) \<and>
     (\<forall>k fi. lookup (FileIntegrities w) k = Some fi \<longrightarrow> (\<exists>fi'. lookup (FileIntegrities w') k = Some fi' \<and>
        Name fi' = Name fi \<and> Namespace fi' = Namespace fi \<and> OwnerReferences fi' = OwnerReferences fi \<and>
        (\<forall>a. mget (Labels fi') a = mget (Labels fi) a) \<and> fiSpec fi' = fiSpec fi \<and> Phase fi' = Phase fi \<and>
        (\<forall>a. a \<notin> {IntegrityHoldoffAnnotationKey, AideDatabaseReinitAnnotationKey} \<longrightarrow> mget (Annotations fi') a = mget (Annotations fi) a) \<and>
        (\<forall>nd. lookup (Nodes w) request = Some nd \<and> \<not> selects fi nd \<longrightarrow> fi' = fi))) \<and>
     (\<exists>fl m. w' = w\<lparr>FileIntegrities := fl, metrics := m\<rparr>)"
proof -
  have out: "node_outcome request w r w'" by (rule wp_run [OF kube_api.wp_NodeControllerReconcile [OF assms(1,2)] assms(3)])
  show ?thesis
  proof (cases "lookup (Nodes w) request")
    case None
    with out have "w' = w" "\<forall>e. r = Inl e \<longrightarrow> \<not> is_panic e" by (simp_all add: node_outcome_def Let_def)
    then show ?thesis by (auto intro!: exI [of _ "FileIntegrities w"] exI [of _ "metrics w"])
  next
    case (Some nd)
    let ?err = "case r of Inl e \<Rightarrow> Some e | Inr _ \<Rightarrow> None"
    from Some out have wr: "node_written (node_change nd) w ?err w'" by (simp add: node_outcome_def Let_def)
    have "\<exists>fi'. lookup (FileIntegrities w') k = Some fi' \<and>
        Name fi' = Name fi \<and> Namespace fi' = Namespace fi \<and> OwnerReferences fi' = OwnerReferences fi \<and>
        (\<forall>a. mget (Labels fi') a = mget (Labels fi) a) \<and> fiSpec fi' = fiSpec fi \<and> Phase fi' = Phase fi \<and>
        (\<forall>a. a \<notin> node_keys \<longrightarrow> mget (Annotations fi') a = mget (Annotations fi) a) \<and> (\<not> selects fi nd \<longrightarrow> fi' = fi)"
      if fi: "lookup (FileIntegrities w) k = Some fi" for k fi
    proof -
      from node_writtenD [OF wr fi] obtain fi' where fi': "lookup (FileIntegrities w') k = Some fi'"
        "rewritten (node_change nd) ?err fi fi'" by blast
      note kept = rewritten_node_change [OF fi'(2)]
      show ?thesis using fi'(1) kept served_fiD(2,4) [OF kept(1)] served_fi_meta [OF kept(1)] by (intro exI [of _ fi']) simp
    qed
    moreover have "lookup (FileIntegrities w') k = None" if "lookup (FileIntegrities w) k = None" for k
    proof -
      from wr have "case lookup (FileIntegrities w) k of None \<Rightarrow> lookup (FileIntegrities w') k = None
        | Some fi \<Rightarrow> \<exists>fi'. lookup (FileIntegrities w') k = Some fi' \<and> rewritten (node_change nd) ?err fi fi'"
        unfolding node_written_def by blast
      with that show ?thesis by simp
    qed
    moreover have "\<forall>e. r = Inl e \<longrightarrow> \<not> is_panic e" "\<exists>fl m. w' = w\<lparr>FileIntegrities := fl, metrics := m\<rparr>"
      using wr unfolding node_written_def by (auto split: sum.splits)
    ultimately show ?thesis using Some by simp
  qed
qed

theorem node_reconcile_safe_witness:
  "\<exists>r w'. run_state (NodeControllerReconcile (mem_client no_faults) ('''', ''n1'')) (mco_world (mco_node ''n1'' ''a'' ''b'' ''Working'') None) = (r, w')
     \<and> (\<exists>fi'. lookup (FileIntegrities w') (''ns'', ''f'') = Some fi' \<and> fiSpec fi' = fiSpec sample_fi \<and> Phase fi' = Phase sample_fi)"
proof -
  let ?w = "mco_world (mco_node ''n1'' ''a'' ''b'' ''Working'') None"
  obtain r w' where run: "run_state (NodeControllerReconcile (mem_client no_faults) ('''', ''n1'')) ?w = (r, w')" by fastforce
  from node_reconcile_safe [OF mem.kube_api_axioms mco_world_sel(1) run] mco_world_sel(3) run show ?thesis by fastforce
qed

section \<open>Where the contract of the node lists does not reach\<close>

text \<open>
  C34. A node whose name is a substring of a listed one loses its re-init. When the node is done and
  held off, its name is not an entry of the re-init list but a substring of it, a successful
  reconcile takes it out of hold-off without requesting its re-init: the checks go on with
  the database from before the update.
\<close>

theorem node_release_loses_reinit:
  assumes "kube_api cl" and "cluster_scoped w" and "run_state (NodeControllerReconcile cl request) w = (Inr res, w')"
    and "lookup (Nodes w) request = Some nd" and "update_state_of nd = Settled" and "dns_name (Name nd)"
    and "lookup (FileIntegrities w) k = Some fi" and "selects fi nd"
    and "wf_nodes (ann_of fi IntegrityHoldoffAnnotationKey)" and "wf_nodes (ann_of fi AideDatabaseReinitAnnotationKey)"
    and "IsNodeInHoldoff fi (Name nd)"
    and "ann_of fi AideDatabaseReinitAnnotationKey = Some s" and "Contains s (Name nd)" and "Name nd \<notin> set (Split comma s)"
  shows "\<exists>fi'. lookup (FileIntegrities w') k = Some fi' \<and> \<not> IsNodeInHoldoff fi' (Name nd) \<and> \<not> IsNodeInReinit fi' (Name nd) \<and>
     ann_of fi' AideDatabaseReinitAnnotationKey = Some s"
proof -
  let ?n = "Name nd" and ?H = IntegrityHoldoffAnnotationKey and ?R = AideDatabaseReinitAnnotationKey
  obtain fi' where fi': "lookup (FileIntegrities w') k = Some fi'" "rewritten (node_change nd) None fi fi'"
    using node_reconcile_step(1) [OF assms(1-4,7)] by blast
  have n: "?n \<in> set (node_entries (ann_of fi ?H))" using assms(9,11) by (simp add: IsNodeInHoldoff_def IsNodeIn_entries)
  from holdoff.remove_entries [OF assms(9) n] obtain h where h: "GetRemovedNodeHoldoffAnnotation fi ?n = (Some h, True)"
    "node_entries (h ?H) = filter (\<lambda>x. x \<noteq> ?n) (node_entries (ann_of fi ?H))" "\<forall>k. k \<noteq> ?H \<longrightarrow> h k = ann_of fi k" by blast
  let ?fi = "fi\<lparr>Annotations := Some h\<rparr>"
  have hr: "ann_of ?fi ?R = Some s" using h(3) assms(12) by simp
  have wf: "wf_nodes (ann_of ?fi ?R)" using hr assms(10,12) by simp
  have "\<not> IsNodeInReinit fi ?n" using assms(10,12,14) by (simp add: IsNodeInReinit_def IsNodeIn_entries)
  with h(1) assms(11) reinit_add_substring_dropped [OF wf hr assms(13,14)]
  have "releaseChange ?n fi = Some (Some h)" by (simp add: releaseChange_def)
  with fi'(2) assms(5,8) have "served_fi ?fi fi'" by (simp add: rewritten_def node_change_def)
  note served = served_fiD(3) [OF this]
  have "wf_nodes (h ?H)" using holdoff.remove_wf [OF assms(9) n h(1)] by simp
  with served h(2) have "\<not> IsNodeInHoldoff fi' ?n" by (simp add: IsNodeInHoldoff_def IsNodeIn_entries)
  moreover have "\<not> IsNodeInReinit fi' ?n" using served hr wf assms(14) by (simp add: IsNodeInReinit_def IsNodeIn_entries)
  ultimately show ?thesis using fi'(1) served hr by simp
qed

theorem node_release_loses_reinit_witness:
  "\<exists>w' fi'. run_state (NodeControllerReconcile (mem_client no_faults) ('''', ''n1'')) (mco_world (mco_node ''n1'' ''b'' ''b'' ''Done'')
       (Some [IntegrityHoldoffAnnotationKey \<mapsto> ''n1'', AideDatabaseReinitAnnotationKey \<mapsto> ''n10''])) = (Inr Again, w')
     \<and> lookup (FileIntegrities w') (''ns'', ''f'') = Some fi' \<and> \<not> IsNodeInHoldoff fi' ''n1'' \<and> \<not> IsNodeInReinit fi' ''n1''"
proof -
  let ?ann = "Some [IntegrityHoldoffAnnotationKey \<mapsto> ''n1'', AideDatabaseReinitAnnotationKey \<mapsto> ''n10'']"
  let ?w = "mco_world (mco_node ''n1'' ''b'' ''b'' ''Done'') ?ann"
  obtain res w' where run: "run_state (NodeControllerReconcile (mem_client no_faults) ('''', ''n1'')) ?w = (Inr res, w')"
    using mco_runs [OF mco_world_lists] by blast
  have res: "res = Again"
    using node_reconcile_step(2) [OF mem.kube_api_axioms mco_world_sel(1) run mco_world_sel(2,3)] by simp
  let ?fi = "sample_fi\<lparr>Annotations := ?ann\<rparr>"
  have pre: "dns_name (Name (mco_node ''n1'' ''b'' ''b'' ''Done''))" "selects ?fi (mco_node ''n1'' ''b'' ''b'' ''Done'')"
    "wf_nodes (ann_of ?fi IntegrityHoldoffAnnotationKey)" "wf_nodes (ann_of ?fi AideDatabaseReinitAnnotationKey)"
    "IsNodeInHoldoff ?fi (Name (mco_node ''n1'' ''b'' ''b'' ''Done''))" "ann_of ?fi AideDatabaseReinitAnnotationKey = Some ''n10''"
    "Contains ''n10'' (Name (mco_node ''n1'' ''b'' ''b'' ''Done''))" "Name (mco_node ''n1'' ''b'' ''b'' ''Done'') \<notin> set (Split comma ''n10'')"
    by (simp_all add: node_list_eval)
  from node_release_loses_reinit [OF mem.kube_api_axioms mco_world_sel(1) run mco_world_sel(2) _ pre(1) mco_world_sel(3) pre(2-8)] run res
  show ?thesis by auto
qed

text \<open>
  Hold-off of every node is never over. When all nodes are held off (the empty value) and no
  re-init is pending, every successful reconcile of a node that is done requests a re-init of the node
  and leaves the hold-off in place, and asks to be repeated; so when the re-init has been handled
  and its request removed, the next reconcile requests it again.
\<close>

theorem holdoff_all_reinit_again:
  assumes "kube_api cl" and "cluster_scoped w" and "run_state (NodeControllerReconcile cl request) w = (Inr res, w')"
    and "lookup (Nodes w) request = Some nd" and "update_state_of nd = Settled" and "dns_name (Name nd)"
    and "lookup (FileIntegrities w) k = Some fi" and "selects fi nd"
    and "ann_of fi IntegrityHoldoffAnnotationKey = Some ''''" and "ann_of fi AideDatabaseReinitAnnotationKey = None"
  shows "res = Again \<and> (\<exists>fi'. lookup (FileIntegrities w') k = Some fi' \<and> ann_of fi' IntegrityHoldoffAnnotationKey = Some '''' \<and>
     ann_of fi' AideDatabaseReinitAnnotationKey = Some (Name nd))"
proof -
  note step = node_reconcile_step [OF assms(1-4,7)]
  from step(1) obtain fi' where fi': "lookup (FileIntegrities w') k = Some fi'" "rewritten (node_change nd) None fi fi'" by blast
  obtain a where a: "GetRemovedNodeHoldoffAnnotation fi (Name nd) = (Some a, True)" "a IntegrityHoldoffAnnotationKey = Some ''''"
    using holdoff_all_never_left [OF assms(9,6)] by blast
  have "IsNodeInHoldoff fi (Name nd)" "\<not> IsNodeInReinit fi (Name nd)"
    using assms(9,10) by (simp_all add: IsNodeInHoldoff_def IsNodeInReinit_def IsNodeIn_mget)
  moreover have "a AideDatabaseReinitAnnotationKey = None"
    using a(1) assms(9,10) calculation(1) by (auto simp: GetRemovedNodeHoldoffAnnotation_def mset_key_def mdelete_def mget_made Let_def split: if_splits)
  ultimately have "releaseChange (Name nd) fi = Some (Some (a(AideDatabaseReinitAnnotationKey \<mapsto> Name nd)))"
    using a(1) by (simp add: releaseChange_def GetAddedNodeReinitAnnotation_def mset_key_def made_def)
  with fi'(2) assms(5,8) have "served_fi (fi\<lparr>Annotations := Some (a(AideDatabaseReinitAnnotationKey \<mapsto> Name nd))\<rparr>) fi'"
    by (simp add: rewritten_def node_change_def)
  from served_fiD(3) [OF this] a(2) fi'(1) step(2) assms(5) show ?thesis by simp
qed

theorem holdoff_all_reinit_again_witness:
  "\<exists>w' fi'. run_state (NodeControllerReconcile (mem_client no_faults) ('''', ''n1'')) (mco_world (mco_node ''n1'' ''b'' ''b'' ''Done'')
       (Some [IntegrityHoldoffAnnotationKey \<mapsto> ''''])) = (Inr Again, w')
     \<and> lookup (FileIntegrities w') (''ns'', ''f'') = Some fi' \<and> ann_of fi' AideDatabaseReinitAnnotationKey = Some ''n1''"
proof -
  let ?w = "mco_world (mco_node ''n1'' ''b'' ''b'' ''Done'') (Some [IntegrityHoldoffAnnotationKey \<mapsto> ''''])"
  obtain res w' where run: "run_state (NodeControllerReconcile (mem_client no_faults) ('''', ''n1'')) ?w = (Inr res, w')"
    using mco_runs [OF mco_world_lists] by blast
  have "dns_name ''n1''" by (simp add: dns_name_def dns_char_def)
  with holdoff_all_reinit_again [OF mem.kube_api_axioms mco_world_sel(1) run mco_world_sel(2) _ _ mco_world_sel(3)] run
  show ?thesis by auto
qed

end
