(* ===== verification/Backoff.thy ===== *)
theory Backoff
  imports Client
begin

text \<open>
  \<open>backoff.Retry\<close> with \<open>WithMaxRetries(NewExponentialBackOff(), n)\<close>
  (\<open>src/vendor/github.com/cenkalti/backoff/v4\<close>), as the daemon and the operator use it: the operation runs
  until it succeeds, returns a permanent error, has been retried \<open>n\<close> times, or the exponential
  back-off gives up because its time is over. When that happens is not determined by the program;
  \<open>stop\<close> says, for each number of retries left, whether it does. The operation is told how many
  retries are left, so that what it reads from outside may differ from attempt to attempt.
\<close>

datatype 'e attempt = Finished | Transient 'e | Permanent 'e

fun Retry :: "(nat \<Rightarrow> bool) \<Rightarrow> nat \<Rightarrow> (nat \<Rightarrow> ('s, 'e attempt) state) \<Rightarrow> ('s, 'e option) state" where
  "Retry stop 0 op = do {
     r \<leftarrow> op 0;
     case r of Finished \<Rightarrow> State_Monad.return None | Transient e \<Rightarrow> State_Monad.return (Some e)
     | Permanent e \<Rightarrow> State_Monad.return (Some e) }"
| "Retry stop (Suc n) op = do {
     r \<leftarrow> op (Suc n);
     case r of Finished \<Rightarrow> State_Monad.return None
     | Transient e \<Rightarrow> if stop (Suc n) then State_Monad.return (Some e) else Retry stop n op
     | Permanent e \<Rightarrow> State_Monad.return (Some e) }"

definition attempt_of :: "'e option \<Rightarrow> 'e attempt" where
  "attempt_of err = (case err of None \<Rightarrow> Finished | Some e \<Rightarrow> Transient e)"

lemma wp_case_attempt [wp_simps]:
  "wp (case r of Finished \<Rightarrow> a | Transient e \<Rightarrow> b e | Permanent e \<Rightarrow> c e) Q s
     = (case r of Finished \<Rightarrow> wp a Q s | Transient e \<Rightarrow> wp (b e) Q s | Permanent e \<Rightarrow> wp (c e) Q s)"
  by (simp split: attempt.splits)

text \<open>
  An invariant that holds before every attempt and that each failed attempt keeps holds at the end,
  and the last attempt decides the result.
\<close>

lemma wp_Retry:
  assumes "I s" and "\<And>k s. k \<le> n \<Longrightarrow> I s \<Longrightarrow> wp (op k) (\<lambda>r s'. case r of Finished \<Rightarrow> Q None s'
      | Transient e \<Rightarrow> I s' \<and> Q (Some e) s' | Permanent e \<Rightarrow> Q (Some e) s') s"
  shows "wp (Retry stop n op) Q s"
  using assms
proof (induction n arbitrary: s)
  case 0
  from 0(2) [of 0 s] 0(1) show ?case
    by (auto simp: wp_simps elim!: wp_conseq split: attempt.splits)
next
  case (Suc n)
  show ?case unfolding Retry.simps wp_bind
  proof (rule wp_conseq [OF Suc.prems(2) [of "Suc n" s]], goal_cases)
    case (3 r s')
    moreover have "wp (Retry stop n op) Q s'" if "I s'" using that Suc.prems(2) by (intro Suc.IH) auto
    ultimately show ?case by (auto simp: wp_simps split: attempt.splits)
  qed (use Suc.prems(1) in auto)
qed

end
