(* ===== verification/Log_Collector.thy ===== *)
theory Log_Collector
  imports ConfigMap_Controller Backoff
begin

text \<open>
  What the daemon reports, \<open>src/cmd/manager/logcollector_util.go\<close>: the counts it reads off an AIDE
  log, the encoding of a compressed log, the config maps that carry a result to the config map
  controller, and the calls that upload them. A byte is a \<open>char\<close>, so \<open>[]byte\<close> and \<open>string\<close> are
  both \<open>string\<close>. The gzip compressor of the Go library is not modelled; the upload takes the
  compressed bytes as an argument.
\<close>

section \<open>Counts\<close>

text \<open>
  The three expressions are \<open>\s+X entries:\s+(\d+)\<close>. The class \<open>\s\<close> of the Go library is tab, newline,
  form feed, carriage return and space; \<open>\d\<close> is a decimal digit. A match at a position is
  determined: the literal starts and the number consists of characters that are not spaces, so each
  \<open>\s+\<close> takes a whole run of spaces, and \<open>\d+\<close> takes all digits. \<open>FindStringSubmatch\<close> is the leftmost match.
\<close>

definition re_space :: "char \<Rightarrow> bool" where
  "re_space c \<longleftrightarrow> c \<in> {CHR 0x09, CHR 0x0A, CHR 0x0C, CHR 0x0D, CHR '' ''}"

definition match_at :: "string \<Rightarrow> string \<Rightarrow> string option" where
  "match_at lit s =
     (if s \<noteq> [] \<and> re_space (hd s) then
        (let s1 = dropWhile re_space s in
         if HasPrefix s1 lit then
           (let s2 = drop (length lit) s1 in
            if s2 \<noteq> [] \<and> re_space (hd s2) then
              (let num = takeWhile is_digit (dropWhile re_space s2) in if num \<noteq> [] then Some num else None)
            else None)
         else None)
      else None)"

fun FindStringSubmatch :: "string \<Rightarrow> string \<Rightarrow> string option" where
  "FindStringSubmatch lit [] = None"
| "FindStringSubmatch lit (c # s) = (case match_at lit (c # s) of Some m \<Rightarrow> Some m | None \<Rightarrow> FindStringSubmatch lit s)"

definition reFilesAdded :: string where "reFilesAdded = ''Added entries:''"
definition reFilesChanged :: string where "reFilesChanged = ''Changed entries:''"
definition reFilesRemoved :: string where "reFilesRemoved = ''Removed entries:''"

definition matchFileChangeRegex :: "string \<Rightarrow> string \<Rightarrow> string" where
  "matchFileChangeRegex contents re = (case FindStringSubmatch re contents of None \<Rightarrow> ''0'' | Some m \<Rightarrow> m)"

definition annotateFileChangeSummary :: "string \<Rightarrow> (string \<rightharpoonup> string) \<Rightarrow> (string \<rightharpoonup> string)" where
  "annotateFileChangeSummary contents annotations = annotations(
     IntegrityLogFilesAddedAnnotation \<mapsto> matchFileChangeRegex contents reFilesAdded,
     IntegrityLogFilesChangedAnnotation \<mapsto> matchFileChangeRegex contents reFilesChanged,
     IntegrityLogFilesRemovedAnnotation \<mapsto> matchFileChangeRegex contents reFilesRemoved)"

section \<open>Encoding\<close>

definition configMapMaxSize :: nat where "configMapMaxSize = 1048570"

definition needsCompression :: "int \<Rightarrow> bool" where
  "needsCompression sz \<longleftrightarrow> sz > int configMapMaxSize"

text \<open>The alphabet A to Z, a to z, 0 to 9, + and /.\<close>

definition b64_char :: "nat \<Rightarrow> char" where
  "b64_char i = char_of (if i < 26 then 65 + i else if i < 52 then 71 + i else if i < 62 then i - 4 else if i = 62 then 43 else 47)"

abbreviation byte :: "char \<Rightarrow> nat" where "byte c \<equiv> of_char c"

text \<open>\<open>base64.StdEncoding\<close>: three bytes are four digits of six bits, padded at the end.\<close>

fun encodetoBase64 :: "string \<Rightarrow> string" where
  "encodetoBase64 [] = []"
| "encodetoBase64 [a] = [b64_char (byte a div 4), b64_char (byte a mod 4 * 16), CHR ''='', CHR ''='']"
| "encodetoBase64 [a, b] = [b64_char (byte a div 4), b64_char (byte a mod 4 * 16 + byte b div 16),
     b64_char (byte b mod 16 * 4), CHR ''='']"
| "encodetoBase64 (a # b # c # rest) = b64_char (byte a div 4) # b64_char (byte a mod 4 * 16 + byte b div 16)
     # b64_char (byte b mod 16 * 4 + byte c div 64) # b64_char (byte c mod 64) # encodetoBase64 rest"

section \<open>Config maps\<close>

text \<open>The owner reference is not a controller reference here.\<close>

definition log_owner :: "FileIntegrity \<Rightarrow> OwnerReference" where
  "log_owner owner = \<lparr>orAPIVersion = ''fileintegrity.openshift.io/v1alpha1'', orKind = ''FileIntegrity'',
     orName = Name owner, orUID = UID owner, orController = False\<rparr>"

definition log_labels_of :: "FileIntegrity \<Rightarrow> string \<Rightarrow> gomap" where
  "log_labels_of owner node = Some [IntegrityOwnerLabelKey \<mapsto> Name owner, IntegrityLogLabelKey \<mapsto> '''',
     IntegrityConfigMapNodeLabelKey \<mapsto> node]"

definition too_large :: "nat \<Rightarrow> string \<Rightarrow> string" where
  "too_large sz node = ''compressed AIDE log is too large for a configMap ('' @ Itoa (int sz)
     @ '') - fetch it from /etc/kubernetes/aide.log on node '' @ node"

definition encoded_too_large :: "nat \<Rightarrow> string \<Rightarrow> string" where
  "encoded_too_large sz node = ''compressed, encoded AIDE log is too large for a configMap ('' @ Itoa (int sz)
     @ '') - fetch it from /etc/kubernetes/aide.log on node '' @ node"

text \<open>The content that goes into the config map, checked twice since the encoding is longer.\<close>

definition logContents :: "string \<Rightarrow> string \<Rightarrow> string \<Rightarrow> string" where
  "logContents node contents compressedContents =
     (let sz = length compressedContents;
          strcontents = (if sz > 0 then (if sz > configMapMaxSize then too_large sz node else encodetoBase64 compressedContents)
                         else contents)
      in if length strcontents > configMapMaxSize then encoded_too_large (length strcontents) node else strcontents)"

definition newLogConfigMap :: "FileIntegrity \<Rightarrow> string \<Rightarrow> string \<Rightarrow> string \<Rightarrow> string \<Rightarrow> string \<Rightarrow> ConfigMap" where
  "newLogConfigMap owner configMapName contentkey node contents compressedContents =
     (let annotations = annotateFileChangeSummary contents Map.empty;
          annotations = (if length compressedContents > 0 then annotations(CompressedLogsIndicatorLabelKey \<mapsto> '''') else annotations);
          strcontents = logContents node contents compressedContents
      in \<lparr>Name = configMapName, Namespace = '''', Labels = log_labels_of owner node, Annotations = Some annotations,
          OwnerReferences = [log_owner owner], CreationTimestamp = 0, UID = '''', Data = Some [contentkey \<mapsto> strcontents]\<rparr>)"

definition newInformationalConfigMap :: "FileIntegrity \<Rightarrow> string \<Rightarrow> string \<Rightarrow> gomap \<Rightarrow> ConfigMap" where
  "newInformationalConfigMap owner configMapName node annotations =
     \<lparr>Name = configMapName, Namespace = '''', Labels = log_labels_of owner node, Annotations = annotations,
      OwnerReferences = [log_owner owner], CreationTimestamp = 0, UID = '''', Data = None\<rparr>"

section \<open>Uploading\<close>

record daemonConfig =
  LogCollectorFile :: string
  FileIntegrityName :: string
  LogCollectorConfigMapName :: string
  dcNamespace :: string
  LogCollectorNode :: string
  LogCollectorTimeout :: int
  Interval :: int
  dcMaxBackups :: int
  LogCollectorCompress :: bool
  Local :: bool
  Pprof :: bool
  FileDir :: string
  RunDir :: string
  ConfigDir :: string

definition maxRetries :: nat where "maxRetries = 5"

definition getConfigMapName :: "string \<Rightarrow> string \<Rightarrow> string" where
  "getConfigMapName prefix nodeName = prefix @ ''-'' @ nodeName"

text \<open>
  One attempt: an older report that is still there is deleted to make room. The request names the
  namespace of the daemon.
\<close>

definition createOverwriting :: "client \<Rightarrow> daemonConfig \<Rightarrow> ConfigMap \<Rightarrow> error attempt io" where
  "createOverwriting cl conf confMap0 =
     (let confMap = confMap0\<lparr>Namespace := dcNamespace conf\<rparr> in do {
        err \<leftarrow> Create (cms cl) confMap;
        case err of
          None \<Rightarrow> State_Monad.return Finished
        | Some e \<Rightarrow>
            if IsAlreadyExists e then do {
              delErr \<leftarrow> Delete (cms cl) confMap;
              case delErr of Some d \<Rightarrow> State_Monad.return (Transient d)
              | None \<Rightarrow> do { err' \<leftarrow> Create (cms cl) confMap; State_Monad.return (attempt_of err') } }
            else State_Monad.return (Transient e) })"

text \<open>\<open>fi k\<close> is the FileIntegrity instance the daemon has when \<open>k\<close> retries are left.\<close>

definition reportOK :: "client \<Rightarrow> (nat \<Rightarrow> bool) \<Rightarrow> daemonConfig \<Rightarrow> (nat \<Rightarrow> FileIntegrity) \<Rightarrow> error option io" where
  "reportOK cl stop conf fi = Retry stop maxRetries (\<lambda>k. createOverwriting cl conf
     (newInformationalConfigMap (fi k) (LogCollectorConfigMapName conf) (LogCollectorNode conf) None))"

definition reportError :: "client \<Rightarrow> (nat \<Rightarrow> bool) \<Rightarrow> daemonConfig \<Rightarrow> (nat \<Rightarrow> FileIntegrity) \<Rightarrow> string \<Rightarrow> error option io" where
  "reportError cl stop conf fi msg = Retry stop maxRetries (\<lambda>k. createOverwriting cl conf
     (newInformationalConfigMap (fi k) (LogCollectorConfigMapName conf) (LogCollectorNode conf)
        (Some [IntegrityLogErrorAnnotationKey \<mapsto> msg])))"

definition uploadLog :: "client \<Rightarrow> (nat \<Rightarrow> bool) \<Rightarrow> daemonConfig \<Rightarrow> (nat \<Rightarrow> FileIntegrity) \<Rightarrow> string \<Rightarrow> string \<Rightarrow> error option io" where
  "uploadLog cl stop conf fi contents compressedContents = Retry stop maxRetries (\<lambda>k. createOverwriting cl conf
     (newLogConfigMap (fi k) (LogCollectorConfigMapName conf) IntegrityLogContentKey (LogCollectorNode conf)
        contents compressedContents))"

section \<open>A failed scan\<close>

text \<open>
  \<open>gzip.Writer\<close> over a buffer: whether copying and closing fail on an input, and the bytes it leaves.
\<close>

record gzipWriter =
  gwCopy :: "string \<Rightarrow> error option"
  gwClose :: "string \<Rightarrow> error option"
  gwBytes :: "string \<Rightarrow> string"

definition compress :: "gzipWriter \<Rightarrow> string \<Rightarrow> error + string" where
  "compress gz inp =
     (case gwCopy gz inp of
        Some cpyErr \<Rightarrow> (case gwClose gz inp of Some err \<Rightarrow> Inl err | None \<Rightarrow> Inl cpyErr)
      | None \<Rightarrow> (case gwClose gz inp of Some err \<Rightarrow> Inl err | None \<Rightarrow> Inr (gwBytes gz inp)))"

text \<open>An open log file: what \<open>Stat\<close> and \<open>io.ReadAll\<close> answer. \<open>getNonEmptyFile\<close> gives none that has no content.\<close>

record logFile =
  lfStat :: "error + int"
  lfRead :: "error + string"

definition getNonEmptyFile :: "logFile option \<Rightarrow> logFile option" where
  "getNonEmptyFile opened =
     (case opened of None \<Rightarrow> None
      | Some file \<Rightarrow> (case lfStat file of Inr sz \<Rightarrow> if sz > 0 then Some file else None | Inl _ \<Rightarrow> None))"

text \<open>
  After the report comes an event, created through the API; \<open>evErr\<close> is how that call ends. Its reason is the formatted message. What fails of
  the two is only logged.
\<close>

definition createErrorEvent :: "error option \<Rightarrow> string \<Rightarrow> error option io" where
  "createErrorEvent evErr reason = (case evErr of Some e \<Rightarrow> State_Monad.return (Some e)
     | None \<Rightarrow> do { Eventf ''file-integrity-operator-daemon'' EventTypeWarning reason ''''; State_Monad.return None })"

definition reportDaemonError :: "client \<Rightarrow> (nat \<Rightarrow> bool) \<Rightarrow> error option \<Rightarrow> daemonConfig \<Rightarrow> (nat \<Rightarrow> FileIntegrity) \<Rightarrow> string \<Rightarrow> error option io" where
  "reportDaemonError cl stop evErr conf fi msg = do {
     reportErr \<leftarrow> reportError cl stop conf fi msg;
     case reportErr of Some e \<Rightarrow> State_Monad.return (Some e) | None \<Rightarrow> createErrorEvent evErr msg }"

definition logAndTryReportingDaemonError :: "client \<Rightarrow> (nat \<Rightarrow> bool) \<Rightarrow> error option \<Rightarrow> daemonConfig \<Rightarrow> (nat \<Rightarrow> FileIntegrity) \<Rightarrow> string \<Rightarrow> unit io" where
  "logAndTryReportingDaemonError cl stop evErr conf fi msg = do { _ \<leftarrow> reportDaemonError cl stop evErr conf fi msg; State_Monad.return () }"

text \<open>
  \<open>handleFailedResult\<close> between locking and unlocking the files: the errors sent to the error channel
  and the result. The log is stat'ed twice, by \<open>getNonEmptyFile\<close> and again (\<open>stat2\<close>). \<open>text_of e\<close> is the text of an error. When compressing fails, the code
  reports the variable \<open>err\<close>, which is nil there, and sends \<open>compErr\<close>.
\<close>

definition handleFailedResult :: "client \<Rightarrow> (nat \<Rightarrow> bool) \<Rightarrow> error option \<Rightarrow> (error \<Rightarrow> string) \<Rightarrow> gzipWriter \<Rightarrow> daemonConfig \<Rightarrow> (nat \<Rightarrow> FileIntegrity)
    \<Rightarrow> logFile option \<Rightarrow> (error + int) \<Rightarrow> (error list \<times> bool) io" where
  "handleFailedResult cl stop evErr text_of gz conf fi opened stat2 =
     (let report = logAndTryReportingDaemonError cl stop evErr conf fi in
      case getNonEmptyFile opened of
        None \<Rightarrow> State_Monad.return ([], False)
      | Some file \<Rightarrow>
          (case stat2 of
             Inl err \<Rightarrow> do {
               _ \<leftarrow> report (''error getting AIDE log file information: '' @ text_of err);
               State_Monad.return ([err], False) }
           | Inr fileSize \<Rightarrow>
               (case lfRead file of
                  Inl err \<Rightarrow> do {
                    _ \<leftarrow> report (''error reading AIDE log: '' @ text_of err);
                    State_Monad.return ([err], False) }
                | Inr contents \<Rightarrow>
                    (case (if needsCompression fileSize \<or> LogCollectorCompress conf then compress gz contents else Inr []) of
                       Inl compErr \<Rightarrow> do {
                         _ \<leftarrow> report ''error compressing AIDE log: <nil>'';
                         State_Monad.return ([compErr], False) }
                     | Inr compressedContents \<Rightarrow> do {
                         err \<leftarrow> uploadLog cl stop conf fi contents compressedContents;
                         case err of
                           None \<Rightarrow> State_Monad.return ([], True)
                         | Some e \<Rightarrow> do {
                             _ \<leftarrow> report (''error uploading AIDE log: '' @ text_of e);
                             State_Monad.return ([e], True) } }))))"

section \<open>Outcomes\<close>

text \<open>
  The outcome of an upload: nothing but the report config map is touched; success leaves one of the
  built config maps there; after an error an older report is still there or gone.
\<close>

abbreviation report_key :: "daemonConfig \<Rightarrow> NamespacedName" where
  "report_key conf \<equiv> (dcNamespace conf, LogCollectorConfigMapName conf)"

definition uploaded :: "daemonConfig \<Rightarrow> ConfigMap set \<Rightarrow> world \<Rightarrow> error option \<Rightarrow> world \<Rightarrow> bool" where
  "uploaded conf cmset w r w' \<longleftrightarrow> frame {report_key conf} {} {} {} w w' \<and>
     (case r of
        None \<Rightarrow> \<exists>cm\<in>cmset. \<exists>cm'. lookup (ConfigMaps w') (report_key conf) = Some cm' \<and> served_cm (cm\<lparr>Namespace := dcNamespace conf\<rparr>) cm'
      | Some e \<Rightarrow> \<not> is_panic e \<and> lookup (ConfigMaps w') (report_key conf) \<in> {lookup (ConfigMaps w) (report_key conf), None})"

context kube_api
begin

lemma wp_createOverwriting:
  assumes "Name cm = LogCollectorConfigMapName conf" and "cm \<in> cmset"
    and "frame {report_key conf} {} {} {} w0 w"
    and "lookup (ConfigMaps w) (report_key conf) \<in> {lookup (ConfigMaps w0) (report_key conf), None}"
  shows "wp (createOverwriting cl conf cm) (\<lambda>r w'. case r of Finished \<Rightarrow> uploaded conf cmset w0 None w'
     | Transient e \<Rightarrow> (frame {report_key conf} {} {} {} w0 w' \<and>
          lookup (ConfigMaps w') (report_key conf) \<in> {lookup (ConfigMaps w0) (report_key conf), None}) \<and> uploaded conf cmset w0 (Some e) w'
     | Permanent e \<Rightarrow> uploaded conf cmset w0 (Some e) w') w"
proof -
  let ?cm = "cm\<lparr>Namespace := dcNamespace conf\<rparr>"
  have key: "nsname ?cm = report_key conf" using assms(1) by (simp add: nsname_def)
  have create: "wp (Create (cms cl) ?cm) (\<lambda>err w'. case err of None \<Rightarrow> uploaded conf cmset w0 None w'
      | Some e \<Rightarrow> \<not> is_panic e \<and> w' = w1) w1" if "frame {report_key conf} {} {} {} w0 w1" for w1
    by (rule cm.wp_Create) (use that assms(2) in \<open>auto simp: uploaded_def key intro!: frame_then_store(1) bexI [of _ cm]\<close>)
  show ?thesis unfolding createOverwriting_def Let_def wp_bind
  proof (rule wp_conseq [OF create [OF assms(3)]], goal_cases)
    case (1 err w')
    show ?case
    proof (cases err)
      case None
      with 1 show ?thesis by (simp add: wp_simps)
    next
      case (Some e)
      with 1 have e: "\<not> is_panic e" "w' = w" by simp_all
      show ?thesis
      proof (cases "IsAlreadyExists e")
        case False
        with Some e assms(3,4) show ?thesis by (simp add: wp_simps uploaded_def)
      next
        case True
        show ?thesis unfolding Some option.case if_P [OF True] wp_bind
        proof (subst e(2), rule cm.wp_Delete, goal_cases)
          case (1 d)
          with assms(3,4) show ?case by (simp add: wp_simps uploaded_def)
        next
          case (2 os)
          have frame: "frame {report_key conf} {} {} {} w0 (w\<lparr>ConfigMaps := os\<rparr>)"
            by (rule frame_then_store(1) [OF assms(3) 2(2)]) (simp add: key)
          show ?case unfolding option.case wp_bind
            by (rule wp_conseq [OF create [of "w\<lparr>ConfigMaps := os\<rparr>"]])
              (use frame 2(2) in \<open>auto simp: wp_simps attempt_of_def key uploaded_def split: option.splits\<close>)
        qed
      qed
    qed
  qed
qed

lemma wp_upload:
  assumes "\<And>k. Name (mk k) = LogCollectorConfigMapName conf"
  shows "wp (Retry stop n (\<lambda>k. createOverwriting cl conf (mk k))) (uploaded conf (range mk) w) w"
  by (rule wp_Retry [where I = "\<lambda>w'. frame {report_key conf} {} {} {} w w' \<and>
        lookup (ConfigMaps w') (report_key conf) \<in> {lookup (ConfigMaps w) (report_key conf), None}"])
     (auto intro!: wp_createOverwriting assms)

end

end
