(* ===== verification/Log_Properties.thy ===== *)
theory Log_Properties
  imports Log_Collector CM_Properties
begin

text \<open>
  The properties of the log collector's reports: counts, encoding, size, and that the config map
  controller reads from a report what the daemon put into it.
\<close>

section \<open>Counts\<close>

text \<open>
  A match of \<open>\s+words\s+(\d+)\<close> in a text, after the given prefix, with the longest run of digits as the group; and what is counted: the group of the
  match that starts first, or 0 when there is none.
\<close>

definition re_match :: "string \<Rightarrow> string \<Rightarrow> string \<Rightarrow> string \<Rightarrow> bool" where
  "re_match words s pre d \<longleftrightarrow> (\<exists>sp sp' post. s = pre @ sp @ words @ sp' @ d @ post \<and> sp \<noteq> [] \<and> list_all re_space sp \<and>
     sp' \<noteq> [] \<and> list_all re_space sp' \<and> d \<noteq> [] \<and> list_all is_digit d \<and> (post = [] \<or> \<not> is_digit (hd post)))"

definition leftmost_count :: "string \<Rightarrow> string \<Rightarrow> string \<Rightarrow> bool" where
  "leftmost_count words s v \<longleftrightarrow>
     (\<exists>pre. re_match words s pre v \<and> (\<forall>pre' d. re_match words s pre' d \<longrightarrow> length pre \<le> length pre')) \<or>
     v = ''0'' \<and> (\<forall>pre d. \<not> re_match words s pre d)"

lemma digit_not_space: "is_digit c \<Longrightarrow> \<not> re_space c"
  by (auto simp: is_digit_def re_space_def)

lemma run_split: "list_all P xs \<Longrightarrow> ys = [] \<or> \<not> P (hd ys) \<Longrightarrow> takeWhile P (xs @ ys) = xs \<and> dropWhile P (xs @ ys) = ys"
  by (cases ys) (auto simp: list_all_iff takeWhile_append dropWhile_append)

lemma dropWhile_hd: "s = takeWhile P s @ dropWhile P s" "list_all P (takeWhile P s)" "dropWhile P s = [] \<or> \<not> P (hd (dropWhile P s))"
  by (auto simp: list_all_iff dest: set_takeWhileD) (metis dropWhile_eq_Nil_conv hd_dropWhile)

lemma takeWhile_ne: "s \<noteq> [] \<Longrightarrow> P (hd s) \<Longrightarrow> takeWhile P s \<noteq> []"
  by (cases s) auto

text \<open>A match at a position, read as a decomposition of the text from there.\<close>

lemma match_at_Some:
  assumes "match_at lit s = Some d"
  shows "re_match lit s [] d"
proof -
  define s1 where "s1 = dropWhile re_space s"
  define s2 where "s2 = drop (length lit) s1"
  define s3 where "s3 = dropWhile re_space s2"
  from assms have ok: "s \<noteq> []" "re_space (hd s)" "HasPrefix s1 lit" "s2 \<noteq> []" "re_space (hd s2)" "d = takeWhile is_digit s3" "d \<noteq> []"
    by (auto simp: match_at_def Let_def s1_def s2_def s3_def split: if_splits)
  have "s1 = lit @ s2" using ok(3) by (auto simp: s2_def HasPrefix_iff)
  then have "s = takeWhile re_space s @ lit @ takeWhile re_space s2 @ d @ dropWhile is_digit s3"
    using ok(6) by (metis s1_def s3_def takeWhile_dropWhile_id)
  then show ?thesis using ok(7) takeWhile_ne [of s re_space, OF ok(1,2)] takeWhile_ne [of s2 re_space, OF ok(4,5)]
      dropWhile_hd(2) [of re_space s] dropWhile_hd(2) [of re_space s2] dropWhile_hd(2,3) [of is_digit s3]
    unfolding ok(6) re_match_def append_Nil by blast
qed

lemma match_at_complete:
  assumes "re_match lit s [] d" and "lit \<noteq> []" "\<not> re_space (hd lit)"
  shows "match_at lit s = Some d"
proof -
  from assms(1) obtain sp sp' post where m: "s = sp @ lit @ sp' @ d @ post" "sp \<noteq> []" "list_all re_space sp" "sp' \<noteq> []" "list_all re_space sp'"
    "d \<noteq> []" "list_all is_digit d" "post = [] \<or> \<not> is_digit (hd post)" unfolding re_match_def by auto
  have "dropWhile re_space s = lit @ sp' @ d @ post"
    unfolding m(1) using run_split [OF m(3), of "lit @ sp' @ d @ post"] assms(2,3) by auto
  moreover have "dropWhile re_space (sp' @ d @ post) = d @ post"
    using run_split [OF m(5), of "d @ post"] m(6,7) digit_not_space by (cases d) auto
  moreover have "takeWhile is_digit (d @ post) = d" using run_split [OF m(7,8)] by simp
  moreover have "re_space (hd sp)" "re_space (hd sp')" using m(2-5) by (cases sp; cases sp'; auto)+
  ultimately show ?thesis using m(1,2,4,6) by (simp add: match_at_def Let_def HasPrefix_append)
qed

lemma re_match_Cons: "re_match lit (c # s) (x # pre) d \<longleftrightarrow> x = c \<and> re_match lit s pre d"
  by (auto simp: re_match_def)

lemma find_leftmost:
  assumes "lit \<noteq> []" "\<not> re_space (hd lit)"
  shows "case FindStringSubmatch lit s of
      Some d \<Rightarrow> \<exists>pre. re_match lit s pre d \<and> (\<forall>pre' d'. re_match lit s pre' d' \<longrightarrow> length pre \<le> length pre')
    | None \<Rightarrow> \<forall>pre d. \<not> re_match lit s pre d"
proof (induction s)
  case Nil
  show ?case by (simp add: re_match_def)
next
  case (Cons c s)
  show ?case
  proof (cases "match_at lit (c # s)")
    case (Some m)
    with match_at_Some [OF Some] show ?thesis by (auto intro!: exI [of _ "[]"])
  next
    case None
    then have not_here: "\<not> re_match lit (c # s) [] d" for d using match_at_complete [OF _ assms] by fastforce
    show ?thesis
    proof (cases "FindStringSubmatch lit s")
      case (Some d)
      with Cons obtain pre where "re_match lit s pre d" "\<forall>pre' d'. re_match lit s pre' d' \<longrightarrow> length pre \<le> length pre'" by auto
      moreover from this(2) not_here have "length (c # pre) \<le> length pre'" if "re_match lit (c # s) pre' d'" for pre' d'
        using that by (cases pre') (auto simp: re_match_Cons)
      ultimately show ?thesis using None Some by (auto simp: re_match_Cons intro!: exI [of _ "c # pre"])
    next
      case none: None
      have "\<not> re_match lit (c # s) pre d" for pre d using not_here none Cons by (cases pre) (auto simp: re_match_Cons)
      then show ?thesis using None none by simp
    qed
  qed
qed

lemma match_leftmost: "lit \<noteq> [] \<Longrightarrow> \<not> re_space (hd lit) \<Longrightarrow> leftmost_count lit s (matchFileChangeRegex s lit)"
  using find_leftmost [of lit s] by (auto simp: leftmost_count_def matchFileChangeRegex_def split: option.splits)

text \<open>
  C38. The three count annotations of a log. Each is the number after the words of its own kind (added, changed, removed entries) at the first
  place of the log where white space, these words, white space and digits follow each other, all digits of it, and 0 exactly when
  there is no such place. No other annotation is touched.
\<close>

theorem counts_match:
  "(\<exists>v. annotateFileChangeSummary contents ann IntegrityLogFilesAddedAnnotation = Some v \<and> leftmost_count ''Added entries:'' contents v) \<and>
   (\<exists>v. annotateFileChangeSummary contents ann IntegrityLogFilesChangedAnnotation = Some v \<and> leftmost_count ''Changed entries:'' contents v) \<and>
   (\<exists>v. annotateFileChangeSummary contents ann IntegrityLogFilesRemovedAnnotation = Some v \<and> leftmost_count ''Removed entries:'' contents v) \<and>
   (\<forall>k. k \<notin> {IntegrityLogFilesAddedAnnotation, IntegrityLogFilesChangedAnnotation, IntegrityLogFilesRemovedAnnotation} \<longrightarrow>
      annotateFileChangeSummary contents ann k = ann k)"
proof -
  have "leftmost_count ''Added entries:'' contents (matchFileChangeRegex contents ''Added entries:'')"
    "leftmost_count ''Changed entries:'' contents (matchFileChangeRegex contents ''Changed entries:'')"
    "leftmost_count ''Removed entries:'' contents (matchFileChangeRegex contents ''Removed entries:'')"
    by (rule match_leftmost; simp add: re_space_def)+
  moreover have "IntegrityLogFilesAddedAnnotation \<noteq> IntegrityLogFilesChangedAnnotation" "IntegrityLogFilesAddedAnnotation \<noteq> IntegrityLogFilesRemovedAnnotation"
    "IntegrityLogFilesChangedAnnotation \<noteq> IntegrityLogFilesRemovedAnnotation" by (simp_all add: key_defs)
  ultimately show ?thesis by (simp add: annotateFileChangeSummary_def reFilesAdded_def reFilesChanged_def reFilesRemoved_def)
qed

text \<open>The first of two matches counts.\<close>

theorem counts_match_witness:
  "annotateFileChangeSummary '' Added entries: 1 Added entries: 2'' Map.empty IntegrityLogFilesAddedAnnotation = Some ''1'' \<and>
   leftmost_count ''Added entries:'' '' Added entries: 1 Added entries: 2'' ''1'' \<and>
   annotateFileChangeSummary '' Added entries: 1 Added entries: 2'' Map.empty ''other'' = None"
proof -
  have "matchFileChangeRegex '' Added entries: 1 Added entries: 2'' reFilesAdded = ''1''"
    by (simp add: matchFileChangeRegex_def reFilesAdded_def match_at_def re_space_def is_digit_def Let_def)
  then have "annotateFileChangeSummary '' Added entries: 1 Added entries: 2'' Map.empty IntegrityLogFilesAddedAnnotation = Some ''1''"
    by (simp add: annotateFileChangeSummary_def key_defs)
  with counts_match [of "'' Added entries: 1 Added entries: 2''" Map.empty] show ?thesis by (auto simp: key_defs)
qed

section \<open>Encoding\<close>

text \<open>The decoder a reader of the config map runs, RFC 4648.\<close>

definition b64_val :: "char \<Rightarrow> nat option" where
  "b64_val c = (let n = byte c in
     if 65 \<le> n \<and> n \<le> 90 then Some (n - 65) else if 97 \<le> n \<and> n \<le> 122 then Some (n - 71)
     else if 48 \<le> n \<and> n \<le> 57 then Some (n + 4) else if n = 43 then Some 62 else if n = 47 then Some 63 else None)"

fun b64_decode :: "string \<Rightarrow> string option" where
  "b64_decode [] = Some []"
| "b64_decode (p # q # r # s # rest) =
     (case (b64_val p, b64_val q) of
        (Some a, Some b) \<Rightarrow>
          (if s = CHR ''='' \<and> rest = [] then
             (if r = CHR ''='' then Some [char_of (a * 4 + b div 16)]
              else (case b64_val r of None \<Rightarrow> None
                | Some c \<Rightarrow> Some [char_of (a * 4 + b div 16), char_of (b mod 16 * 16 + c div 4)]))
           else (case (b64_val r, b64_val s, b64_decode rest) of
               (Some c, Some d, Some t) \<Rightarrow>
                 Some (char_of (a * 4 + b div 16) # char_of (b mod 16 * 16 + c div 4) # char_of (c mod 4 * 64 + d) # t)
             | _ \<Rightarrow> None))
      | _ \<Rightarrow> None)"
| "b64_decode _ = None"

lemma b64_val_char: "i < 64 \<Longrightarrow> b64_val (b64_char i) = Some i"
  by (auto simp: b64_val_def b64_char_def Let_def)

lemma b64_char_not_pad: "i < 64 \<Longrightarrow> b64_char i \<noteq> CHR ''=''"
  using b64_val_char [of i] by (auto simp: b64_val_def)

lemma byte_less: "byte c < 256"
  by (metis of_char_mod_256 mod_less_divisor zero_less_numeral)

lemma b64_parts:
  "byte a div 4 < 64" "byte a mod 4 * 16 < 64" "byte a mod 4 * 16 + byte b div 16 < 64" "byte b mod 16 * 4 < 64"
  "byte b mod 16 * 4 + byte c div 64 < 64" "byte c mod 64 < 64"
proof -
  have "x < 64" if "x = n div 4" "n < 256" for x n :: nat using that by (simp add: div_less_iff_less_mult)
  then show "byte a div 4 < 64" using byte_less by blast
  have small: "byte b div 16 < 16" "byte c div 64 < 4"
    using byte_less [of b] byte_less [of c] by (simp_all add: div_less_iff_less_mult)
  have mods: "byte a mod 4 < 4" "byte b mod 16 < 16" by simp_all
  show "byte a mod 4 * 16 + byte b div 16 < 64" using small mods by linarith
  show "byte b mod 16 * 4 + byte c div 64 < 64" using small mods by linarith
qed simp_all

lemma b64_join [simp]:
  "byte b div 16 div 16 = 0" "byte b div 16 mod 16 = byte b div 16" "byte c div 64 div 4 = 0" "byte c div 64 mod 4 = byte c div 64"
  using byte_less [of b] byte_less [of c] by (simp_all add: div_less_iff_less_mult)

lemma b64_correct:
  "b64_decode (encodetoBase64 s) = Some s \<and> length (encodetoBase64 s) = 4 * ((length s + 2) div 3)"
proof (induction s rule: encodetoBase64.induct)
  case (4 a b c rest)
  moreover have "(5 + length rest) div 3 = Suc ((length rest + 2) div 3)" using div_add_self2 [of 3 "length rest + 2"] by (simp add: ac_simps)
  ultimately show ?case using b64_char_not_pad [OF b64_parts(6) [of c]]
    by (simp add: b64_val_char b64_parts)
qed (simp_all add: b64_val_char b64_char_not_pad b64_parts)

text \<open>
  A compressed log survives its encoding: decoding the encoded bytes gives the bytes back,
  whatever they are, and the encoding of n bytes has 4 * ceil(n / 3) characters.
\<close>

theorem base64_roundtrip:
  "b64_decode (encodetoBase64 s) = Some s \<and> length (encodetoBase64 s) = 4 * ((length s + 2) div 3)"
  by (rule b64_correct)

section \<open>Size\<close>

lemma length_nat_digits: "n < 10 ^ Suc k \<Longrightarrow> length (nat_digits n) \<le> Suc k"
proof (induction k arbitrary: n)
  case 0
  then show ?case by (simp add: nat_digits.simps)
next
  case (Suc k)
  show ?case
  proof (cases "n < 10")
    case False
    have "n div 10 < 10 ^ Suc k" using Suc.prems by (simp add: div_less_iff_less_mult mult.commute)
    with Suc.IH [of "n div 10"] False show ?thesis by (subst nat_digits.simps) simp
  qed (simp add: nat_digits.simps)
qed

text \<open>
  A log config map never carries more than the 1048570 bytes that fit, however large the log and its
  compressed form are (below 10^18 bytes, and with node names up to 1000 bytes): what does
  not fit is replaced by a message that names the node and the file.
\<close>

theorem log_size_bounded:
  assumes "length node \<le> 1000" and "length contents < 10 ^ 18" and "length compressed < 10 ^ 18"
  shows "\<exists>v. Data (newLogConfigMap owner name key node contents compressed) = Some [key \<mapsto> v] \<and> length v \<le> 1048570"
proof -
  have digits: "length (Itoa (int n)) \<le> 19" if "n < 10 ^ 19" for n
    using length_nat_digits [of n 18] that by (simp add: Itoa_def)
  have large: "length (too_large n node) \<le> 1048570" "length (encoded_too_large n node) \<le> 1048570" if "n < 10 ^ 19" for n
    using digits [OF that] assms(1) by (simp_all add: too_large_def encoded_too_large_def)
  have enc: "length (encodetoBase64 compressed) < 10 ^ 19"
    using b64_correct [of compressed] assms(3) by simp
  have bound: "n < 10 ^ 18 \<Longrightarrow> n < 10 ^ 19" for n :: nat by simp
  have "length (logContents node contents compressed) \<le> 1048570"
    using large [OF bound [OF assms(2)]] large [OF bound [OF assms(3)]] large [OF enc]
    by (auto simp: logContents_def Let_def configMapMaxSize_def)
  then show ?thesis by (auto simp: newLogConfigMap_def Let_def)
qed

theorem log_size_bounded_witness:
  "\<exists>v. Data (newLogConfigMap sample_fi ''aide-f-n1'' IntegrityLogContentKey ''n1'' ''log'' []) = Some [IntegrityLogContentKey \<mapsto> v] \<and> length v \<le> 1048570"
  by (rule log_size_bounded) simp_all

section \<open>From the daemon to the node status\<close>

lemma common_label_keys:
  "IntegrityLogLabelKey \<noteq> IntegrityOwnerLabelKey" "IntegrityLogLabelKey \<noteq> IntegrityConfigMapNodeLabelKey"
  "IntegrityOwnerLabelKey \<noteq> IntegrityConfigMapNodeLabelKey" "AideConfigLabelKey \<noteq> IntegrityOwnerLabelKey"
  "AideConfigLabelKey \<noteq> IntegrityLogLabelKey" "AideConfigLabelKey \<noteq> IntegrityConfigMapNodeLabelKey"
  by (simp_all add: key_defs)

lemma report_labels:
  assumes "served_cm (cm\<lparr>Namespace := ns\<rparr>) cm'" and "Labels cm = log_labels_of owner node"
  shows "IsIntegrityLog (Labels cm')" "\<not> IsAideConfig (Labels cm')" "mget (Labels cm') IntegrityOwnerLabelKey = Some (Name owner)"
    "mget (Labels cm') IntegrityConfigMapNodeLabelKey = Some node"
  using served_cmD(2) [OF assms(1)] assms(2) common_label_keys common_label_keys [symmetric]
  by (simp_all add: IsIntegrityLog_def IsAideConfig_def log_labels_of_def)

lemma logContents_ne: "contents \<noteq> [] \<Longrightarrow> logContents node contents compressed \<noteq> []"
proof -
  assume "contents \<noteq> []"
  have "encodetoBase64 compressed \<noteq> []" if "compressed \<noteq> []"
    using b64_correct [of compressed] that by (metis b64_decode.simps(1) option.inject)
  with \<open>contents \<noteq> []\<close> show ?thesis by (auto simp: logContents_def Let_def too_large_def encoded_too_large_def)
qed

context kube_api
begin

lemma wp_reconcile_log:
  assumes "lookup (ConfigMaps w) k = Some cm" and "IsIntegrityLog (Labels cm)" and "\<not> IsAideConfig (Labels cm)" and "statuses_ok w"
  shows "wp (ConfigMapReconcile cl env k) (\<lambda>r w'. case r of Inl _ \<Rightarrow> True | Inr res \<Rightarrow> log_handled cm w (Inr res) w') w"
  unfolding ConfigMapReconcile_def wp_bind
proof (rule cm.wp_Get, goal_cases)
  case (1 e)
  with assms(1) show ?case by (auto simp: wp_simps)
next
  case (2 cm')
  with assms(1-3) show ?case
    by (auto simp: wp_if split: sum.splits intro!: wp_conseq [OF wp_handleIntegrityLog [OF assms(4), of cm]])
qed

text \<open>A report that was uploaded and then handled has its result in the status of its node.\<close>

lemma report_recorded:
  assumes "uploaded conf (range mk) w None w1" and "\<And>k. Labels (mk k) = log_labels_of (fi k) (LogCollectorNode conf)"
    and "\<And>k. Name (fi k) = f" and "statuses_ok w"
    and "run_state (ConfigMapReconcile cl env (report_key conf)) w1 = (Inr res, w2)"
  shows "\<exists>k cm fi0 ns. served_cm ((mk k)\<lparr>Namespace := dcNamespace conf\<rparr>) cm \<and> nsname cm = report_key conf \<and>
     lookup (FileIntegrities w) (dcNamespace conf, f) = Some fi0 \<and>
     lookup (NodeStatuses w2) (status_key fi0 (LogCollectorNode conf)) = Some ns \<and> result_of cm \<in> set (Results ns) \<and>
     lookup (ConfigMaps w2) (report_key conf) = None \<and> log_kept cm w2"
proof -
  obtain k cm where cm: "lookup (ConfigMaps w1) (report_key conf) = Some cm" "served_cm ((mk k)\<lparr>Namespace := dcNamespace conf\<rparr>) cm"
    and frame: "frame {report_key conf} {} {} {} w w1"
    using assms(1) by (auto simp: uploaded_def)
  have key: "nsname cm = report_key conf" using lookup_nsname [OF cm(1)] .
  then have ns: "Namespace cm = dcNamespace conf" by (simp add: nsname_def)
  note labels = report_labels [OF cm(2) assms(2)]
  have "statuses_ok w1" using assms(4) frame_keeps(4) [OF frame] by (auto simp: statuses_ok_def)
  from wp_run [OF wp_reconcile_log [OF cm(1) labels(1,2) this] assms(5)] have "log_handled cm w1 (Inr res) w2" by simp
  then obtain owner node fi0 st where h: "lookup (ConfigMaps w2) (report_key conf) = None" "log_kept cm w2"
    "mget (Labels cm) IntegrityOwnerLabelKey = Some owner" "mget (Labels cm) IntegrityConfigMapNodeLabelKey = Some node"
    "lookup (FileIntegrities w1) (Namespace cm, owner) = Some fi0"
    "lookup (NodeStatuses w2) (status_key fi0 node) = Some st" "result_of cm \<in> set (Results st)"
    using labels(3,4) key unfolding log_handled_def by auto
  have eq: "owner = f" "node = LogCollectorNode conf" using labels(3,4) h(3,4) assms(3) by auto
  have "lookup (FileIntegrities w) (dcNamespace conf, f) = Some fi0"
    using h(5) frame_keeps(3) [OF frame] ns eq by simp
  with cm(2) key h eq show ?thesis by blast
qed

end

lemma result_ok:
  assumes "served_cm ((newInformationalConfigMap owner name node None)\<lparr>Namespace := ns\<rparr>) cm"
  shows "result_of cm = succeededResult cm"
  using served_cmD(3,4) [OF assms]
  by (simp add: result_of_def IsIntegrityLogAnError_def IsIntegrityLogAFailure_def mval_def newInformationalConfigMap_def)

lemma result_error:
  assumes "served_cm ((newInformationalConfigMap owner name node (Some [IntegrityLogErrorAnnotationKey \<mapsto> msg]))\<lparr>Namespace := ns\<rparr>) cm"
  shows "result_of cm = erroredResult cm" "ErrorMsg (erroredResult cm) = msg"
  using served_cmD(3) [OF assms]
  by (simp_all add: result_of_def IsIntegrityLogAnError_def erroredResult_def newInformationalConfigMap_def Let_def)

lemma annotation_keys:
  "IntegrityLogErrorAnnotationKey \<noteq> IntegrityLogFilesAddedAnnotation" "IntegrityLogErrorAnnotationKey \<noteq> IntegrityLogFilesChangedAnnotation"
  "IntegrityLogErrorAnnotationKey \<noteq> IntegrityLogFilesRemovedAnnotation" "IntegrityLogErrorAnnotationKey \<noteq> CompressedLogsIndicatorLabelKey"
  "IntegrityLogFilesAddedAnnotation \<noteq> IntegrityLogFilesChangedAnnotation" "IntegrityLogFilesAddedAnnotation \<noteq> IntegrityLogFilesRemovedAnnotation"
  "IntegrityLogFilesChangedAnnotation \<noteq> IntegrityLogFilesRemovedAnnotation" "IntegrityLogFilesAddedAnnotation \<noteq> CompressedLogsIndicatorLabelKey"
  "IntegrityLogFilesChangedAnnotation \<noteq> CompressedLogsIndicatorLabelKey" "IntegrityLogFilesRemovedAnnotation \<noteq> CompressedLogsIndicatorLabelKey"
  by (simp_all add: key_defs)

lemma result_log:
  assumes "served_cm ((newLogConfigMap owner name IntegrityLogContentKey node contents compressed)\<lparr>Namespace := ns\<rparr>) cm" and "contents \<noteq> []"
  shows "result_of cm = failedResult cm (failure_log cm)" "IsIntegrityLogAFailure cm" "\<not> IsIntegrityLogAnError cm"
    "mget (Data cm) IntegrityLogContentKey = Some (logContents node contents compressed)"
    "FilesAdded (failedResult cm (failure_log cm)) = fst (Atoi (matchFileChangeRegex contents reFilesAdded))"
    "FilesChanged (failedResult cm (failure_log cm)) = fst (Atoi (matchFileChangeRegex contents reFilesChanged))"
    "FilesRemoved (failedResult cm (failure_log cm)) = fst (Atoi (matchFileChangeRegex contents reFilesRemoved))"
proof -
  note served = served_cmD(3,4) [OF assms(1)] and keys = annotation_keys annotation_keys [symmetric]
  show data: "mget (Data cm) IntegrityLogContentKey = Some (logContents node contents compressed)"
    using served(2) by (simp add: newLogConfigMap_def Let_def)
  show fail: "IsIntegrityLogAFailure cm" using data logContents_ne [OF assms(2)] by (simp add: IsIntegrityLogAFailure_def mval_def)
  show noerr: "\<not> IsIntegrityLogAnError cm"
    using served(1) keys by (simp add: IsIntegrityLogAnError_def newLogConfigMap_def annotateFileChangeSummary_def Let_def)
  show "result_of cm = failedResult cm (failure_log cm)" using fail noerr by (simp add: result_of_def)
  show "FilesAdded (failedResult cm (failure_log cm)) = fst (Atoi (matchFileChangeRegex contents reFilesAdded))"
    "FilesChanged (failedResult cm (failure_log cm)) = fst (Atoi (matchFileChangeRegex contents reFilesChanged))"
    "FilesRemoved (failedResult cm (failure_log cm)) = fst (Atoi (matchFileChangeRegex contents reFilesRemoved))"
    using served(1) keys
    by (simp_all add: failedResult_def failure_log_def count_of_def mval_def newLogConfigMap_def annotateFileChangeSummary_def Let_def)
qed

text \<open>The case of a failed scan: the counts are in the status and the log is kept.\<close>

context kube_api
begin

lemma log_recorded:
  assumes "run_state (uploadLog cl stop conf fi contents compressed) w = (None, w1)" and "contents \<noteq> []"
    and "\<And>k. Name (fi k) = f" and "statuses_ok w"
    and "run_state (ConfigMapReconcile cl env (report_key conf)) w1 = (Inr res, w2)"
  shows "\<exists>fi0 ns r kept. lookup (FileIntegrities w) (dcNamespace conf, f) = Some fi0 \<and>
     lookup (NodeStatuses w2) (status_key fi0 (LogCollectorNode conf)) = Some ns \<and> r \<in> set (Results ns) \<and> Condition r = NodeConditionFailed \<and>
     FilesAdded r = fst (Atoi (matchFileChangeRegex contents reFilesAdded)) \<and>
     FilesChanged r = fst (Atoi (matchFileChangeRegex contents reFilesChanged)) \<and>
     FilesRemoved r = fst (Atoi (matchFileChangeRegex contents reFilesRemoved)) \<and>
     lookup (ConfigMaps w2) (dcNamespace conf, LogCollectorConfigMapName conf @ ''-failed'') = Some kept \<and>
     mget (Data kept) IntegrityLogContentKey = Some (logContents (LogCollectorNode conf) contents compressed) \<and>
     lookup (ConfigMaps w2) (report_key conf) = None"
proof -
  have labels: "Labels (newLogConfigMap o' n key nd cs cps) = log_labels_of o' nd" for o' n nd key cs cps
    by (simp add: newLogConfigMap_def Let_def)
  let ?mk = "\<lambda>k. newLogConfigMap (fi k) (LogCollectorConfigMapName conf) IntegrityLogContentKey (LogCollectorNode conf) contents compressed"
  have "uploaded conf (range ?mk) w None w1"
    by (rule wp_run [OF wp_upload assms(1) [unfolded uploadLog_def]]) (simp add: newLogConfigMap_def Let_def)
  from report_recorded [where fi = fi, OF this labels assms(3-5)] obtain k cm fi0 ns where h: "served_cm ((?mk k)\<lparr>Namespace := dcNamespace conf\<rparr>) cm" "nsname cm = report_key conf"
    "lookup (FileIntegrities w) (dcNamespace conf, f) = Some fi0" "lookup (ConfigMaps w2) (report_key conf) = None"
    "lookup (NodeStatuses w2) (status_key fi0 (LogCollectorNode conf)) = Some ns" "result_of cm \<in> set (Results ns)" "log_kept cm w2"
    by blast
  note res = result_log [OF h(1) assms(2)]
  obtain kept where "lookup (ConfigMaps w2) (failure_key cm) = Some kept" "served_cm (failure_log cm) kept"
    using h(7) res(2,3) by (auto simp: log_kept_def)
  moreover from served_cmD(4) [OF this(2)] res(4) have "mget (Data kept) IntegrityLogContentKey
      = Some (logContents (LogCollectorNode conf) contents compressed)" by (simp add: failure_log_def)
  moreover have "failure_key cm = (dcNamespace conf, LogCollectorConfigMapName conf @ ''-failed'')"
    using h(2) by (simp add: failure_key_def nsname_def)
  moreover have "Condition (failedResult cm (failure_log cm)) = NodeConditionFailed" by (simp add: failedResult_def)
  ultimately show ?thesis using h(3-6) res(1,5-7)
    by (intro exI [of _ fi0] exI [of _ ns] exI [of _ "result_of cm"] exI [of _ kept]) simp
qed

end

text \<open>
  C6. A scan result reaches the node status. When the daemon has reported a result (passed, AIDE error
  or a failure with its log) without an error, a successful reconcile of the report records exactly it for
  the daemon's node and FileIntegrity: the condition, the error message, and for a failure the three
  counts read off the log. The report is then gone, and the log of a failure is kept as it was sent.
\<close>

theorem scan_result_reaches_status:
  assumes "kube_api cl" and "statuses_ok w" and "\<And>k. Name (fi k) = f"
    and "run_state (reportOK cl stop conf fi) w = (None, w1) \<and> c = NodeConditionSucceeded
      \<or> run_state (reportError cl stop conf fi msg) w = (None, w1) \<and> c = NodeConditionErrored
      \<or> run_state (uploadLog cl stop conf fi contents compressed) w = (None, w1) \<and> contents \<noteq> [] \<and> c = NodeConditionFailed"
    and "run_state (ConfigMapReconcile cl env (report_key conf)) w1 = (Inr res, w2)"
  shows "\<exists>fi0 ns r. lookup (FileIntegrities w) (dcNamespace conf, f) = Some fi0 \<and>
     lookup (NodeStatuses w2) (status_key fi0 (LogCollectorNode conf)) = Some ns \<and> r \<in> set (Results ns) \<and> Condition r = c \<and>
     (c = NodeConditionErrored \<longrightarrow> ErrorMsg r = msg) \<and>
     (c = NodeConditionFailed \<longrightarrow> FilesAdded r = fst (Atoi (matchFileChangeRegex contents reFilesAdded)) \<and>
        FilesChanged r = fst (Atoi (matchFileChangeRegex contents reFilesChanged)) \<and>
        FilesRemoved r = fst (Atoi (matchFileChangeRegex contents reFilesRemoved)) \<and>
        (\<exists>kept. lookup (ConfigMaps w2) (dcNamespace conf, LogCollectorConfigMapName conf @ ''-failed'') = Some kept \<and>
           mget (Data kept) IntegrityLogContentKey = Some (logContents (LogCollectorNode conf) contents compressed))) \<and>
     lookup (ConfigMaps w2) (report_key conf) = None"
proof -
  have labels: "Labels (newInformationalConfigMap o' n nd a) = log_labels_of o' nd" "Labels (newLogConfigMap o' n key nd cs cps) = log_labels_of o' nd"
    for o' n nd a key cs cps by (simp_all add: newInformationalConfigMap_def newLogConfigMap_def Let_def)
  note rec = kube_api.report_recorded [where fi = fi, OF assms(1) _ _ assms(3,2,5)]
  consider (ok) "run_state (reportOK cl stop conf fi) w = (None, w1)" "c = NodeConditionSucceeded"
    | (err) "run_state (reportError cl stop conf fi msg) w = (None, w1)" "c = NodeConditionErrored"
    | (fail) "run_state (uploadLog cl stop conf fi contents compressed) w = (None, w1)" "contents \<noteq> []" "c = NodeConditionFailed"
    using assms(4) by blast
  then show ?thesis
  proof cases
    case ok
    let ?mk = "\<lambda>k. newInformationalConfigMap (fi k) (LogCollectorConfigMapName conf) (LogCollectorNode conf) None"
    have "uploaded conf (range ?mk) w None w1"
      by (rule wp_run [OF kube_api.wp_upload [OF assms(1)] ok(1) [unfolded reportOK_def]]) (simp add: newInformationalConfigMap_def)
    from rec [OF this labels(1)] obtain k cm fi0 ns where h: "served_cm ((?mk k)\<lparr>Namespace := dcNamespace conf\<rparr>) cm"
      "lookup (FileIntegrities w) (dcNamespace conf, f) = Some fi0" "lookup (ConfigMaps w2) (report_key conf) = None"
      "lookup (NodeStatuses w2) (status_key fi0 (LogCollectorNode conf)) = Some ns" "result_of cm \<in> set (Results ns)"
      by blast
    with result_ok [OF h(1)] ok(2) show ?thesis
      by (intro exI [of _ fi0] exI [of _ ns] exI [of _ "result_of cm"]) (simp add: succeededResult_def)
  next
    case err
    let ?mk = "\<lambda>k. newInformationalConfigMap (fi k) (LogCollectorConfigMapName conf) (LogCollectorNode conf)
        (Some [IntegrityLogErrorAnnotationKey \<mapsto> msg])"
    have "uploaded conf (range ?mk) w None w1"
      by (rule wp_run [OF kube_api.wp_upload [OF assms(1)] err(1) [unfolded reportError_def]]) (simp add: newInformationalConfigMap_def)
    from rec [OF this labels(1)] obtain k cm fi0 ns where h: "served_cm ((?mk k)\<lparr>Namespace := dcNamespace conf\<rparr>) cm"
      "lookup (FileIntegrities w) (dcNamespace conf, f) = Some fi0" "lookup (ConfigMaps w2) (report_key conf) = None"
      "lookup (NodeStatuses w2) (status_key fi0 (LogCollectorNode conf)) = Some ns" "result_of cm \<in> set (Results ns)"
      by blast
    with result_error [OF h(1)] err(2) show ?thesis
      by (intro exI [of _ fi0] exI [of _ ns] exI [of _ "result_of cm"]) (simp add: erroredResult_def Let_def)
  next
    case fail
    from kube_api.log_recorded [OF assms(1) fail(1,2) assms(3,2,5)] fail(3) show ?thesis by auto
  qed
qed

lemma Retry_first: "run_state (op n) s = (Finished, s') \<Longrightarrow> run_state (Retry stop n op) s = (None, s')"
  by (cases n) simp_all

definition sample_conf :: daemonConfig where
  "sample_conf = \<lparr>LogCollectorFile = ''/hostroot/etc/kubernetes/aide.log'', FileIntegrityName = ''f'', LogCollectorConfigMapName = ''aide-f-n1'',
     dcNamespace = ''ns'', LogCollectorNode = ''n1'', LogCollectorTimeout = 600, Interval = 10, dcMaxBackups = 5, LogCollectorCompress = False,
     Local = False, Pprof = False, FileDir = ''/hostroot/etc/kubernetes'', RunDir = ''/hostroot/run'', ConfigDir = ''/tmp''\<rparr>"

definition sample_report :: ConfigMap where
  "sample_report = (newInformationalConfigMap sample_fi ''aide-f-n1'' ''n1'' None)\<lparr>Namespace := ''ns''\<rparr>"

lemma sample_report_sel [simp]: "Name sample_report = ''aide-f-n1''" "Namespace sample_report = ''ns''"
    "Labels sample_report = log_labels_of sample_fi ''n1''" "Annotations sample_report = None" "Data sample_report = None"
    "dcNamespace sample_conf = ''ns''" "LogCollectorConfigMapName sample_conf = ''aide-f-n1''" "LogCollectorNode sample_conf = ''n1''"
  by (simp_all add: sample_report_def newInformationalConfigMap_def sample_conf_def)

lemma sample_report_run:
  "run_state (reportOK (mem_client no_faults) (\<lambda>_. False) sample_conf (\<lambda>_. sample_fi)) (sample_world\<lparr>ConfigMaps := []\<rparr>)
     = (None, sample_world\<lparr>ConfigMaps := [sample_report]\<rparr>)"
  unfolding reportOK_def
  by (rule Retry_first) (simp add: createOverwriting_def run_simps sample_report_def [symmetric])

lemma sample_report_handled:
  "\<exists>w2 ns. run_state (ConfigMapReconcile (mem_client no_faults) sample_env (''ns'', ''aide-f-n1'')) (sample_world\<lparr>ConfigMaps := [sample_report]\<rparr>) = (Inr Done, w2)
     \<and> lookup (NodeStatuses w2) (''ns'', ''f-n1'') = Some ns"
proof -
  have cl: "IsIntegrityLog (log_labels_of sample_fi ''n1'')" "\<not> IsAideConfig (log_labels_of sample_fi ''n1'')"
    "GetConfigMapOwnerName sample_report = Inr ''f''" "GetConfigMapNodeName sample_report = Inr ''n1''"
    "\<not> IsIntegrityLogAnError sample_report" "\<not> IsIntegrityLogAFailure sample_report"
    by (simp_all add: IsIntegrityLog_def IsAideConfig_def log_labels_of_def GetConfigMapOwnerName_def GetConfigMapNodeName_def
        IsIntegrityLogAnError_def IsIntegrityLogAFailure_def mval_def key_defs)
  show ?thesis
    by (simp add: ConfigMapReconcile_def cl handleIntegrityLog_def createOrUpdateNodeStatus_def initialStatus_def
        updateNodeStatusMetrics_def createNodeStatusEvent_def succeededResult_def sample_world_def run_simps)
qed

theorem scan_result_reaches_status_witness:
  "\<exists>w2 ns r. run_state (ConfigMapReconcile (mem_client no_faults) sample_env (''ns'', ''aide-f-n1'')) (sample_world\<lparr>ConfigMaps := [sample_report]\<rparr>) = (Inr Done, w2)
     \<and> lookup (NodeStatuses w2) (''ns'', ''f-n1'') = Some ns \<and> r \<in> set (Results ns) \<and> Condition r = NodeConditionSucceeded"
proof -
  obtain w2 where run: "run_state (ConfigMapReconcile (mem_client no_faults) sample_env (''ns'', ''aide-f-n1'')) (sample_world\<lparr>ConfigMaps := [sample_report]\<rparr>) = (Inr Done, w2)"
    using sample_report_handled by blast
  have ok: "statuses_ok (sample_world\<lparr>ConfigMaps := []\<rparr>)" by (simp add: statuses_ok_def sample_world_def)
  have fi: "lookup (FileIntegrities (sample_world\<lparr>ConfigMaps := []\<rparr>)) (''ns'', ''f'') = Some sample_fi"
    by (simp add: sample_world_def nsname_def)
  from scan_result_reaches_status [OF mem.kube_api_axioms ok, of "\<lambda>_. sample_fi" "''f''" "\<lambda>_. False" sample_conf _ NodeConditionSucceeded]
    sample_report_run run fi show ?thesis by (fastforce simp: )
qed

section \<open>A failed scan\<close>

text \<open>What \<open>handleFailedResult\<close> leaves: nothing but the report is touched, and every case has its outcome.\<close>

definition handled :: "gzipWriter \<Rightarrow> daemonConfig \<Rightarrow> logFile option \<Rightarrow> (error + int) \<Rightarrow> world \<Rightarrow> error list \<times> bool \<Rightarrow> world \<Rightarrow> bool" where
  "handled gz conf opened stat2 w r w' \<longleftrightarrow> frame {report_key conf} {} {} {} w w' \<and>
     (r = ([], False) \<longleftrightarrow> getNonEmptyFile opened = None) \<and> (r = ([], False) \<longrightarrow> w' = w) \<and>
     (r = ([], True) \<longrightarrow> (\<exists>file sz contents compressed cm. getNonEmptyFile opened = Some file \<and> stat2 = Inr sz \<and> lfRead file = Inr contents \<and>
        (if needsCompression sz \<or> LogCollectorCompress conf then compress gz contents = Inr compressed else compressed = []) \<and>
        lookup (ConfigMaps w') (report_key conf) = Some cm \<and>
        mget (Data cm) IntegrityLogContentKey = Some (logContents (LogCollectorNode conf) contents compressed)))"

context kube_api
begin

lemma wp_daemon_report:
  assumes "frame {report_key conf} {} {} {} w0 w" and "\<And>w'. frame {report_key conf} {} {} {} w0 w' \<Longrightarrow> Q () w'"
  shows "wp (logAndTryReportingDaemonError cl stop evErr conf fi msg) Q w"
  unfolding logAndTryReportingDaemonError_def reportDaemonError_def reportError_def wp_bind
  by (rule wp_conseq [OF wp_upload])
     (auto simp: wp_simps newInformationalConfigMap_def uploaded_def createErrorEvent_def split: option.splits intro!: assms(2) frame_trans [OF assms(1)])

lemma wp_upload_handled:
  assumes "getNonEmptyFile opened = Some file" and "stat2 = Inr sz" and "lfRead file = Inr contents"
    and "(if needsCompression sz \<or> LogCollectorCompress conf then compress gz contents else Inr []) = Inr compressed"
  shows "wp (uploadLog cl stop conf fi contents compressed) (\<lambda>r w'. frame {report_key conf} {} {} {} w w' \<and>
     (r = None \<longrightarrow> handled gz conf opened stat2 w ([], True) w')) w"
proof -
  have "mget (Data cm') IntegrityLogContentKey = Some (logContents (LogCollectorNode conf) contents compressed)"
    if "served_cm ((newLogConfigMap (fi k) (LogCollectorConfigMapName conf) IntegrityLogContentKey (LogCollectorNode conf) contents compressed)
        \<lparr>Namespace := dcNamespace conf\<rparr>) cm'" for k cm'
    using served_cmD [OF that] by (simp add: newLogConfigMap_def Let_def)
  with assms show ?thesis unfolding uploadLog_def
    by (intro wp_conseq [OF wp_upload])
       (auto simp: newLogConfigMap_def Let_def uploaded_def handled_def split: if_splits)
qed

lemma wp_handleFailedResult:
  "wp (handleFailedResult cl stop evErr text_of gz conf fi opened stat2) (handled gz conf opened stat2 w) w"
  unfolding handleFailedResult_def Let_def
  by (auto simp: wp_simps handled_def split: option.splits sum.splits
      intro!: wp_daemon_report [of conf w] wp_conseq [OF wp_upload_handled [where w = w and opened = opened]])

end

text \<open>
  C25. When a scan has found changes, the collector either leaves a config map with the log it read (as it is, or
  compressed and encoded, or the message that it is too large) and goes on, or sends an error to
  the main routine; only when the log is missing or empty it does neither, and this is the one case in which it stops
  without an error being sent. Nothing but the report of this node is touched in the cluster.
\<close>

theorem failed_result_handled:
  assumes "kube_api cl" and "run_state (handleFailedResult cl stop evErr text_of gz conf fi opened stat2) w = ((errs, go_on), w')"
  shows "frame {report_key conf} {} {} {} w w' \<and>
     (errs = [] \<and> \<not> go_on \<longleftrightarrow> getNonEmptyFile opened = None) \<and>
     (errs = [] \<and> go_on \<longrightarrow> (\<exists>file sz contents compressed cm. getNonEmptyFile opened = Some file \<and> stat2 = Inr sz \<and> lfRead file = Inr contents \<and>
        (if needsCompression sz \<or> LogCollectorCompress conf then compress gz contents = Inr compressed else compressed = []) \<and>
        lookup (ConfigMaps w') (report_key conf) = Some cm \<and>
        mget (Data cm) IntegrityLogContentKey = Some (logContents (LogCollectorNode conf) contents compressed)))"
  using wp_run [OF kube_api.wp_handleFailedResult [OF assms(1)] assms(2)] by (auto simp: handled_def)

definition sample_log :: "string \<Rightarrow> logFile option" where
  "sample_log s = Some \<lparr>lfStat = Inr (int (length s)), lfRead = Inr s\<rparr>"

definition no_gzip :: gzipWriter where
  "no_gzip = \<lparr>gwCopy = \<lambda>_. None, gwClose = \<lambda>_. None, gwBytes = id\<rparr>"

theorem failed_result_handled_witness:
  "\<exists>w' cm. run_state (handleFailedResult (mem_client no_faults) (\<lambda>_. False) None (\<lambda>_. ''e'') no_gzip sample_conf (\<lambda>_. sample_fi)
        (sample_log ''changed'') (Inr 7)) (sample_world\<lparr>ConfigMaps := []\<rparr>) = (([], True), w')
     \<and> lookup (ConfigMaps w') (''ns'', ''aide-f-n1'') = Some cm \<and> mget (Data cm) IntegrityLogContentKey = Some ''changed''"
proof -
  let ?cm = "(newLogConfigMap sample_fi ''aide-f-n1'' IntegrityLogContentKey ''n1'' ''changed'' [])\<lparr>Namespace := ''ns''\<rparr>"
  have "run_state (uploadLog (mem_client no_faults) (\<lambda>_. False) sample_conf (\<lambda>_. sample_fi) ''changed'' []) (sample_world\<lparr>ConfigMaps := []\<rparr>)
      = (None, sample_world\<lparr>ConfigMaps := [?cm]\<rparr>)"
    unfolding uploadLog_def by (rule Retry_first) (simp add: createOverwriting_def run_simps)
  then have run: "run_state (handleFailedResult (mem_client no_faults) (\<lambda>_. False) None (\<lambda>_. ''e'') no_gzip sample_conf (\<lambda>_. sample_fi)
      (sample_log ''changed'') (Inr 7)) (sample_world\<lparr>ConfigMaps := []\<rparr>) = (([], True), sample_world\<lparr>ConfigMaps := [?cm]\<rparr>)"
    by (simp add: handleFailedResult_def getNonEmptyFile_def sample_log_def needsCompression_def configMapMaxSize_def sample_conf_def run_simps)
  from failed_result_handled [OF mem.kube_api_axioms run] run show ?thesis
    by (fastforce simp: sample_log_def getNonEmptyFile_def logContents_def Let_def configMapMaxSize_def needsCompression_def sample_conf_def)
qed

end
