(* ===== verification/System.thy ===== *)
theory System
  imports Status_Properties Node_Properties Log_Properties
begin

text \<open>
  The operator as a whole: the four controllers of \<open>src/pkg/controller\<close> and the reports of the daemons act on one cluster, in any order, each
  on its own requests, with a client whose calls may fail, while users, nodes and the garbage collector change objects in between. \<open>sys_step\<close> is
  one such step, \<open>reachable_world\<close> the states that arise. What the controllers need of the state in order not to panic is an invariant of all of them together.

  Which part of the state an operation leaves in order is shown by \<open>keeps\<close>, a calculus with one rule per construct in which the controllers are
  written; the rules are applied by \<open>intro\<close>, so a proof lists no more than the definitions.
\<close>

section \<open>Keeping an invariant\<close>

named_theorems keeps \<open>rules for what an operation keeps\<close>

definition keeps :: "('s \<Rightarrow> bool) \<Rightarrow> ('s, 'a) state \<Rightarrow> bool" where
  "keeps P m \<longleftrightarrow> (\<forall>s. P s \<longrightarrow> wp m (\<lambda>_. P) s)"

lemma keepsI: "(\<And>s. P s \<Longrightarrow> wp m (\<lambda>_. P) s) \<Longrightarrow> keeps P m"
  by (simp add: keeps_def)

lemma keepsD: "keeps P m \<Longrightarrow> P s \<Longrightarrow> run_state m s = (r, s') \<Longrightarrow> P s'"
  unfolding keeps_def by (blast dest: wp_run)

lemma keeps_return [keeps]: "keeps P (State_Monad.return a)"
  by (simp add: keeps_def wp_simps)

lemma keeps_ok [keeps]: "keeps P (ok a)"
  by (simp add: keeps_def wp_simps)

lemma keeps_throw [keeps]: "keeps P (throw e)"
  by (simp add: keeps_def wp_simps)

lemma keeps_get [keeps]: "keeps P State_Monad.get"
  by (simp add: keeps_def wp_simps)

lemma keeps_bind [keeps]: "keeps P m \<Longrightarrow> (\<And>a. keeps P (f a)) \<Longrightarrow> keeps P (State_Monad.bind m f)"
  by (auto simp: keeps_def wp_bind intro: wp_conseq)

lemma keeps_bindE [keeps]: "keeps P m \<Longrightarrow> (\<And>a. keeps P (f a)) \<Longrightarrow> keeps P (bindE m f)"
  by (auto simp: keeps_def intro!: wp_bindE_rule [where P = "\<lambda>_. P"])

lemma keeps_thenE [keeps]: "keeps P m \<Longrightarrow> keeps P k \<Longrightarrow> keeps P (thenE m k)"
  by (auto simp: keeps_def intro!: wp_thenE_rule [where P = "\<lambda>_. P"])

lemma keeps_if [keeps]: "(b \<Longrightarrow> keeps P m) \<Longrightarrow> (\<not> b \<Longrightarrow> keeps P n) \<Longrightarrow> keeps P (if b then m else n)"
  by simp

lemma keeps_sum [keeps]:
  "(\<And>e. x = Inl e \<Longrightarrow> keeps P (f e)) \<Longrightarrow> (\<And>a. x = Inr a \<Longrightarrow> keeps P (g a)) \<Longrightarrow> keeps P (case x of Inl e \<Rightarrow> f e | Inr a \<Rightarrow> g a)"
  by (cases x) auto

lemma keeps_option [keeps]:
  "(x = None \<Longrightarrow> keeps P m) \<Longrightarrow> (\<And>a. x = Some a \<Longrightarrow> keeps P (f a)) \<Longrightarrow> keeps P (case x of None \<Rightarrow> m | Some a \<Rightarrow> f a)"
  by (cases x) auto

lemma keeps_prod [keeps]: "(\<And>a b. x = (a, b) \<Longrightarrow> keeps P (f a b)) \<Longrightarrow> keeps P (case x of (a, b) \<Rightarrow> f a b)"
  by (cases x) auto

lemma keeps_Let [keeps]: "(\<And>a. a = t \<Longrightarrow> keeps P (f a)) \<Longrightarrow> keeps P (let a = t in f a)"
  by simp

text \<open>A read whose answer is known to satisfy something in the states of the invariant.\<close>

lemma keeps_read:
  assumes "\<And>s. P s \<Longrightarrow> wp m (\<lambda>r s'. P s' \<and> R r) s" and "\<And>r. R r \<Longrightarrow> keeps P (f r)"
  shows "keeps P (State_Monad.bind m f)"
  using assms by (auto simp: keeps_def intro!: wp_bind_rule [where P = "\<lambda>r s'. P s' \<and> R r"])

section \<open>What the controllers keep\<close>

text \<open>
  Every daemon set has a container, every node status is controlled by the FileIntegrity its label names, and the gauge of a node is 0 or 1.
\<close>

definition binary_gauge :: "Metrics \<Rightarrow> bool" where
  "binary_gauge m \<longleftrightarrow> (\<forall>n. gauge_value m n \<in> {0, 1})"

definition status_owned :: "FileIntegrityNodeStatus \<Rightarrow> bool" where
  "status_owned ns \<longleftrightarrow> (\<exists>fi. GetControllerOf ns = Some (fi_owner fi) \<and> mget (Labels ns) IntegrityOwnerLabelKey = Some (Name fi))"

definition sound :: "world \<Rightarrow> bool" where
  "sound w \<longleftrightarrow> (\<forall>k ds. lookup (DaemonSets w) k = Some ds \<longrightarrow> has_container ds) \<and>
     (\<forall>k ns. lookup (NodeStatuses w) k = Some ns \<longrightarrow> status_owned ns) \<and> binary_gauge (metrics w)"

lemma status_owned_served: "served_meta ns ns' \<Longrightarrow> status_owned ns \<Longrightarrow> status_owned ns'"
  unfolding status_owned_def GetControllerOf_def served_meta_def by (metis canon_meta_sel(4,5))

lemma filterLoop_meta:
  "OwnerReferences (snd (filterLoop c rs acc ns)) = OwnerReferences ns \<and> Labels (snd (filterLoop c rs acc ns)) = Labels ns"
  by (induction rs arbitrary: acc ns) simp_all

lemma mergeResult_meta: "OwnerReferences (fst (mergeResult new ns)) = OwnerReferences ns" "Labels (fst (mergeResult new ns)) = Labels ns"
  using filterLoop_meta [of "Condition new" "Results ns" "[]" ns] by (auto simp: mergeResult_def Let_def split: prod.splits)

lemma status_owned_merge: "mergeResult new ns = (ns', old) \<Longrightarrow> status_owned ns \<Longrightarrow> status_owned ns'"
  using mergeResult_meta [of new ns] by (simp add: status_owned_def GetControllerOf_def)

lemma sound_store [simp]:
  "sound (w\<lparr>ConfigMaps := x1\<rparr>) = sound w" "sound (w\<lparr>FileIntegrities := x2\<rparr>) = sound w"
  "sound (w\<lparr>Pods := x3\<rparr>) = sound w" "sound (w\<lparr>events := x4\<rparr>) = sound w"
  by (simp_all add: sound_def)

lemma keeps_Eventf [keeps]: "keeps sound (Eventf n t r m)"
  by (simp add: keeps_def wp_simps)

lemma keeps_met: "(\<And>m. binary_gauge m \<Longrightarrow> binary_gauge (f m)) \<Longrightarrow> keeps sound (met f)"
  by (auto simp: keeps_def wp_simps sound_def)

text \<open>The metrics that the controllers count keep the gauge.\<close>

lemma binary_counts:
  assumes "binary_gauge m"
  shows "binary_gauge (IncFileIntegrityPhaseInit m)" "binary_gauge (IncFileIntegrityPhaseActive m)" "binary_gauge (IncFileIntegrityPhasePending m)"
    "binary_gauge (IncFileIntegrityPhaseError m)" "binary_gauge (IncFileIntegrityError e m)" "binary_gauge (IncFileIntegrityDaemonsetUpdate m)"
    "binary_gauge (IncFileIntegrityDaemonsetDelete m)" "binary_gauge (IncFileIntegrityDaemonsetPodKill m)"
    "binary_gauge (IncFileIntegrityReinitDaemonsetUpdate m)" "binary_gauge (IncFileIntegrityReinitDaemonsetDelete m)"
    "binary_gauge (IncFileIntegrityPause n m)" "binary_gauge (IncFileIntegrityUnpause n m)" "binary_gauge (IncFileIntegrityReinitByDemand m)"
    "binary_gauge (IncFileIntegrityReinitByConfig m)" "binary_gauge (IncFileIntegrityReinitByNode n m)" "binary_gauge (IncFileIntegrityNodeStatus c n m)"
    "binary_gauge (IncFileIntegrityNodeStatusError e n m)" "binary_gauge (SetFileIntegrityNodeStatusGaugeBad n m)"
    "binary_gauge (SetFileIntegrityNodeStatusGaugeGood n m)" "binary_gauge (snd (GetFileIntegrityNodeStatus n m))"
  using assms unfolding binary_gauge_def
  by (simp_all add: gauge_value_Good gauge_value_Bad) (simp_all add: gauge_value_def IncFileIntegrityPhaseInit_def IncFileIntegrityPhaseActive_def
      IncFileIntegrityPhasePending_def IncFileIntegrityPhaseError_def IncFileIntegrityError_def IncFileIntegrityDaemonsetUpdate_def
      IncFileIntegrityDaemonsetDelete_def IncFileIntegrityDaemonsetPodKill_def IncFileIntegrityReinitDaemonsetUpdate_def
      IncFileIntegrityReinitDaemonsetDelete_def IncFileIntegrityPause_def IncFileIntegrityUnpause_def IncFileIntegrityReinitByDemand_def
      IncFileIntegrityReinitByConfig_def IncFileIntegrityReinitByNode_def)

lemmas keeps_counts [keeps] = binary_counts [THEN keeps_met]

context kube_api
begin

lemma keeps_reads [keeps]:
  "keeps P (Get (cms cl) k)" "keeps P (Get (dss cl) k)" "keeps P (Get (fis cl) k)" "keeps P (Get (nss cl) k)" "keeps P (Get (nodes cl) k)"
  "keeps P (Get (pcs cl) k)" "keeps P (Get (deps cl) k)" "keeps P (ListObjs (dss cl) opts)" "keeps P (ListObjs (fis cl) opts)"
  "keeps P (ListObjs (nss cl) opts)" "keeps P (ListObjs (nodes cl) opts)" "keeps P (ListObjs (pods cl) opts)"
  by (auto intro!: keepsI cm.wp_Get ds.wp_Get fi.wp_Get ns.wp_Get node.wp_Get pc.wp_Get dep.wp_Get ds.wp_List fi.wp_List ns.wp_List
      node.wp_List pod.wp_List)

lemma keeps_writes [keeps]:
  "keeps sound (Create (cms cl) c)" "keeps sound (Update (cms cl) c)" "keeps sound (Delete (cms cl) c)" "keeps sound (Update (fis cl) f)"
  "keeps sound (Delete (pods cl) p)" "keeps sound (StatusUpdate cl f)"
  by (auto intro!: keepsI cm.wp_Create cm.wp_Update cm.wp_Delete fi.wp_Update pod.wp_Delete wp_StatusUpdate)

lemma keeps_deletes [keeps]: "keeps sound (Delete (dss cl) d)" "keeps sound (Delete (nss cl) n)"
  by (auto intro!: keepsI ds.wp_Delete ns.wp_Delete simp: sound_def split: if_splits)

lemma keeps_ns_write: "status_owned n \<Longrightarrow> keeps sound (Create (nss cl) n)" "status_owned n \<Longrightarrow> keeps sound (Update (nss cl) n)"
  by (auto intro!: keepsI ns.wp_Create ns.wp_Update simp: sound_def dest: status_owned_served split: if_splits)

lemma keeps_ds_Create: "has_container d \<Longrightarrow> keeps sound (Create (dss cl) d)"
  by (auto intro!: keepsI ds.wp_Create simp: sound_def dest: served_dsD(4) split: if_splits)

lemma keeps_ds_Update: "has_container d \<Longrightarrow> keeps sound (Update (dss cl) d)"
  by (auto intro!: keepsI ds.wp_Update simp: sound_def dest: served_dsD(4) split: if_splits)

end

section \<open>The FileIntegrity controller keeps the state sound\<close>

context kube_api
begin

lemma has_container_owned:
  "SetControllerReference_ds cl fi (aideDaemonset env n fi img) = Inr ds \<Longrightarrow> has_container ds"
  "SetControllerReference_ds cl fi (reinitAideDaemonset env n fi sel img) = Inr ds \<Longrightarrow> has_container ds"
  by (auto dest!: owner_ds simp: aideDaemonset_def reinitAideDaemonset_def Let_def)

lemma keeps_deleteLoop: "(\<And>obj. keeps P (Delete api obj)) \<Longrightarrow> keeps P (deleteLoop api os)"
  by (induction os) (auto intro!: keeps)

lemma keeps_config [keeps]:
  "keeps sound (handleScriptConfigMap cl desired matches)" "keeps sound (updateAideConfig cl conf data node)"
  "keeps sound (aideConfigIsDefault cl env inst)" "keeps sound (validatePriorityClass cl pc)"
  "keeps sound (getOperatorDeploymentImage cl env)" "keeps sound (GetFailedNodes cl inst)" "keeps sound (tryGettingNode cl node)"
  unfolding handleScriptConfigMap_def updateAideConfig_def aideConfigIsDefault_def validatePriorityClass_def getOperatorDeploymentImage_def
    GetFailedNodes_def tryGettingNode_def
  by (intro keeps)+

lemma keeps_steps [keeps]:
  "keeps sound (handleDefaultConfigMaps cl env inst)" "keeps sound (retrieveAndAnnotateAideConfig cl conf node)"
  "keeps sound (reconcileUserConfig cl env inst conf)" "keeps sound (reconcilePriorityClass cl inst)" "keeps sound (reinitOnFailed cl inst)"
  "keeps sound (deleteLegacyDaemonSets cl inst)" "keeps sound (RestartFileIntegrityDs cl env n)"
  unfolding handleDefaultConfigMaps_def retrieveAndAnnotateAideConfig_def reconcileUserConfig_def reconcilePriorityClass_def reinitOnFailed_def
    deleteLegacyDaemonSets_def RestartFileIntegrityDs_def deleteDaemonSetPods_def
  by (intro keeps keeps_deleteLoop)+

lemma keeps_createReinitDaemonSet [keeps]: "keeps sound (createReinitDaemonSet cl env inst node img)"
  unfolding createReinitDaemonSet_def by (intro keeps keeps_ds_Create) (rule has_container_owned(2))

lemma keeps_reconcileReinit [keeps]: "keeps sound (reconcileReinit cl env inst img conf new)"
  unfolding reconcileReinit_def by (intro keeps)

lemma has_container_read:
  "sound w \<Longrightarrow> wp (Get (dss cl) k) (\<lambda>r w'. sound w' \<and> (\<forall>ds. r = Inr ds \<longrightarrow> has_container ds)) w"
  by (cases k, rule ds.wp_Get) (simp_all add: sound_def)

lemma keeps_reconcileDaemonSet [keeps]: "keeps sound (reconcileDaemonSet cl env now inst img u)"
  unfolding reconcileDaemonSet_def Let_def
  by (rule keeps_read [OF has_container_read], assumption)
    (intro keeps keeps_ds_Create keeps_ds_Update, auto dest: has_container_owned(1) ds_all.keeps_container)

lemma keeps_FileIntegrityControllerReconcile: "keeps sound (FileIntegrityControllerReconcile cl env now request)"
  unfolding FileIntegrityControllerReconcile_def by (intro keeps)

end

section \<open>The other controllers keep the state sound\<close>

context kube_api
begin

lemma keeps_cleanupLoop [keeps]: "keeps sound (cleanupLoop cl n items)"
  by (induction items) (auto intro!: keeps)

lemma keeps_node_status [keeps]:
  "keeps sound (updateNodeStatusMetrics ns)" "keeps sound (createNodeStatusEvent fi ns)"
  by (cases "Condition (LastResult ns)"; simp add: updateNodeStatusMetrics_def createNodeStatusEvent_def Let_def keeps)+

lemma status_owned_initial:
  assumes "SetControllerReference_ns cl inst (initialStatus node inst new) = Inr ns"
  shows "status_owned ns"
  using controller_ns [OF assms] owner_ns [OF assms] by (auto simp: status_owned_def initialStatus_def)

lemma status_owned_read:
  "sound w \<Longrightarrow> wp (Get (nss cl) k) (\<lambda>r w'. sound w' \<and> (\<forall>ns. r = Inr ns \<longrightarrow> status_owned ns)) w"
  by (cases k, rule ns.wp_Get) (simp_all add: sound_def)

lemma keeps_createOrUpdateNodeStatus [keeps]: "keeps sound (createOrUpdateNodeStatus cl node inst new)"
  unfolding createOrUpdateNodeStatus_def
  by (rule keeps_read [OF status_owned_read], assumption)
    (intro keeps keeps_ns_write, auto intro: status_owned_initial status_owned_merge [OF sym])

lemma keeps_finishReinit [keeps]: "keeps sound (finishReinit cl env inst n nodeList)"
  unfolding finishReinit_def by (intro keeps)

lemma keeps_storeFailureLog [keeps]: "keeps sound (storeFailureLog cl cm)"
  unfolding storeFailureLog_def by (intro keeps)

lemma keeps_ConfigMapReconcile: "keeps sound (ConfigMapReconcile cl env request)"
  unfolding ConfigMapReconcile_def reconcileAideConfAndHandleReinitDs_def handleIntegrityLog_def by (intro keeps)

lemma keeps_updateStatus [keeps]: "keeps sound (updateStatus cl fi phase)"
proof -
  have "keeps sound (met (countPhase phase))"
    by (rule keeps_met) (cases phase; simp add: countPhase_def binary_counts)
  then show ?thesis unfolding updateStatus_def by (intro keeps)
qed

lemma keeps_activeLoop [keeps]: "keeps sound (activeLoop cl names statuses)"
  by (induction statuses) (auto intro!: keeps)

lemma keeps_StatusReconcile: "keeps sound (StatusReconcile cl env request)"
  unfolding StatusReconcile_def mapActiveStatus_def Let_def by (intro keeps)

lemma keeps_findLoop [keeps]: "keeps sound (findLoop cl nd fil acc)"
  by (induction fil arbitrary: acc) (auto intro!: keeps)

lemma keeps_annotateLoop:
  assumes "keeps sound (met count)"
  shows "keeps sound (annotateLoop cl change failure count fil)"
  by (induction fil) (auto intro!: keeps assms)

lemma keeps_NodeControllerReconcile: "keeps sound (NodeControllerReconcile cl request)"
  unfolding NodeControllerReconcile_def findRelevantFileIntegrities_def addHoldOffAnnotations_def
    removeHoldoffAnnotationAndReinitFileIntegrityDatabases_def
  by (intro keeps keeps_annotateLoop keeps_met binary_counts)

end

section \<open>Steps of the system\<close>

text \<open>
  A work item of one of the controllers, and what the manager runs for it. The daemons report the results of their scans as log config maps.
  Between two steps anyone may change anything, as far as the cluster allows it: the API server takes no daemon set without a container and
  no node with a namespace, node statuses are written by the operator alone (others at most delete them), and the metrics are the operator's own. A restart
  of the operator starts them anew.
\<close>

datatype work = ReconcileFileIntegrity int NamespacedName | ReconcileConfigMap NamespacedName | ReconcileStatus NamespacedName
  | ReconcileNode NamespacedName

text \<open>The \<open>Reconcile\<close> methods, in the file \<open>setup.go\<close> of each controller.\<close>

definition FileIntegrityReconciler_Reconcile :: "client \<Rightarrow> Env \<Rightarrow> int \<Rightarrow> NamespacedName \<Rightarrow> (error + Result) io" where
  "FileIntegrityReconciler_Reconcile cl env now req = FileIntegrityControllerReconcile cl env now req"

definition ReconcileConfigMap_Reconcile :: "client \<Rightarrow> Env \<Rightarrow> NamespacedName \<Rightarrow> (error + Result) io" where
  "ReconcileConfigMap_Reconcile cl env req = ConfigMapReconcile cl env req"

definition StatusReconciler_Reconcile :: "client \<Rightarrow> Env \<Rightarrow> NamespacedName \<Rightarrow> (error + Result) io" where
  "StatusReconciler_Reconcile cl env req = StatusReconcile cl env req"

definition NodeReconciler_Reconcile :: "client \<Rightarrow> NamespacedName \<Rightarrow> (error + Result) io" where
  "NodeReconciler_Reconcile cl req = NodeControllerReconcile cl req"

lemmas reconcile_methods = FileIntegrityReconciler_Reconcile_def ReconcileConfigMap_Reconcile_def StatusReconciler_Reconcile_def NodeReconciler_Reconcile_def

fun perform :: "client \<Rightarrow> Env \<Rightarrow> work \<Rightarrow> (error + Result) io" where
  "perform cl env (ReconcileFileIntegrity now req) = FileIntegrityReconciler_Reconcile cl env now req"
| "perform cl env (ReconcileConfigMap req) = ReconcileConfigMap_Reconcile cl env req"
| "perform cl env (ReconcileStatus req) = StatusReconciler_Reconcile cl env req"
| "perform cl env (ReconcileNode req) = NodeReconciler_Reconcile cl req"

definition admitted :: "world \<Rightarrow> bool" where
  "admitted w \<longleftrightarrow> (\<forall>k ds. lookup (DaemonSets w) k = Some ds \<longrightarrow> has_container ds) \<and> cluster_scoped w"

inductive sys_step :: "Env \<Rightarrow> world \<Rightarrow> world \<Rightarrow> bool" for env where
  controller: "kube_api cl \<Longrightarrow> run_state (perform cl env item) w = (r, w') \<Longrightarrow> sys_step env w w'"
| scan_ok: "kube_api cl \<Longrightarrow> run_state (reportOK cl stop conf fi) w = (r, w') \<Longrightarrow> sys_step env w w'"
| scan_failed: "kube_api cl \<Longrightarrow> run_state (handleFailedResult cl stop evErr text_of gz conf fi opened stat2) w = (rf, w') \<Longrightarrow> sys_step env w w'"
| scan_error: "kube_api cl \<Longrightarrow> run_state (logAndTryReportingDaemonError cl stop evErr conf fi msg) w = (u, w') \<Longrightarrow> sys_step env w w'"
| outside: "admitted w' \<Longrightarrow> lookup (NodeStatuses w') \<subseteq>\<^sub>m lookup (NodeStatuses w) \<Longrightarrow> metrics w' = metrics w \<Longrightarrow> sys_step env w w'"
| restart: "sys_step env w (w\<lparr>metrics := NewControllerMetrics\<rparr>)"

inductive reachable_world :: "Env \<Rightarrow> world \<Rightarrow> bool" for env where
  installed: "admitted w \<Longrightarrow> NodeStatuses w = [] \<Longrightarrow> metrics w = NewControllerMetrics \<Longrightarrow> reachable_world env w"
| step: "reachable_world env w \<Longrightarrow> sys_step env w w' \<Longrightarrow> reachable_world env w'"

definition sys_inv :: "world \<Rightarrow> bool" where
  "sys_inv w \<longleftrightarrow> sound w \<and> statuses_ok w \<and> cluster_scoped w"

lemma binary_new: "binary_gauge NewControllerMetrics"
  by (simp add: binary_gauge_def gauge_value_def NewControllerMetrics_def)

lemma map_le_Some: "f \<subseteq>\<^sub>m g \<Longrightarrow> f k = Some v \<Longrightarrow> g k = Some v"
  by (metis domI map_le_def)

lemma statuses_ok_mono: "statuses_ok w \<Longrightarrow> lookup (NodeStatuses w') \<subseteq>\<^sub>m lookup (NodeStatuses w) \<Longrightarrow> statuses_ok w'"
  unfolding statuses_ok_def by (blast dest: map_le_Some)

lemma drops_le: "drops K f g \<Longrightarrow> g \<subseteq>\<^sub>m f"
  unfolding drops_def map_le_def by (metis domIff)

lemma sys_inv_store [simp]: "sys_inv (w\<lparr>ConfigMaps := x\<rparr>) = sys_inv w" "sys_inv (w\<lparr>events := y\<rparr>) = sys_inv w"
  by (simp_all add: sys_inv_def statuses_ok_def cluster_scoped_def)

context kube_api
begin

lemma keeps_Retry: "(\<And>k. keeps P (op k)) \<Longrightarrow> keeps P (Retry stop n op)"
proof (induction n)
  case 0
  then show ?case by (auto intro!: keeps split: attempt.splits)
next
  case (Suc n)
  then show ?case by (auto intro!: keeps split: attempt.splits)
qed

lemma inv_writes: "keeps sys_inv (Create (cms cl) c)" "keeps sys_inv (Delete (cms cl) c)" "keeps sys_inv (Eventf obj t reason msg)"
  by (auto intro!: keepsI cm.wp_Create cm.wp_Delete simp: wp_simps)

lemma inv_reports:
  "keeps sys_inv (reportOK cl stop conf fi)" "keeps sys_inv (reportError cl stop conf fi msg)" "keeps sys_inv (uploadLog cl stop conf fi c z)"
  unfolding reportOK_def reportError_def uploadLog_def createOverwriting_def by (intro keeps keeps_Retry inv_writes)+

lemma inv_logAndTryReportingDaemonError: "keeps sys_inv (logAndTryReportingDaemonError cl stop evErr conf fi msg)"
  unfolding logAndTryReportingDaemonError_def reportDaemonError_def createErrorEvent_def by (intro keeps inv_reports inv_writes)

lemma inv_handleFailedResult: "keeps sys_inv (handleFailedResult cl stop evErr text_of gz conf fi opened stat2)"
  unfolding handleFailedResult_def Let_def by (intro keeps inv_reports inv_logAndTryReportingDaemonError)

end

text \<open>In a state of the invariant no work item panics, and it leaves the node statuses well-formed and the nodes alone.\<close>

definition calm :: "error + Result \<Rightarrow> world \<Rightarrow> world \<Rightarrow> bool" where
  "calm r w w' \<longleftrightarrow> (\<forall>e. r = Inl e \<longrightarrow> \<not> is_panic e) \<and> statuses_ok w' \<and> Nodes w' = Nodes w"

lemma calm_frame: "frame C D F {} w w' \<Longrightarrow> statuses_ok w \<Longrightarrow> \<forall>e. r = Inl e \<longrightarrow> \<not> is_panic e \<Longrightarrow> calm r w w'"
  by (simp add: calm_def statuses_ok_def frame_keeps)

context kube_api
begin

lemma calm_FileIntegrity:
  assumes "sys_inv w"
  shows "wp (FileIntegrityControllerReconcile cl env now request) (\<lambda>r w'. calm r w w') w"
proof (rule wp_conseq [OF wp_FileIntegrityControllerReconcile], goal_cases)
  case (2 r w')
  with assms show ?case
    by (auto simp: sys_inv_def reconciled_def reconcile_frame_def calm_def split: option.splits sum.splits
        dest: calm_frame [where r = r])
qed (use assms in \<open>simp add: sys_inv_def sound_def\<close>)

lemma calm_ConfigMap:
  assumes "sys_inv w"
  shows "wp (ConfigMapReconcile cl env request) (\<lambda>r w'. calm r w w') w"
  by (rule wp_conseq [OF wp_ConfigMapReconcile]) (use assms in \<open>auto simp: sys_inv_def calm_def dest: frame_keeps(5)\<close>)

lemma calm_Status:
  assumes "sys_inv w"
  shows "wp (StatusReconcile cl env request) (\<lambda>r w'. calm r w w') w"
proof (rule wp_conseq [OF wp_StatusReconcile], goal_cases)
  case (1 r w')
  then have panic: "\<forall>e. r = Inl e \<longrightarrow> \<not> is_panic e" by (auto simp: status_outcome_def)
  show ?case
  proof (cases "lookup (FileIntegrities w) request")
    case None
    with 1 assms panic show ?thesis by (simp add: status_outcome_def calm_def sys_inv_def)
  next
    case (Some fi)
    with 1 have only: "only_status fi w w'" by (simp add: status_outcome_def)
    then have "lookup (NodeStatuses w') \<subseteq>\<^sub>m lookup (NodeStatuses w)" unfolding only_status_def by (blast intro: drops_le)
    with assms have "statuses_ok w'" by (auto simp: sys_inv_def intro: statuses_ok_mono)
    moreover from only obtain x1 x2 x3 x4 where "w' = w\<lparr>FileIntegrities := x1, NodeStatuses := x2, metrics := x3, events := x4\<rparr>"
      unfolding only_status_def by blast
    then have "Nodes w' = Nodes w" by simp
    ultimately show ?thesis using panic by (simp add: calm_def)
  qed
qed

lemma calm_Node:
  assumes "sys_inv w"
  shows "wp (NodeControllerReconcile cl request) (\<lambda>r w'. calm r w w') w"
  by (rule wp_conseq [OF wp_NodeControllerReconcile])
    (use assms in \<open>auto simp: sys_inv_def calm_def node_outcome_def node_written_def statuses_ok_def Let_def split: option.splits sum.splits\<close>)

lemma calm_perform: "sys_inv w \<Longrightarrow> wp (perform cl env item) (\<lambda>r w'. calm r w w') w"
  by (cases item) (simp_all add: reconcile_methods calm_FileIntegrity calm_ConfigMap calm_Status calm_Node)

lemma keeps_perform: "keeps sound (perform cl env item)"
  by (cases item) (simp_all add: reconcile_methods keeps_FileIntegrityControllerReconcile keeps_ConfigMapReconcile keeps_StatusReconcile keeps_NodeControllerReconcile)

lemma inv_perform: "keeps sys_inv (perform cl env item)"
proof (rule keepsI, rule wpI)
  fix w r w' assume inv: "sys_inv w" and run: "run_state (perform cl env item) w = (r, w')"
  from wp_run [OF calm_perform [OF inv] run] have "statuses_ok w'" "Nodes w' = Nodes w" by (simp_all add: calm_def)
  with inv keepsD [OF keeps_perform _ run] show "sys_inv w'" by (simp add: sys_inv_def cluster_scoped_def)
qed

end

lemma sys_step_inv: "sys_step env w w' \<Longrightarrow> sys_inv w \<Longrightarrow> sys_inv w'"
proof (induction rule: sys_step.induct)
  case (controller cl item w r w')
  then show ?case by (blast dest: keepsD [OF kube_api.inv_perform])
next
  case (scan_ok cl stop conf fi w r w')
  then show ?case by (blast dest: keepsD [OF kube_api.inv_reports(1)])
next
  case (scan_failed cl stop evErr text_of gz conf fi opened stat2 w rf w')
  then show ?case by (blast dest: keepsD [OF kube_api.inv_handleFailedResult])
next
  case (scan_error cl stop evErr conf fi msg w u w')
  then show ?case by (blast dest: keepsD [OF kube_api.inv_logAndTryReportingDaemonError])
next
  case (outside w' w)
  then show ?case by (auto simp: sys_inv_def sound_def admitted_def intro: statuses_ok_mono dest: map_le_Some)
next
  case (restart w)
  then show ?case by (simp add: sys_inv_def sound_def binary_new statuses_ok_def cluster_scoped_def)
qed

lemma reachable_inv: "reachable_world env w \<Longrightarrow> sys_inv w"
proof (induction rule: reachable_world.induct)
  case (installed w)
  then show ?case by (simp add: sys_inv_def sound_def admitted_def binary_new statuses_ok_def)
qed (rule sys_step_inv)

section \<open>The operator does not crash\<close>

text \<open>
  C2. In every state the system can reach from a fresh installation, by any interleaving of reconciles of the four controllers, scan reports of
  the daemons, restarts of the operator and outside changes, and whatever API calls fail, no work item of any controller makes the operator panic. The state it leaves is
  again one the system reaches, every node status is well-formed with at most three results, and the failure gauge of every node is 0 or 1.
\<close>

theorem operator_never_panics:
  assumes "reachable_world env w" and "kube_api cl" and "run_state (perform cl env item) w = (r, w')"
  shows "(\<forall>e. r = Inl e \<longrightarrow> \<not> is_panic e) \<and> reachable_world env w' \<and> gauge_value (metrics w') n \<in> {0, 1} \<and>
     (\<forall>k ns. lookup (NodeStatuses w') k = Some ns \<longrightarrow> wf_status ns \<and> length (Results ns) \<le> 3)"
proof -
  have inv: "sys_inv w" using assms(1) by (rule reachable_inv)
  have next_world: "reachable_world env w'" using assms by (blast intro: reachable_world.step sys_step.controller)
  from wp_run [OF kube_api.calm_perform [OF assms(2) inv] assms(3)] have "\<forall>e. r = Inl e \<longrightarrow> \<not> is_panic e" by (simp add: calm_def)
  moreover from reachable_inv [OF next_world] have "statuses_ok w'" "gauge_value (metrics w') n \<in> {0, 1}"
    by (simp_all add: sys_inv_def sound_def binary_gauge_def)
  ultimately show ?thesis using next_world wf_status_three by (auto simp: statuses_ok_def)
qed

lemma sample_reachable: "reachable_world sample_env (sample_world\<lparr>ConfigMaps := cs\<rparr>)"
  by (rule reachable_world.installed) (simp_all add: sample_world_def admitted_def cluster_scoped_def)

theorem operator_never_panics_witness:
  "\<exists>w'. run_state (perform (mem_client no_faults) sample_env (ReconcileConfigMap (''ns'', ''aide-f-n1''))) (sample_world\<lparr>ConfigMaps := [sample_report]\<rparr>)
     = (Inr Done, w') \<and> reachable_world sample_env w' \<and> gauge_value (metrics w') ''n1'' \<in> {0, 1}"
proof -
  obtain w' where run: "run_state (perform (mem_client no_faults) sample_env (ReconcileConfigMap (''ns'', ''aide-f-n1'')))
      (sample_world\<lparr>ConfigMaps := [sample_report]\<rparr>) = (Inr Done, w')"
    using sample_report_handled by (auto simp: reconcile_methods)
  with operator_never_panics [OF sample_reachable mem.kube_api_axioms run] show ?thesis by blast
qed

section \<open>Several FileIntegrities on one node\<close>

text \<open>
  C39. The gauge of a node has room for one FileIntegrity only, although several may select the node. When a success is recorded for one of them,
  as its newest result, the gauge of the node is 0, whatever the status of the node for another one says: a failure there is still unresolved, but the alert on the gauge ends.
\<close>

theorem shared_gauge_hides_failure:
  assumes "kube_api cl" and "sound w" and "statuses_ok w" and "named inst node w"
    and "run_state (createOrUpdateNodeStatus cl node inst new) w = (None, w')" and "Condition new = NodeConditionSucceeded"
    and "\<forall>old. lookup (NodeStatuses w) (status_key inst node) = Some old \<longrightarrow> LastProbeTime (LastResult old) < LastProbeTime new"
    and "lookup (NodeStatuses w) k = Some bad" and "k \<noteq> status_key inst node"
    and "NodeName bad = node" and "Condition (LastResult bad) = NodeConditionFailed"
  shows "lookup (NodeStatuses w') k = Some bad \<and> gauge_value (metrics w') (NodeName bad) = 0"
proof -
  have rec: "recorded node inst new w None w'" by (rule wp_run [OF kube_api.wp_createOrUpdateNodeStatus [OF assms(1,3)] assms(5)])
  then have "frame {} {} {} {status_key inst node} w w'" by (simp add: recorded_def)
  with assms(8,9) have "lookup (NodeStatuses w') k = Some bad" by (simp add: frame_keeps(4))
  moreover from rec assms(4,6,7) have "gauge_value (metrics w') node \<noteq> 1"
    by (auto simp: recorded_def gauge_set_def gauge_agrees_def split: option.splits)
  moreover have "sound w'" by (rule keepsD [OF kube_api.keeps_createOrUpdateNodeStatus [OF assms(1)] assms(2,5)])
  then have "gauge_value (metrics w') node \<in> {0, 1}" by (simp add: sound_def binary_gauge_def)
  ultimately show ?thesis using assms(10) by simp
qed

definition other_fi :: FileIntegrity where
  "other_fi = sample_fi\<lparr>Name := ''g''\<rparr>"

definition other_status :: FileIntegrityNodeStatus where
  "other_status = (initialStatus ''n1'' other_fi failed_result)\<lparr>OwnerReferences := [fi_owner other_fi]\<rparr>"

lemma other_status_sel [simp]:
  "nsname other_status = (''ns'', ''g-n1'')" "NodeName other_status = ''n1''" "Condition (LastResult other_status) = NodeConditionFailed"
  "status_owned other_status" "wf_status other_status"
  by (auto simp: other_status_def other_fi_def nsname_def initialStatus_def failed_result_def wf_status_def status_owned_def GetControllerOf_def fi_owner_def
      intro!: exI [of _ "sample_fi\<lparr>Name := ''g''\<rparr>"])

definition shared_world :: world where
  "shared_world = sample_world\<lparr>NodeStatuses := [other_status],
     metrics := SetFileIntegrityNodeStatusGaugeBad ''n1'' NewControllerMetrics\<rparr>"

theorem shared_gauge_hides_failure_witness:
  "gauge_value (metrics shared_world) ''n1'' = 1 \<and>
   (\<exists>w' bad. run_state (createOrUpdateNodeStatus (mem_client no_faults) ''n1'' sample_fi emptyResult) shared_world = (None, w') \<and>
     lookup (NodeStatuses w') (''ns'', ''g-n1'') = Some bad \<and> Condition (LastResult bad) = NodeConditionFailed \<and> gauge_value (metrics w') ''n1'' = 0)"
proof -
  obtain w' where run: "run_state (createOrUpdateNodeStatus (mem_client no_faults) ''n1'' sample_fi emptyResult) shared_world = (None, w')"
    by (simp add: createOrUpdateNodeStatus_def initialStatus_def updateNodeStatusMetrics_def createNodeStatusEvent_def other_status_def other_fi_def
        shared_world_def sample_world_def emptyResult_def run_simps)
  have st: "sound shared_world" "statuses_ok shared_world" "named sample_fi ''n1'' shared_world"
    by (simp_all add: sound_def statuses_ok_def named_def shared_world_def sample_world_def binary_counts(18) binary_new)
  have bad: "lookup (NodeStatuses shared_world) (''ns'', ''g-n1'') = Some other_status"
    "\<forall>old. lookup (NodeStatuses shared_world) (status_key sample_fi ''n1'') = Some old \<longrightarrow> LastProbeTime (LastResult old) < LastProbeTime emptyResult"
    by (simp_all add: shared_world_def)
  have "gauge_value (metrics shared_world) ''n1'' = 1" by (simp add: shared_world_def gauge_value_Bad)
  moreover have "Condition emptyResult = NodeConditionSucceeded" by (simp add: emptyResult_def)
  with shared_gauge_hides_failure [OF mem.kube_api_axioms st run _ bad(2,1)] have
    "lookup (NodeStatuses w') (''ns'', ''g-n1'') = Some other_status" "gauge_value (metrics w') ''n1'' = 0" by simp_all
  ultimately show ?thesis using run other_status_sel(3) by blast
qed

text \<open>
  C40. The name of a node status does not determine the FileIntegrity and the node it is for, since names of both may have hyphens: the status of a node b-c for
  the FileIntegrity a is also that of the node c for the FileIntegrity a-b in the same namespace. A result recorded for the one takes the place of the result of its condition in the status of the other.
\<close>

theorem status_names_clash:
  assumes "kube_api cl" and "statuses_ok w" and "lookup (NodeStatuses w) (status_key inst (b @ ''-'' @ node)) = Some old"
    and "Namespace other = Namespace inst" and "Name other = Name inst @ ''-'' @ b"
    and "run_state (createOrUpdateNodeStatus cl node other new) w = (None, w')"
  shows "\<exists>ns. lookup (NodeStatuses w') (status_key inst (b @ ''-'' @ node)) = Some ns \<and>
     Results ns = filter (\<lambda>r. Condition r \<noteq> Condition new) (Results old) @ [new]"
proof -
  have "status_key other node = status_key inst (b @ ''-'' @ node)" using assms(4,5) by simp
  with wp_run [OF kube_api.wp_createOrUpdateNodeStatus [OF assms(1,2)] assms(6)] assms(3) show ?thesis
    by (auto simp: recorded_def)
qed

theorem status_names_clash_witness:
  "\<exists>w' ns. run_state (createOrUpdateNodeStatus (mem_client no_faults) ''1'' (sample_fi\<lparr>Name := ''f-n''\<rparr>) emptyResult)
       (sample_world\<lparr>NodeStatuses := [initialStatus ''n-1'' sample_fi failed_result]\<rparr>) = (None, w') \<and>
     lookup (NodeStatuses w') (status_key sample_fi ''n-1'') = Some ns \<and> Results ns = [failed_result, emptyResult]"
proof -
  let ?w = "sample_world\<lparr>NodeStatuses := [initialStatus ''n-1'' sample_fi failed_result]\<rparr>"
  obtain w' where run: "run_state (createOrUpdateNodeStatus (mem_client no_faults) ''1'' (sample_fi\<lparr>Name := ''f-n''\<rparr>) emptyResult) ?w = (None, w')"
    by (simp add: createOrUpdateNodeStatus_def initialStatus_def updateNodeStatusMetrics_def createNodeStatusEvent_def mergeResult_def
        isLatestScanResult_def failed_result_def emptyResult_def GetFileIntegrityNodeStatus_def readMetric_def conditionIsNewFailureOrTransition_def
        sample_world_def NewControllerMetrics_def run_simps)
  have ok: "statuses_ok ?w" by (simp add: statuses_ok_def wf_status_def initialStatus_def)
  have old: "lookup (NodeStatuses ?w) (status_key sample_fi (''n'' @ ''-'' @ ''1'')) = Some (initialStatus ''n-1'' sample_fi failed_result)"
    by (simp add: nsname_def initialStatus_def)
  from status_names_clash [OF mem.kube_api_axioms ok old, of "sample_fi\<lparr>Name := ''f-n''\<rparr>" emptyResult w'] run show ?thesis
    by (simp add: initialStatus_def failed_result_def emptyResult_def)
qed

end
