(* ===== verification/Operator_Setup.thy ===== *)
theory Operator_Setup
  imports Client Backoff
begin

text \<open>
  What the operator sets up before its controllers start, the tail of \<open>RunOperator\<close> in
  \<open>src/cmd/manager/operator.go\<close>, with the builders of \<open>src/pkg/common/util.go\<close>: the metrics service, the
  secrets its endpoints need, the ServiceMonitor and the alert. These calls go through typed clients, which answer
  with the stored object, not through the client of the controllers. Owner references have no
  \<open>BlockOwnerDeletion\<close> here.
\<close>

section \<open>Objects\<close>

record ServicePort =
  spName :: string
  spPort :: int
  spTargetPort :: int
  spProtocol :: string

text \<open>\<open>ssServerSet\<close> stands for the fields that only the server fills in; they take part in \<open>DeepEqual\<close>.\<close>

record ServiceSpec =
  ssPorts :: "ServicePort list"
  ssSelector :: gomap
  ssType :: string
  ssClusterIP :: string
  ssServerSet :: string

record Service = ObjectMeta +
  svcSpec :: ServiceSpec

record Secret = ObjectMeta +
  secType :: string

record Rule =
  rAlert :: string
  rExpr :: string
  rFor :: string
  rLabels :: gomap
  rAnnotations :: gomap

record RuleGroup =
  rgName :: string
  rgRules :: "Rule list"

record PrometheusRule = ObjectMeta +
  prGroups :: "RuleGroup list"

record SafeAuthorization =
  authType :: string
  authSecret :: string
  authKey :: string

record TLSConfig =
  tlsServerName :: string
  tlsCAFile :: string

record Endpoint =
  epPort :: string
  epPath :: string
  epScheme :: "string option"
  epAuthorization :: "SafeAuthorization option"
  epTLSConfig :: "TLSConfig option"

record ServiceMonitorSpec =
  smSelector :: gomap
  smEndpoints :: "Endpoint list"

record ServiceMonitor = ObjectMeta +
  smSpec :: ServiceMonitorSpec

record cluster =
  Services :: "Service list"
  Secrets :: "Secret list"
  PrometheusRules :: "PrometheusRule list"
  ServiceMonitors :: "ServiceMonitor list"

section \<open>Typed clients\<close>

record 'o tapi =
  tCreate :: "'o \<Rightarrow> (cluster, error + 'o) state"
  tGet :: "NamespacedName \<Rightarrow> (cluster, error + 'o) state"
  tUpdate :: "'o \<Rightarrow> (cluster, error + 'o) state"

record clientset =
  csServices :: "Service tapi"
  csSecrets :: "Secret tapi"
  csRules :: "PrometheusRule tapi"
  csMonitors :: "ServiceMonitor tapi"

text \<open>
  Create, and when the object is there already, get it and bring it up to date: the steps that the service,
  the ServiceMonitor and the alert share. \<open>stale\<close> is the comparison of the code, \<open>merge\<close> what it writes over a copy.
\<close>

definition createOrUpdate :: "'z ObjectMeta_scheme tapi \<Rightarrow> 'z ObjectMeta_scheme \<Rightarrow> ('z ObjectMeta_scheme \<Rightarrow> bool)
    \<Rightarrow> ('z ObjectMeta_scheme \<Rightarrow> 'z ObjectMeta_scheme) \<Rightarrow> (cluster, error + 'z ObjectMeta_scheme) state" where
  "createOrUpdate api obj stale merge = do {
     created \<leftarrow> tCreate api obj;
     case created of
       Inr obj' \<Rightarrow> ok obj'
     | Inl err \<Rightarrow>
         if \<not> IsAlreadyExists err then throw err
         else bindE (tGet api (nsname obj)) (\<lambda>cur. if stale cur then tUpdate api (merge cur) else ok cur) }"

section \<open>The metrics service and its secrets\<close>

definition metricsPort :: int where "metricsPort = 8383"
definition ControllerMetricsPort :: int where "ControllerMetricsPort = 8585"
definition ControllerMetricsServiceName :: string where "ControllerMetricsServiceName = ''metrics-fio''"
definition HandlerPath :: string where "HandlerPath = ''/metrics-fio''"
definition metricsServiceName :: string where "metricsServiceName = ''metrics''"
definition operatorMetricsSA :: string where "operatorMetricsSA = ''file-integrity-operator-metrics''"
definition operatorMetricsSecretName :: string where "operatorMetricsSecretName = ''file-integrity-operator-metrics-token''"
definition servingCert :: string where "servingCert = ''file-integrity-operator-serving-cert''"
definition defaultPrometheusAlertName :: string where "defaultPrometheusAlertName = ''file-integrity''"
definition maxSecretRetries :: nat where "maxSecretRetries = 10"

definition newService :: "string \<Rightarrow> Service" where
  "newService ns = \<lparr>Name = metricsServiceName, Namespace = ns, Labels = Some [''name'' \<mapsto> ''file-integrity-operator''],
     Annotations = Some [''service.beta.openshift.io/serving-cert-secret-name'' \<mapsto> servingCert], OwnerReferences = [],
     CreationTimestamp = 0, UID = '''',
     svcSpec = \<lparr>ssPorts = [\<lparr>spName = ''metrics'', spPort = metricsPort, spTargetPort = metricsPort, spProtocol = ''TCP''\<rparr>,
         \<lparr>spName = ''metrics-fio'', spPort = ControllerMetricsPort, spTargetPort = ControllerMetricsPort, spProtocol = ''TCP''\<rparr>],
       ssSelector = Some [''name'' \<mapsto> ''file-integrity-operator''], ssType = ''ClusterIP'', ssClusterIP = '''', ssServerSet = ''''\<rparr>\<rparr>"

definition mergeService :: "Service \<Rightarrow> Service \<Rightarrow> Service" where
  "mergeService new cur =
     (let serviceCopy = cur\<lparr>svcSpec := svcSpec new\<rparr> in
      if ssClusterIP (svcSpec serviceCopy) = '''' then serviceCopy\<lparr>svcSpec := (svcSpec serviceCopy)\<lparr>ssClusterIP := ssClusterIP (svcSpec cur)\<rparr>\<rparr>
      else serviceCopy)"

definition tokenSecret :: "string \<Rightarrow> Secret" where
  "tokenSecret ns = \<lparr>Name = operatorMetricsSecretName, Namespace = ns, Labels = None,
     Annotations = Some [''kubernetes.io/service-account.name'' \<mapsto> operatorMetricsSA], OwnerReferences = [],
     CreationTimestamp = 0, UID = '''', secType = ''kubernetes.io/service-account-token''\<rparr>"

definition checkSecrets :: "clientset \<Rightarrow> string \<Rightarrow> (cluster, error attempt) state" where
  "checkSecrets cs ns = do {
     cert \<leftarrow> tGet (csSecrets cs) (ns, servingCert);
     case cert of
       Inl err \<Rightarrow> State_Monad.return (if IsNotFound err then Transient err else Permanent err)
     | Inr _ \<Rightarrow> do {
         token \<leftarrow> tGet (csSecrets cs) (ns, operatorMetricsSecretName);
         case token of
           Inr _ \<Rightarrow> State_Monad.return Finished
         | Inl err \<Rightarrow>
             if \<not> IsNotFound err then State_Monad.return (Permanent err)
             else do {
               created \<leftarrow> tCreate (csSecrets cs) (tokenSecret ns);
               case created of
                 Inl createErr \<Rightarrow> State_Monad.return (if \<not> IsAlreadyExists createErr then Permanent createErr
                   else Transient (GoError ''waiting for metrics token secret to be populated''))
               | Inr _ \<Rightarrow> State_Monad.return (Transient (GoError ''waiting for metrics token secret to be populated'')) } } }"

definition ensureMetricsSecretsWithRetry :: "clientset \<Rightarrow> (nat \<Rightarrow> bool) \<Rightarrow> string \<Rightarrow> (cluster, error option) state" where
  "ensureMetricsSecretsWithRetry cs stop ns = do {
     err \<leftarrow> Retry stop maxSecretRetries (\<lambda>_. checkSecrets cs ns);
     State_Monad.return (case err of None \<Rightarrow> None | Some _ \<Rightarrow> Some (GoError ''failed to ensure metrics secrets after 10 retries'')) }"

definition ensureMetricsServiceAndSecret :: "clientset \<Rightarrow> (nat \<Rightarrow> bool) \<Rightarrow> string \<Rightarrow> (cluster, error + Service) state" where
  "ensureMetricsServiceAndSecret cs stop ns =
     bindE (createOrUpdate (csServices cs) (newService ns) (\<lambda>cur. svcSpec cur \<noteq> svcSpec (newService ns)) (mergeService (newService ns)))
       (\<lambda>returnService. thenE (ensureMetricsSecretsWithRetry cs stop ns) (ok returnService))"

section \<open>The alert\<close>

definition defaultPrometheusRule :: "string \<Rightarrow> string \<Rightarrow> PrometheusRule" where
  "defaultPrometheusRule alertName namespace = \<lparr>Name = alertName, Namespace = namespace, Labels = None, Annotations = None,
     OwnerReferences = [], CreationTimestamp = 0, UID = '''',
     prGroups = [\<lparr>rgName = ''node-failed'', rgRules = [\<lparr>rAlert = ''NodeHasIntegrityFailure'',
       rExpr = ''file_integrity_operator_node_failed{node=~'' @ [CHR 34] @ ''.+'' @ [CHR 34] @ ''} * on(node) kube_node_info > 0'', rFor = ''1s'',
       rLabels = Some [''severity'' \<mapsto> ''warning'', ''namespace'' \<mapsto> namespace],
       rAnnotations = Some [''summary'' \<mapsto> ''Node {{ $labels.node }} has a file integrity failure'',
         ''description'' \<mapsto> ''Node {{ $labels.node }} has an integrity check status of Failed for more than 1 second.'']\<rparr>]\<rparr>]\<rparr>"

definition createIntegrityFailureAlert :: "clientset \<Rightarrow> string \<Rightarrow> (cluster, error + PrometheusRule) state" where
  "createIntegrityFailureAlert cs namespace =
     (let promRule = defaultPrometheusRule defaultPrometheusAlertName namespace in
      createOrUpdate (csRules cs) promRule (\<lambda>cur. prGroups cur \<noteq> prGroups promRule) (\<lambda>cur. cur\<lparr>prGroups := prGroups promRule\<rparr>))"

section \<open>The ServiceMonitor\<close>

fun populateEndpointsFromServicePorts :: "ServicePort list \<Rightarrow> Endpoint list" where
  "populateEndpointsFromServicePorts [] = []"
| "populateEndpointsFromServicePorts (port # ports) =
     \<lparr>epPort = spName port, epPath = '''', epScheme = None, epAuthorization = None, epTLSConfig = None\<rparr> # populateEndpointsFromServicePorts ports"

definition GenerateServiceMonitor :: "Service \<Rightarrow> ServiceMonitor" where
  "GenerateServiceMonitor s =
     (let labels = Some (made (Labels s)) in
      \<lparr>Name = Name s, Namespace = Namespace s, Labels = labels, Annotations = None,
       OwnerReferences = [\<lparr>orAPIVersion = ''v1'', orKind = ''Service'', orName = Name s, orUID = UID s, orController = True\<rparr>],
       CreationTimestamp = 0, UID = '''',
       smSpec = \<lparr>smSelector = labels, smEndpoints = populateEndpointsFromServicePorts (ssPorts (svcSpec s))\<rparr>\<rparr>)"

definition configureEndpoint :: "string \<Rightarrow> Endpoint \<Rightarrow> Endpoint" where
  "configureEndpoint namespace ep =
     (if epPort ep = ControllerMetricsServiceName then
        ep\<lparr>epPath := HandlerPath, epScheme := Some ''https'',
           epAuthorization := Some \<lparr>authType = ''Bearer'', authSecret = operatorMetricsSecretName, authKey = ''token''\<rparr>,
           epTLSConfig := Some \<lparr>tlsServerName = ''metrics.'' @ namespace @ ''.svc'',
             tlsCAFile = ''/etc/prometheus/configmaps/serving-certs-ca-bundle/service-ca.crt''\<rparr>\<rparr>
      else ep)"

definition configureMetricsEndpoints :: "string \<Rightarrow> ServiceMonitor \<Rightarrow> ServiceMonitor" where
  "configureMetricsEndpoints namespace sm =
     sm\<lparr>smSpec := (smSpec sm)\<lparr>smEndpoints := map (configureEndpoint namespace) (smEndpoints (smSpec sm))\<rparr>\<rparr>"

text \<open>\<open>discovered\<close> is the answer of the discovery client. Without the kind nothing is created; the current ServiceMonitor is always overwritten.\<close>

definition createServiceMonitor :: "clientset \<Rightarrow> error + (string \<times> string list) list \<Rightarrow> string \<Rightarrow> Service \<Rightarrow> (cluster, error option) state" where
  "createServiceMonitor cs discovered namespace service =
     (case ResourceExists discovered ''monitoring.coreos.com/v1'' ''ServiceMonitor'' of Inl err \<Rightarrow> State_Monad.return (Some err)
      | Inr False \<Rightarrow> State_Monad.return None
      | Inr True \<Rightarrow>
          (let serviceMonitor = configureMetricsEndpoints namespace (GenerateServiceMonitor service) in do {
             r \<leftarrow> createOrUpdate (csMonitors cs) serviceMonitor (\<lambda>_. True) (\<lambda>cur. cur\<lparr>smSpec := smSpec serviceMonitor\<rparr>);
             State_Monad.return (case r of Inl e \<Rightarrow> Some e | Inr _ \<Rightarrow> None) }))"

text \<open>The order in \<open>RunOperator\<close>; an error ends the process.\<close>

definition setupMonitoring :: "clientset \<Rightarrow> (nat \<Rightarrow> bool) \<Rightarrow> error + (string \<times> string list) list \<Rightarrow> string \<Rightarrow> (cluster, error + unit) state" where
  "setupMonitoring cs stop discovered namespace =
     bindE (ensureMetricsServiceAndSecret cs stop namespace) (\<lambda>metricsService.
     thenE (createServiceMonitor cs discovered namespace metricsService)
       (bindE (createIntegrityFailureAlert cs namespace) (\<lambda>_. ok ())))"

section \<open>What the server promises\<close>

text \<open>
  The object there is after success: it was created, or it was there and up to date, or it is the merged one.
\<close>

definition current :: "('z ObjectMeta_scheme \<Rightarrow> 'z ObjectMeta_scheme \<Rightarrow> bool) \<Rightarrow> 'z ObjectMeta_scheme option \<Rightarrow> 'z ObjectMeta_scheme \<Rightarrow> ('z ObjectMeta_scheme \<Rightarrow> bool)
    \<Rightarrow> ('z ObjectMeta_scheme \<Rightarrow> 'z ObjectMeta_scheme) \<Rightarrow> 'z ObjectMeta_scheme \<Rightarrow> bool" where
  "current served old obj stale merge res \<longleftrightarrow> (case old of None \<Rightarrow> served obj res
     | Some cur \<Rightarrow> if stale cur then served (merge cur) res else res = cur)"

locale typed_api =
  fixes api :: "'z ObjectMeta_scheme tapi"
    and sel :: "cluster \<Rightarrow> 'z ObjectMeta_scheme list"
    and upd :: "('z ObjectMeta_scheme list \<Rightarrow> 'z ObjectMeta_scheme list) \<Rightarrow> cluster \<Rightarrow> cluster"
    and served :: "'z ObjectMeta_scheme \<Rightarrow> 'z ObjectMeta_scheme \<Rightarrow> bool"
  assumes create_law: "run_state (tCreate api obj) w = (r, w') \<Longrightarrow>
      (case r of Inr obj' \<Rightarrow> served obj obj' \<and> lookup (sel w) (nsname obj) = None \<and>
           (\<exists>os. w' = upd (\<lambda>_. os) w \<and> lookup os = (lookup (sel w))(nsname obj \<mapsto> obj'))
       | Inl e \<Rightarrow> w' = w \<and> (IsAlreadyExists e \<longrightarrow> lookup (sel w) (nsname obj) \<noteq> None))"
    and get_law: "run_state (tGet api k) w = (r, w') \<Longrightarrow>
      w' = w \<and> (case r of Inr obj \<Rightarrow> lookup (sel w) k = Some obj | Inl e \<Rightarrow> IsNotFound e \<longrightarrow> lookup (sel w) k = None)"
    and update_law: "run_state (tUpdate api obj) w = (r, w') \<Longrightarrow>
      (case r of Inr obj' \<Rightarrow> served obj obj' \<and> lookup (sel w) (nsname obj) \<noteq> None \<and>
           (\<exists>os. w' = upd (\<lambda>_. os) w \<and> lookup os = (lookup (sel w))(nsname obj \<mapsto> obj'))
       | Inl e \<Rightarrow> w' = w)"
    and sel_upd: "sel (upd f w) = f (sel w)"
begin

text \<open>Nothing but the one object is touched, and nothing at all after an error.\<close>

lemma wp_createOrUpdate:
  assumes "\<And>cur. nsname cur = nsname obj \<Longrightarrow> nsname (merge cur) = nsname obj"
    and "\<And>e. Q (Inl e) w"
    and "\<And>res os. current served (lookup (sel w) (nsname obj)) obj stale merge res \<Longrightarrow> lookup os = (lookup (sel w))(nsname obj \<mapsto> res) \<Longrightarrow> Q (Inr res) (upd (\<lambda>_. os) w)"
    and "\<And>res. current served (lookup (sel w) (nsname obj)) obj stale merge res \<Longrightarrow> lookup (sel w) (nsname obj) = Some res \<Longrightarrow> Q (Inr res) w"
  shows "wp (createOrUpdate api obj stale merge) Q w"
  unfolding createOrUpdate_def wp_bind
proof (rule wpI)
  fix r w1 assume create: "run_state (tCreate api obj) w = (r, w1)"
  show "wp (case r of Inr obj' \<Rightarrow> ok obj' | Inl err \<Rightarrow> if \<not> IsAlreadyExists err then throw err
      else bindE (tGet api (nsname obj)) (\<lambda>cur. if stale cur then tUpdate api (merge cur) else ok cur)) Q w1"
  proof (cases r)
    case (Inr res)
    with create_law [OF create] show ?thesis by (auto simp: wp_simps current_def intro: assms(3))
  next
    case (Inl err)
    with create_law [OF create] have w1: "w1 = w" and ex: "IsAlreadyExists err \<Longrightarrow> lookup (sel w) (nsname obj) \<noteq> None" by auto
    have "wp (tGet api (nsname obj)) (\<lambda>r s'. case r of Inl e \<Rightarrow> Q (Inl e) s'
        | Inr cur \<Rightarrow> wp (if stale cur then tUpdate api (merge cur) else ok cur) Q s') w"
    proof (rule wpI)
      fix g w2 assume "run_state (tGet api (nsname obj)) w = (g, w2)"
      from get_law [OF this] have w2: "w2 = w" and g: "\<And>cur. g = Inr cur \<Longrightarrow> lookup (sel w) (nsname obj) = Some cur" by (auto split: sum.splits)
      have upd: "wp (tUpdate api (merge cur)) Q w" if "g = Inr cur" "stale cur" for cur
      proof (rule wpI)
        fix u w3 assume "run_state (tUpdate api (merge cur)) w = (u, w3)"
        from update_law [OF this] assms(1) [OF lookup_nsname [OF g [OF that(1)]]] that g [OF that(1)]
        show "Q u w3" by (cases u) (auto simp: current_def intro: assms(2,3))
      qed
      show "case g of Inl e \<Rightarrow> Q (Inl e) w2 | Inr cur \<Rightarrow> wp (if stale cur then tUpdate api (merge cur) else ok cur) Q w2"
        using upd g by (cases g) (auto simp: w2 wp_simps current_def intro: assms(2,4))
    qed
    with Inl w1 show ?thesis by (simp add: wp_simps assms(2))
  qed
qed

end

text \<open>
  The server gives a service its cluster address and further fields; an address that is given is kept.
\<close>

definition canon_svc :: "Service \<Rightarrow> Service" where
  "canon_svc s = (canon_meta s)\<lparr>svcSpec := (svcSpec s)\<lparr>ssClusterIP := '''', ssServerSet := ''''\<rparr>\<rparr>"

definition served_svc :: "Service \<Rightarrow> Service \<Rightarrow> bool" where
  "served_svc s s' \<longleftrightarrow> canon_svc s' = canon_svc s \<and> ssClusterIP (svcSpec s) \<in> {'''', ssClusterIP (svcSpec s')}"

locale monitoring_api =
  fixes cs :: clientset
  assumes services_laws: "typed_api (csServices cs) Services Services_update served_svc"
    and secrets_laws: "typed_api (csSecrets cs) Secrets Secrets_update served_meta"
    and rules_laws: "typed_api (csRules cs) PrometheusRules PrometheusRules_update served_meta"
    and monitors_laws: "typed_api (csMonitors cs) ServiceMonitors ServiceMonitors_update served_meta"
begin

sublocale svc: typed_api "csServices cs" Services Services_update served_svc by (rule services_laws)
sublocale sec: typed_api "csSecrets cs" Secrets Secrets_update served_meta by (rule secrets_laws)
sublocale prule: typed_api "csRules cs" PrometheusRules PrometheusRules_update served_meta by (rule rules_laws)
sublocale mon: typed_api "csMonitors cs" ServiceMonitors ServiceMonitors_update served_meta by (rule monitors_laws)

end

text \<open>A server in memory, whose calls may fail: the laws hold for it.\<close>

definition mem_tapi :: "faults \<Rightarrow> string \<Rightarrow> ('z ObjectMeta_scheme \<Rightarrow> 'z ObjectMeta_scheme) \<Rightarrow> (cluster \<Rightarrow> 'z ObjectMeta_scheme list)
    \<Rightarrow> (('z ObjectMeta_scheme list \<Rightarrow> 'z ObjectMeta_scheme list) \<Rightarrow> cluster \<Rightarrow> cluster) \<Rightarrow> 'z ObjectMeta_scheme tapi" where
  "mem_tapi f kind fill sel upd =
     \<lparr>tCreate = (\<lambda>obj. State (\<lambda>w. case f (''create '' @ kind) (nsname obj) of Some e \<Rightarrow> (Inl e, w)
        | None \<Rightarrow> (case lookup (sel w) (nsname obj) of Some _ \<Rightarrow> (Inl (AlreadyExists (Name obj)), w)
            | None \<Rightarrow> (Inr (fill obj), upd (\<lambda>_. sel w @ [fill obj]) w)))),
      tGet = (\<lambda>k. State (\<lambda>w. case f (''get '' @ kind) k of Some e \<Rightarrow> (Inl e, w)
        | None \<Rightarrow> (case lookup (sel w) k of None \<Rightarrow> (Inl (NotFound (snd k)), w) | Some obj \<Rightarrow> (Inr obj, w)))),
      tUpdate = (\<lambda>obj. State (\<lambda>w. case f (''update '' @ kind) (nsname obj) of Some e \<Rightarrow> (Inl e, w)
        | None \<Rightarrow> (case lookup (sel w) (nsname obj) of None \<Rightarrow> (Inl (NotFound (Name obj)), w)
            | Some _ \<Rightarrow> (Inr (fill obj), upd (\<lambda>_. map (\<lambda>x. if nsname x = nsname obj then fill obj else x) (sel w)) w))))\<rparr>"

lemma mem_tapi_laws:
  assumes "honest f" and "\<And>g w. sel (upd g w) = g (sel w)" and "\<And>obj. served obj (fill obj)" and "\<And>obj. nsname (fill obj) = nsname obj"
  shows "typed_api (mem_tapi f kind fill sel upd) sel upd served"
proof
  fix obj w r w' assume "run_state (tUpdate (mem_tapi f kind fill sel upd) obj) w = (r, w')"
  then show "case r of Inr obj' \<Rightarrow> served obj obj' \<and> lookup (sel w) (nsname obj) \<noteq> None \<and>
      (\<exists>os. w' = upd (\<lambda>_. os) w \<and> lookup os = (lookup (sel w))(nsname obj \<mapsto> obj')) | Inl e \<Rightarrow> w' = w"
    using lookup_replace [of "sel w" obj "fill obj"] assms(3,4) by (auto simp: mem_tapi_def split: option.splits)
next
  fix obj w r w' assume "run_state (tCreate (mem_tapi f kind fill sel upd) obj) w = (r, w')"
  then show "case r of Inr obj' \<Rightarrow> served obj obj' \<and> lookup (sel w) (nsname obj) = None \<and>
      (\<exists>os. w' = upd (\<lambda>_. os) w \<and> lookup os = (lookup (sel w))(nsname obj \<mapsto> obj'))
    | Inl e \<Rightarrow> w' = w \<and> (IsAlreadyExists e \<longrightarrow> lookup (sel w) (nsname obj) \<noteq> None)"
    using assms(2-) by (auto simp: mem_tapi_def fun_eq_iff lookup_append dest: honestD [OF assms(1)] split: option.splits intro!: exI [of _ "sel w @ [fill obj]"])
next
  fix k w r w' assume "run_state (tGet (mem_tapi f kind fill sel upd) k) w = (r, w')"
  then show "w' = w \<and> (case r of Inr obj \<Rightarrow> lookup (sel w) k = Some obj | Inl e \<Rightarrow> IsNotFound e \<longrightarrow> lookup (sel w) k = None)"
    by (auto simp: mem_tapi_def split: option.splits dest: honestD [OF assms(1)])
qed (rule assms(2))

definition assign_ip :: "Service \<Rightarrow> Service" where
  "assign_ip s = s\<lparr>svcSpec := (svcSpec s)\<lparr>ssClusterIP := if ssClusterIP (svcSpec s) = '''' then ''172.30.0.1'' else ssClusterIP (svcSpec s),
     ssServerSet := ''SingleStack''\<rparr>\<rparr>"

definition mem_clientset :: "faults \<Rightarrow> clientset" where
  "mem_clientset f = \<lparr>csServices = mem_tapi f ''services'' assign_ip Services Services_update, csSecrets = mem_tapi f ''secrets'' id Secrets Secrets_update,
     csRules = mem_tapi f ''prometheusrules'' id PrometheusRules PrometheusRules_update,
     csMonitors = mem_tapi f ''servicemonitors'' id ServiceMonitors ServiceMonitors_update\<rparr>"

lemma mem_monitoring: "honest f \<Longrightarrow> monitoring_api (mem_clientset f)"
  unfolding monitoring_api_def
  by (auto simp: mem_clientset_def served_meta_def served_svc_def canon_svc_def assign_ip_def canon_meta_def nsname_def intro!: mem_tapi_laws)

interpretation mem_mon: monitoring_api "mem_clientset no_faults"
  by (rule mem_monitoring) (simp add: honest_def no_faults_def)

end
