(* ===== verification/Operator_Properties.thy ===== *)
theory Operator_Properties
  imports Operator_Setup
begin

text \<open>
  Properties of the set-up of monitoring: what a successful run leaves, and that a run, successful or not, leaves
  everything else alone.
\<close>

section \<open>Frames\<close>

text \<open>What the set-up may touch: its own four objects; a secret that is there stays as it is.\<close>

definition setup_frame :: "string \<Rightarrow> cluster \<Rightarrow> cluster \<Rightarrow> bool" where
  "setup_frame ns w w' \<longleftrightarrow> eq_off {(ns, metricsServiceName)} (lookup (Services w)) (lookup (Services w')) \<and>
     eq_off {(ns, operatorMetricsSecretName)} (lookup (Secrets w)) (lookup (Secrets w')) \<and> lookup (Secrets w) \<subseteq>\<^sub>m lookup (Secrets w') \<and>
     eq_off {(ns, defaultPrometheusAlertName)} (lookup (PrometheusRules w)) (lookup (PrometheusRules w')) \<and>
     eq_off {(ns, metricsServiceName)} (lookup (ServiceMonitors w)) (lookup (ServiceMonitors w'))"

lemma setup_frame_refl [simp]: "setup_frame ns w w"
  by (simp add: setup_frame_def)

lemma setup_frame_trans: "setup_frame ns w w1 \<Longrightarrow> setup_frame ns w1 w2 \<Longrightarrow> setup_frame ns w w2"
  by (auto simp: setup_frame_def intro: eq_off_trans map_le_trans)

lemma setup_frame_store:
  "lookup os = (lookup (Services w))((ns, metricsServiceName) \<mapsto> x) \<Longrightarrow> setup_frame ns w (w\<lparr>Services := os\<rparr>)"
  "lookup ss = (lookup (Secrets w))((ns, operatorMetricsSecretName) \<mapsto> y) \<Longrightarrow> lookup (Secrets w) (ns, operatorMetricsSecretName) = None \<Longrightarrow>
     setup_frame ns w (w\<lparr>Secrets := ss\<rparr>)"
  "lookup rs = (lookup (PrometheusRules w))((ns, defaultPrometheusAlertName) \<mapsto> z) \<Longrightarrow> setup_frame ns w (w\<lparr>PrometheusRules := rs\<rparr>)"
  "lookup ms = (lookup (ServiceMonitors w))((ns, metricsServiceName) \<mapsto> v) \<Longrightarrow> setup_frame ns w (w\<lparr>ServiceMonitors := ms\<rparr>)"
  by (auto simp: setup_frame_def eq_off_def map_le_def)

lemma sel_names [simp]: "nsname (newService ns) = (ns, metricsServiceName)" "nsname (tokenSecret ns) = (ns, operatorMetricsSecretName)"
  "nsname (defaultPrometheusRule a ns) = (ns, a)" "nsname (GenerateServiceMonitor s) = nsname s"
  "nsname (configureMetricsEndpoints ns sm) = nsname sm" "nsname (mergeService new cur) = nsname cur"
  "nsname (r\<lparr>prGroups := g\<rparr>) = nsname r" "nsname (m\<lparr>smSpec := sp\<rparr>) = nsname m"
  by (simp_all add: nsname_def newService_def tokenSecret_def defaultPrometheusRule_def GenerateServiceMonitor_def configureMetricsEndpoints_def
      mergeService_def Let_def)

lemma mergeService_sel [simp]: "ssPorts (svcSpec (mergeService new cur)) = ssPorts (svcSpec new)"
  "ssClusterIP (svcSpec (mergeService (newService ns) cur)) = ssClusterIP (svcSpec cur)"
  by (simp_all add: mergeService_def newService_def Let_def)

section \<open>Each step\<close>

text \<open>What is known of the metrics service after the first step.\<close>

definition service_ready :: "string \<Rightarrow> Service option \<Rightarrow> Service \<Rightarrow> bool" where
  "service_ready ns old s \<longleftrightarrow> nsname s = (ns, metricsServiceName) \<and> ssPorts (svcSpec s) = ssPorts (svcSpec (newService ns)) \<and>
     (case old of None \<Rightarrow> mget (Labels s) = mget (Labels (newService ns))
      | Some cur \<Rightarrow> ssClusterIP (svcSpec cur) \<in> {'''', ssClusterIP (svcSpec s)})"

lemma served_svcD:
  assumes "served_svc s s'"
  shows "nsname s' = nsname s" "ssPorts (svcSpec s') = ssPorts (svcSpec s)" "mget (Labels s') = mget (Labels s)"
    "ssClusterIP (svcSpec s) \<in> {'''', ssClusterIP (svcSpec s')}"
proof -
  have c: "canon_svc s' = canon_svc s" using assms by (simp add: served_svc_def)
  then have "nsname (canon_svc s') = nsname (canon_svc s)" "ssPorts (svcSpec (canon_svc s')) = ssPorts (svcSpec (canon_svc s))"
    "mget (Labels (canon_svc s')) = mget (Labels (canon_svc s))" by simp_all
  then show "nsname s' = nsname s" "ssPorts (svcSpec s') = ssPorts (svcSpec s)" "mget (Labels s') = mget (Labels s)"
    by (simp_all add: canon_svc_def nsname_def canon_meta_def fun_eq_iff mget_made)
  show "ssClusterIP (svcSpec s) \<in> {'''', ssClusterIP (svcSpec s')}" using assms by (simp add: served_svc_def)
qed

lemma service_current:
  assumes "current served_svc old (newService ns) (\<lambda>cur. svcSpec cur \<noteq> svcSpec (newService ns)) (mergeService (newService ns)) s"
    and "\<And>cur. old = Some cur \<Longrightarrow> nsname cur = (ns, metricsServiceName)"
  shows "service_ready ns old s"
proof (cases old)
  case None
  with assms(1) have "served_svc (newService ns) s" by (simp add: current_def)
  from served_svcD [OF this] None show ?thesis by (simp add: service_ready_def)
next
  case (Some cur)
  show ?thesis
  proof (cases "svcSpec cur = svcSpec (newService ns)")
    case True
    with assms Some show ?thesis by (simp add: current_def service_ready_def)
  next
    case False
    with assms(1) Some have "served_svc (mergeService (newService ns) cur) s" by (simp add: current_def)
    from served_svcD [OF this] assms(2) [OF Some] Some show ?thesis by (simp add: service_ready_def)
  qed
qed

definition secrets_there :: "string \<Rightarrow> cluster \<Rightarrow> bool" where
  "secrets_there ns w \<longleftrightarrow> lookup (Secrets w) (ns, servingCert) \<noteq> None \<and> lookup (Secrets w) (ns, operatorMetricsSecretName) \<noteq> None"

context monitoring_api
begin

lemma wp_service:
  "wp (createOrUpdate (csServices cs) (newService ns) (\<lambda>cur. svcSpec cur \<noteq> svcSpec (newService ns)) (mergeService (newService ns)))
     (\<lambda>r w'. setup_frame ns w w' \<and> (\<forall>s. r = Inr s \<longrightarrow> service_ready ns (lookup (Services w) (ns, metricsServiceName)) s \<and>
        lookup (Services w') (ns, metricsServiceName) = Some s)) w"
proof -
  have old: "nsname cur = (ns, metricsServiceName)" if "lookup (Services w) (ns, metricsServiceName) = Some cur" for cur
    by (rule lookup_nsname [OF that])
  show ?thesis
    by (rule svc.wp_createOrUpdate) (auto intro: setup_frame_store service_current [OF _ old])
qed

lemma wp_checkSecrets:
  "wp (checkSecrets cs ns) (\<lambda>r w'. setup_frame ns w w' \<and> Services w' = Services w \<and> (r = Finished \<longrightarrow> secrets_there ns w')) w"
proof -
  have get: "wp (tGet (csSecrets cs) k) (\<lambda>r w'. w' = w1 \<and> (case r of Inr _ \<Rightarrow> lookup (Secrets w1) k \<noteq> None
      | Inl e \<Rightarrow> IsNotFound e \<longrightarrow> lookup (Secrets w1) k = None)) w1" for k w1
    by (rule wpI) (use sec.get_law [of k w1] in \<open>fastforce split: sum.splits\<close>)
  have create: "wp (tCreate (csSecrets cs) (tokenSecret ns)) (\<lambda>_ w'. setup_frame ns w w' \<and> Services w' = Services w) w"
    by (rule wpI) (use sec.create_law [of "tokenSecret ns" w] in \<open>fastforce intro: setup_frame_store(2) split: sum.splits\<close>)
  show ?thesis unfolding checkSecrets_def wp_bind
  proof (rule wp_conseq [OF get], goal_cases)
    case (1 cert w1)
    show ?case
    proof (cases cert)
      case (Inr c)
      have "wp (tGet (csSecrets cs) (ns, operatorMetricsSecretName)) (\<lambda>token. wp (case token of
           Inr _ \<Rightarrow> State_Monad.return Finished
         | Inl err \<Rightarrow> if \<not> IsNotFound err then State_Monad.return (Permanent err)
             else do {
               created \<leftarrow> tCreate (csSecrets cs) (tokenSecret ns);
               case created of
                 Inl createErr \<Rightarrow> State_Monad.return (if \<not> IsAlreadyExists createErr then Permanent createErr
                   else Transient (GoError ''waiting for metrics token secret to be populated''))
               | Inr _ \<Rightarrow> State_Monad.return (Transient (GoError ''waiting for metrics token secret to be populated'')) })
          (\<lambda>r w'. setup_frame ns w w' \<and> Services w' = Services w \<and> (r = Finished \<longrightarrow> secrets_there ns w'))) w"
        by (rule wp_conseq [OF get]) (use 1 Inr in \<open>auto simp: wp_simps secrets_there_def split: sum.splits intro!: wp_conseq [OF create]\<close>)
      with 1 Inr show ?thesis by (simp add: wp_simps)
    qed (use 1 in \<open>simp add: wp_simps\<close>)
  qed
qed

lemma wp_secrets:
  "wp (ensureMetricsSecretsWithRetry cs stop ns) (\<lambda>r w'. setup_frame ns w w' \<and> Services w' = Services w \<and> (r = None \<longrightarrow> secrets_there ns w')) w"
  unfolding ensureMetricsSecretsWithRetry_def wp_bind
  by (rule wp_Retry [where I = "\<lambda>w'. setup_frame ns w w' \<and> Services w' = Services w"])
     (auto simp: wp_simps split: attempt.splits intro!: wp_conseq [OF wp_checkSecrets] dest: setup_frame_trans)

end

lemma served_ruleD: "served_meta (r :: PrometheusRule) r' \<Longrightarrow> prGroups r' = prGroups r"
  by (cases r; cases r'; simp add: served_meta_def canon_meta_def)

lemma served_monitorD: "served_meta (m :: ServiceMonitor) m' \<Longrightarrow> smSpec m' = smSpec m"
  by (cases m; cases m'; simp add: served_meta_def canon_meta_def)

definition monitor_ready :: "string \<Rightarrow> Service \<Rightarrow> ServiceMonitor \<Rightarrow> bool" where
  "monitor_ready ns s m \<longleftrightarrow> smSelector (smSpec m) = Some (made (Labels s)) \<and>
     smEndpoints (smSpec m) = map (configureEndpoint ns) (populateEndpointsFromServicePorts (ssPorts (svcSpec s)))"

context monitoring_api
begin

lemma wp_alert:
  "wp (createIntegrityFailureAlert cs ns) (\<lambda>r w'. setup_frame ns w w' \<and> (\<exists>rs. w' = w\<lparr>PrometheusRules := rs\<rparr>) \<and>
     (\<forall>pr. r = Inr pr \<longrightarrow> lookup (PrometheusRules w') (ns, defaultPrometheusAlertName) = Some pr \<and>
        prGroups pr = prGroups (defaultPrometheusRule defaultPrometheusAlertName ns))) w"
proof -
  let ?rule = "defaultPrometheusRule defaultPrometheusAlertName ns"
  have groups: "prGroups pr = prGroups ?rule"
    if "current served_meta old ?rule (\<lambda>cur. prGroups cur \<noteq> prGroups ?rule) (\<lambda>cur. cur\<lparr>prGroups := prGroups ?rule\<rparr>) pr" for old pr
    using that by (auto simp: current_def split: option.splits if_splits dest: served_ruleD)
  have refl: "\<exists>rs. w = w\<lparr>PrometheusRules := rs\<rparr>" by (rule exI [of _ "PrometheusRules w"]) simp
  show ?thesis unfolding createIntegrityFailureAlert_def Let_def
    by (rule prule.wp_createOrUpdate) (use refl in \<open>auto intro: setup_frame_store groups\<close>)
qed

lemma wp_monitor:
  assumes "nsname s = (ns, metricsServiceName)"
  shows "wp (createServiceMonitor cs discovered ns s) (\<lambda>r w'. setup_frame ns w w' \<and> (\<exists>ms. w' = w\<lparr>ServiceMonitors := ms\<rparr>) \<and>
     (r = None \<longrightarrow> (ResourceExists discovered ''monitoring.coreos.com/v1'' ''ServiceMonitor'' = Inr False \<and> w' = w \<or>
        (\<exists>m. lookup (ServiceMonitors w') (ns, metricsServiceName) = Some m \<and> monitor_ready ns s m)))) w"
proof -
  let ?m = "configureMetricsEndpoints ns (GenerateServiceMonitor s)"
  have ready: "monitor_ready ns s m" if "current served_meta old ?m (\<lambda>_. True) (\<lambda>cur. cur\<lparr>smSpec := smSpec ?m\<rparr>) m" for old m
  proof -
    have "smSpec m = smSpec ?m" using that by (auto simp: current_def split: option.splits dest: served_monitorD)
    then show ?thesis by (simp add: monitor_ready_def configureMetricsEndpoints_def GenerateServiceMonitor_def Let_def)
  qed
  have refl: "\<exists>ms. w = w\<lparr>ServiceMonitors := ms\<rparr>" by (rule exI [of _ "ServiceMonitors w"]) simp
  have "wp (createOrUpdate (csMonitors cs) ?m (\<lambda>_. True) (\<lambda>cur. cur\<lparr>smSpec := smSpec ?m\<rparr>)) (\<lambda>r w'. setup_frame ns w w' \<and>
      (\<exists>ms. w' = w\<lparr>ServiceMonitors := ms\<rparr>) \<and> (\<forall>m. r = Inr m \<longrightarrow> lookup (ServiceMonitors w') (ns, metricsServiceName) = Some m \<and> monitor_ready ns s m)) w"
    by (rule mon.wp_createOrUpdate) (use refl assms in \<open>auto intro: setup_frame_store ready\<close>)
  with refl show ?thesis unfolding createServiceMonitor_def Let_def
    by (cases "ResourceExists discovered ''monitoring.coreos.com/v1'' ''ServiceMonitor''")
       (auto simp: wp_simps split: bool.splits sum.splits elim!: wp_conseq)
qed

end

section \<open>The whole set-up\<close>

definition set_up :: "string \<Rightarrow> error + (string \<times> string list) list \<Rightarrow> cluster \<Rightarrow> cluster \<Rightarrow> bool" where
  "set_up ns discovered w w' \<longleftrightarrow> secrets_there ns w' \<and>
     (\<exists>s. lookup (Services w') (ns, metricsServiceName) = Some s \<and> service_ready ns (lookup (Services w) (ns, metricsServiceName)) s \<and>
        (ResourceExists discovered ''monitoring.coreos.com/v1'' ''ServiceMonitor'' = Inr False \<or>
         (\<exists>m. lookup (ServiceMonitors w') (ns, metricsServiceName) = Some m \<and> monitor_ready ns s m))) \<and>
     (\<exists>pr. lookup (PrometheusRules w') (ns, defaultPrometheusAlertName) = Some pr \<and>
        prGroups pr = prGroups (defaultPrometheusRule defaultPrometheusAlertName ns))"

context monitoring_api
begin

lemma wp_service_and_secret:
  "wp (ensureMetricsServiceAndSecret cs stop ns) (\<lambda>r w'. setup_frame ns w w' \<and> (\<forall>s. r = Inr s \<longrightarrow> secrets_there ns w' \<and>
     service_ready ns (lookup (Services w) (ns, metricsServiceName)) s \<and> lookup (Services w') (ns, metricsServiceName) = Some s)) w"
  unfolding ensureMetricsServiceAndSecret_def wp_bindE
proof (rule wp_conseq [OF wp_service], goal_cases)
  case (1 r w1)
  show ?case
  proof (cases r)
    case (Inr s)
    have "wp (thenE (ensureMetricsSecretsWithRetry cs stop ns) (ok s)) (\<lambda>r w'. setup_frame ns w w' \<and> (\<forall>s. r = Inr s \<longrightarrow> secrets_there ns w' \<and>
      service_ready ns (lookup (Services w) (ns, metricsServiceName)) s \<and> lookup (Services w') (ns, metricsServiceName) = Some s)) w1"
      unfolding wp_thenE
      by (rule wp_conseq [OF wp_secrets]) (use 1 Inr in \<open>auto simp: wp_simps split: option.splits dest: setup_frame_trans\<close>)
    with Inr show ?thesis by simp
  qed (use 1 in simp)
qed

lemma wp_monitor_and_alert:
  assumes "setup_frame ns w w1" and "secrets_there ns w1" and "service_ready ns (lookup (Services w) (ns, metricsServiceName)) s"
    and "lookup (Services w1) (ns, metricsServiceName) = Some s"
  shows "wp (thenE (createServiceMonitor cs discovered ns s) (bindE (createIntegrityFailureAlert cs ns) (\<lambda>_. ok ())))
     (\<lambda>r w'. setup_frame ns w w' \<and> (r = Inr () \<longrightarrow> set_up ns discovered w w')) w1"
proof -
  have name: "nsname s = (ns, metricsServiceName)" using assms(3) by (simp add: service_ready_def)
  show ?thesis unfolding wp_thenE
  proof (rule wp_conseq [OF wp_monitor [OF name]], goal_cases)
    case (1 r w2)
    then have frame: "setup_frame ns w w2" using assms(1) setup_frame_trans by blast
    show ?case
    proof (cases r)
      case None
      with 1 assms have there: "secrets_there ns w2" "lookup (Services w2) (ns, metricsServiceName) = Some s"
        "ResourceExists discovered ''monitoring.coreos.com/v1'' ''ServiceMonitor'' = Inr False \<or>
           (\<exists>m. lookup (ServiceMonitors w2) (ns, metricsServiceName) = Some m \<and> monitor_ready ns s m)"
        by (auto simp: secrets_there_def)
      have "wp (bindE (createIntegrityFailureAlert cs ns) (\<lambda>_. ok ())) (\<lambda>r w'. setup_frame ns w w' \<and> (r = Inr () \<longrightarrow> set_up ns discovered w w')) w2"
        unfolding wp_bindE
      proof (rule wp_conseq [OF wp_alert], goal_cases)
        case (1 r3 w3)
        then have same: "Services w3 = Services w2" "Secrets w3 = Secrets w2" "ServiceMonitors w3 = ServiceMonitors w2" by auto
        from 1 have "setup_frame ns w w3" by (meson frame setup_frame_trans)
        moreover have "set_up ns discovered w w3" if "r3 = Inr pr" for pr
          using 1 that there assms(3) unfolding set_up_def secrets_there_def same by blast
        ultimately show ?case by (cases r3) (simp_all add: wp_simps)
      qed
      with None show ?thesis by simp
    qed (use frame in simp)
  qed
qed

lemma wp_setup:
  "wp (setupMonitoring cs stop discovered ns) (\<lambda>r w'. setup_frame ns w w' \<and> (r = Inr () \<longrightarrow> set_up ns discovered w w')) w"
  unfolding setupMonitoring_def wp_bindE
  by (rule wp_conseq [OF wp_service_and_secret]) (auto split: sum.splits intro!: wp_monitor_and_alert)

end

text \<open>
  C29. When the operator has set up monitoring, the metrics service has its two ports and, if it was there before, the cluster address it had; both secrets
  exist; the ServiceMonitor (where the cluster knows the kind) selects that service, scrapes the operator's own metrics under their path over TLS
  with the token of the created secret and server name of the service, and the standard metrics plainly; and the alert is the default one,
  whatever was there before.
\<close>

theorem monitoring_set_up:
  assumes "monitoring_api cs" and "run_state (setupMonitoring cs stop discovered ns) w = (Inr (), w')"
  shows "\<exists>s pr. lookup (Services w') (ns, ''metrics'') = Some s \<and> map spName (ssPorts (svcSpec s)) = [''metrics'', ''metrics-fio''] \<and>
     (\<forall>cur. lookup (Services w) (ns, ''metrics'') = Some cur \<longrightarrow> ssClusterIP (svcSpec cur) \<in> {'''', ssClusterIP (svcSpec s)}) \<and>
     lookup (Secrets w') (ns, servingCert) \<noteq> None \<and> lookup (Secrets w') (ns, operatorMetricsSecretName) \<noteq> None \<and>
     (ResourceExists discovered ''monitoring.coreos.com/v1'' ''ServiceMonitor'' = Inr False \<or>
      (\<exists>m plain secured. lookup (ServiceMonitors w') (ns, ''metrics'') = Some m \<and> smSelector (smSpec m) = Some (made (Labels s)) \<and>
         smEndpoints (smSpec m) = [plain, secured] \<and> epPort plain = ''metrics'' \<and> epTLSConfig plain = None \<and>
         epPort secured = ''metrics-fio'' \<and> epPath secured = ''/metrics-fio'' \<and> epScheme secured = Some ''https'' \<and>
         map_option authSecret (epAuthorization secured) = Some operatorMetricsSecretName \<and>
         map_option tlsServerName (epTLSConfig secured) = Some (''metrics.'' @ ns @ ''.svc''))) \<and>
     lookup (PrometheusRules w') (ns, ''file-integrity'') = Some pr \<and> prGroups pr = prGroups (defaultPrometheusRule ''file-integrity'' ns)"
proof -
  have "set_up ns discovered w w'" using wp_run [OF monitoring_api.wp_setup [OF assms(1)] assms(2)] by simp
  then obtain s pr where s: "lookup (Services w') (ns, ''metrics'') = Some s" "service_ready ns (lookup (Services w) (ns, ''metrics'')) s"
    "ResourceExists discovered ''monitoring.coreos.com/v1'' ''ServiceMonitor'' = Inr False \<or>
       (\<exists>m. lookup (ServiceMonitors w') (ns, ''metrics'') = Some m \<and> monitor_ready ns s m)"
    and rest: "secrets_there ns w'" "lookup (PrometheusRules w') (ns, ''file-integrity'') = Some pr"
    "prGroups pr = prGroups (defaultPrometheusRule ''file-integrity'' ns)"
    unfolding set_up_def metricsServiceName_def defaultPrometheusAlertName_def by blast
  have ports: "ssPorts (svcSpec s) = ssPorts (svcSpec (newService ns))" using s(2) by (simp add: service_ready_def)
  have ends: "map (configureEndpoint ns) (populateEndpointsFromServicePorts (ssPorts (svcSpec s))) =
      [\<lparr>epPort = ''metrics'', epPath = '''', epScheme = None, epAuthorization = None, epTLSConfig = None\<rparr>,
       configureEndpoint ns \<lparr>epPort = ''metrics-fio'', epPath = '''', epScheme = None, epAuthorization = None, epTLSConfig = None\<rparr>]"
    by (simp add: ports newService_def configureEndpoint_def ControllerMetricsServiceName_def)
  show ?thesis
    by (rule exI [of _ s], rule exI [of _ pr], use s rest in \<open>auto simp: secrets_there_def monitor_ready_def ends service_ready_def ports
        newService_def configureEndpoint_def ControllerMetricsServiceName_def HandlerPath_def\<close>)
qed

definition sample_cluster :: cluster where
  "sample_cluster = \<lparr>Services = [], Secrets = [(tokenSecret ''ns'')\<lparr>Name := servingCert, secType := ''kubernetes.io/tls''\<rparr>, tokenSecret ''ns''],
     PrometheusRules = [(defaultPrometheusRule ''file-integrity'' ''ns'')\<lparr>prGroups := []\<rparr>], ServiceMonitors = []\<rparr>"

abbreviation sample_kinds :: "error + (string \<times> string list) list" where
  "sample_kinds \<equiv> Inr [(''monitoring.coreos.com/v1'', [''ServiceMonitor''])]"

lemma mem_run:
  "csServices (mem_clientset f) = mem_tapi f ''services'' assign_ip Services Services_update" "csSecrets (mem_clientset f) = mem_tapi f ''secrets'' id Secrets Secrets_update"
  "csRules (mem_clientset f) = mem_tapi f ''prometheusrules'' id PrometheusRules PrometheusRules_update"
  "csMonitors (mem_clientset f) = mem_tapi f ''servicemonitors'' id ServiceMonitors ServiceMonitors_update"
  "run_state (tCreate (mem_tapi no_faults kind fill sel upd) obj) w = (case lookup (sel w) (nsname obj) of Some _ \<Rightarrow> (Inl (AlreadyExists (Name obj)), w)
     | None \<Rightarrow> (Inr (fill obj), upd (\<lambda>_. sel w @ [fill obj]) w))"
  "run_state (tGet (mem_tapi no_faults kind fill sel upd) k) w = (case lookup (sel w) k of None \<Rightarrow> (Inl (NotFound (snd k)), w) | Some obj \<Rightarrow> (Inr obj, w))"
  "run_state (tUpdate (mem_tapi no_faults kind fill sel upd) obj) w = (case lookup (sel w) (nsname obj) of None \<Rightarrow> (Inl (NotFound (Name obj)), w)
     | Some _ \<Rightarrow> (Inr (fill obj), upd (\<lambda>_. map (\<lambda>x. if nsname x = nsname obj then fill obj else x) (sel w)) w))"
  by (simp_all add: mem_clientset_def mem_tapi_def no_faults_def)

lemma sample_setup_run:
  "\<exists>w'. run_state (setupMonitoring (mem_clientset no_faults) (\<lambda>_. False) sample_kinds ''ns'') sample_cluster = (Inr (), w')"
proof -
  have secrets: "run_state (ensureMetricsSecretsWithRetry (mem_clientset no_faults) (\<lambda>_. False) ''ns'') w = (None, w)"
    if "Secrets w = Secrets sample_cluster" for w
  proof -
    have "run_state (checkSecrets (mem_clientset no_faults) ''ns'') w = (Finished, w)" using that
      by (simp add: checkSecrets_def mem_run sample_cluster_def nsname_def tokenSecret_def
          servingCert_def operatorMetricsSecretName_def)
    then have "run_state (Retry (\<lambda>_. False) n (\<lambda>_. checkSecrets (mem_clientset no_faults) ''ns'')) w = (None, w)" for n by (cases n) simp_all
    then show ?thesis by (simp add: ensureMetricsSecretsWithRetry_def)
  qed
  let ?svc = "assign_ip (newService ''ns'')" let ?w1 = "sample_cluster\<lparr>Services := [?svc]\<rparr>"
  let ?m = "configureMetricsEndpoints ''ns'' (GenerateServiceMonitor ?svc)" let ?w2 = "?w1\<lparr>ServiceMonitors := [?m]\<rparr>"
  have "run_state (ensureMetricsServiceAndSecret (mem_clientset no_faults) (\<lambda>_. False) ''ns'') sample_cluster = (Inr ?svc, ?w1)"
    by (simp add: ensureMetricsServiceAndSecret_def createOrUpdate_def bindE_def thenE_def ok_def mem_run secrets sample_cluster_def)
  moreover have "run_state (createServiceMonitor (mem_clientset no_faults) sample_kinds ''ns'' ?svc) ?w1 = (None, ?w2)"
    by (simp add: createServiceMonitor_def createOrUpdate_def ResourceExists_def ok_def mem_run Let_def sample_cluster_def)
  moreover have "\<exists>pr w3. run_state (createIntegrityFailureAlert (mem_clientset no_faults) ''ns'') ?w2 = (Inr pr, w3)"
  proof -
    have "lookup (PrometheusRules ?w2) (''ns'', ''file-integrity'') = Some ((defaultPrometheusRule ''file-integrity'' ''ns'')\<lparr>prGroups := []\<rparr>)"
      by (simp add: sample_cluster_def)
    then show ?thesis
      by (simp add: createIntegrityFailureAlert_def createOrUpdate_def Let_def bindE_def ok_def mem_run defaultPrometheusAlertName_def)
  qed
  ultimately show ?thesis by (auto simp: setupMonitoring_def bindE_def thenE_def ok_def)
qed

theorem monitoring_set_up_witness:
  "\<exists>w' pr. run_state (setupMonitoring (mem_clientset no_faults) (\<lambda>_. False) sample_kinds ''ns'') sample_cluster = (Inr (), w') \<and>
     lookup (PrometheusRules w') (''ns'', ''file-integrity'') = Some pr \<and> prGroups pr \<noteq> []"
proof -
  obtain w' where run: "run_state (setupMonitoring (mem_clientset no_faults) (\<lambda>_. False) sample_kinds ''ns'') sample_cluster = (Inr (), w')"
    using sample_setup_run by blast
  from monitoring_set_up [OF mem_mon.monitoring_api_axioms run] run show ?thesis by (auto simp: defaultPrometheusRule_def)
qed

text \<open>
  Whatever fails on the way, setting up monitoring touches at most the metrics service, the token secret, the ServiceMonitor and the alert of the
  operator's namespace, and it never changes or removes a secret that is there.
\<close>

theorem monitoring_setup_confined:
  assumes "monitoring_api cs" and "run_state (setupMonitoring cs stop discovered ns) w = (r, w')"
  shows "(\<forall>k. k \<noteq> (ns, ''metrics'') \<longrightarrow> lookup (Services w') k = lookup (Services w) k \<and> lookup (ServiceMonitors w') k = lookup (ServiceMonitors w) k) \<and>
     (\<forall>k. k \<noteq> (ns, ''file-integrity'') \<longrightarrow> lookup (PrometheusRules w') k = lookup (PrometheusRules w) k) \<and>
     (\<forall>k. k \<noteq> (ns, operatorMetricsSecretName) \<longrightarrow> lookup (Secrets w') k = lookup (Secrets w) k) \<and>
     lookup (Secrets w) \<subseteq>\<^sub>m lookup (Secrets w')"
  using wp_run [OF monitoring_api.wp_setup [OF assms(1)] assms(2)]
  unfolding setup_frame_def eq_off_def metricsServiceName_def defaultPrometheusAlertName_def by blast

theorem monitoring_setup_confined_witness:
  "\<exists>w'. run_state (setupMonitoring (mem_clientset no_faults) (\<lambda>_. False) sample_kinds ''ns'') sample_cluster = (Inr (), w') \<and>
     lookup (Secrets w') (''ns'', servingCert) = lookup (Secrets sample_cluster) (''ns'', servingCert)"
proof -
  obtain w' where run: "run_state (setupMonitoring (mem_clientset no_faults) (\<lambda>_. False) sample_kinds ''ns'') sample_cluster = (Inr (), w')"
    using sample_setup_run by blast
  have "servingCert \<noteq> operatorMetricsSecretName" by (simp add: servingCert_def operatorMetricsSecretName_def)
  with monitoring_setup_confined [OF mem_mon.monitoring_api_axioms run] run show ?thesis by blast
qed

end
