(* ===== verification/Operator_Run.thy ===== *)
theory Operator_Run
  imports Operator_Properties
begin

text \<open>
  The start of the operator, \<open>RunOperator\<close> in \<open>src/cmd/manager/operator.go\<close>, with the registration of the metrics, \<open>Register\<close> in
  \<open>src/pkg/controller/metrics/metrics.go\<close>. The manager of the controller runtime, its clients and the Prometheus registry are
  not code of this repository: whether each call to them fails is given by \<open>external\<close>, and what was asked of them with success is recorded in
  \<open>actions\<close>, in order. The number a run ends with is the exit code of the process, 2 for a panic of Go (\<open>NewForConfigOrDie\<close>; \<open>ctrl.GetConfigOrDie\<close> exits with 1). The third
  \<open>NewForConfigOrDie\<close>, of the discovery client in \<open>createServiceMonitor\<close>, gets the same configuration as the first two and is not made to fail on its own. Logging, the flags and the options of the manager are left out.
\<close>

section \<open>The metrics\<close>

definition metricNamespace :: string where "metricNamespace = ''file_integrity_operator''"

definition metricNames :: "string list" where
  "metricNames = [''phase_total'', ''error_total'', ''pause_total'', ''unpause_total'', ''reinit_total'', ''node_status_total'', ''node_status_error_total'',
     ''daemonset_update_total'', ''reinit_daemonset_update_total'', ''node_failed'']"

text \<open>The name under which a collector is known: \<open>prometheus.BuildFQName\<close> of the namespace and the name.\<close>

definition fullName :: "string \<Rightarrow> string" where "fullName name = metricNamespace @ ''_'' @ name"

section \<open>The start\<close>

datatype controller = FileIntegrityController | NodeController | StatusController | ConfigmapController

datatype action = ManagerCreated | Registered string | HealthzAdded | ReadyzAdded | Added controller | MetricsAdded | ManagerStarted

record operator =
  cluster_of :: cluster
  actions :: "action list"

record external =
  xGetConfig :: "error option"
  xClients :: "error option"
  xGetConfigOrDie :: "error option"
  xNewManager :: "error option"
  xRegister :: "string \<Rightarrow> error option"
  xHealthz :: "error option"
  xReadyz :: "error option"
  xController :: "controller \<Rightarrow> error option"
  xAddMetrics :: "error option"
  xStart :: "error option"

type_synonym 'a op = "(operator, 'a) state"

definition call :: "error option \<Rightarrow> action \<Rightarrow> error option op" where
  "call outcome a = (case outcome of Some e \<Rightarrow> State_Monad.return (Some e)
     | None \<Rightarrow> do { State_Monad.update (\<lambda>s. s\<lparr>actions := actions s @ [a]\<rparr>); State_Monad.return None })"

text \<open>An error is logged and the process exits with code 1.\<close>

definition exit1 :: "error option op \<Rightarrow> (int + 'a) op \<Rightarrow> (int + 'a) op" where
  "exit1 m k = do { err \<leftarrow> m; case err of Some _ \<Rightarrow> throw 1 | None \<Rightarrow> k }"

definition on_cluster :: "(cluster, 'a) state \<Rightarrow> 'a op" where
  "on_cluster m = do {
     s \<leftarrow> State_Monad.get;
     (let (r, c) = run_state m (cluster_of s) in do { State_Monad.set (s\<lparr>cluster_of := c\<rparr>); State_Monad.return r }) }"

text \<open>\<open>order\<close> is the order in which Go ranges over the map of collectors.\<close>

fun Register :: "external \<Rightarrow> string list \<Rightarrow> error option op" where
  "Register x [] = State_Monad.return None"
| "Register x (name # order) = do {
     err \<leftarrow> call (xRegister x (fullName name)) (Registered (fullName name));
     case err of Some e \<Rightarrow> State_Monad.return (Some (Wrapped (''register collector for '' @ name @ '' metric'') e)) | None \<Rightarrow> Register x order }"

definition RunOperator :: "external \<Rightarrow> clientset \<Rightarrow> (nat \<Rightarrow> bool) \<Rightarrow> error + (string \<times> string list) list \<Rightarrow> string list \<Rightarrow> (string \<rightharpoonup> string) \<Rightarrow> SAFile
    \<Rightarrow> (int + unit) op" where
  "RunOperator x cs stop discovered order lookupEnv sa =
     (case GetWatchNamespace lookupEnv sa of Inl _ \<Rightarrow> throw 1
      | Inr namespace \<Rightarrow>
          exit1 (State_Monad.return (xGetConfig x)) (
          (case xClients x of Some _ \<Rightarrow> throw 2
           | None \<Rightarrow>
               exit1 (State_Monad.return (xGetConfigOrDie x)) (
               exit1 (call (xNewManager x) ManagerCreated) (
               exit1 (Register x order) (
               exit1 (call (xHealthz x) HealthzAdded) (
               exit1 (call (xReadyz x) ReadyzAdded) (
               exit1 (call (xController x FileIntegrityController) (Added FileIntegrityController)) (
               exit1 (call (xController x NodeController) (Added NodeController)) (
               exit1 (call (xController x StatusController) (Added StatusController)) (
               exit1 (call (xController x ConfigmapController) (Added ConfigmapController)) (
               exit1 (call (xAddMetrics x) MetricsAdded) (do {
                 r \<leftarrow> on_cluster (setupMonitoring cs stop discovered namespace);
                 case r of Inl _ \<Rightarrow> throw 1
                 | Inr _ \<Rightarrow> do {
                     State_Monad.update (\<lambda>s. s\<lparr>actions := actions s @ [ManagerStarted]\<rparr>);
                     exit1 (State_Monad.return (xStart x)) (ok ()) } })))))))))))))"

section \<open>What a started operator has\<close>

lemma wp_call [wp_simps]: "wp (call oc a) Q s = (case oc of Some e \<Rightarrow> Q (Some e) s | None \<Rightarrow> Q None (s\<lparr>actions := actions s @ [a]\<rparr>))"
  by (simp add: call_def wp_simps split: option.splits)

lemma wp_exit1 [wp_simps]: "wp (exit1 m k) Q s = wp m (\<lambda>r s'. case r of Some _ \<Rightarrow> Q (Inl 1) s' | None \<Rightarrow> wp k Q s') s"
  by (simp add: exit1_def wp_def throw_def split: prod.splits option.splits)

lemma wp_on_cluster [wp_simps]: "wp (on_cluster m) Q s = wp m (\<lambda>r c. Q r (s\<lparr>cluster_of := c\<rparr>)) (cluster_of s)"
  by (simp add: on_cluster_def wp_def split: prod.splits)

lemma wp_Register: "wp (Register x order) (\<lambda>r s'. (r = None \<longrightarrow> s' = s\<lparr>actions := actions s @ map (Registered \<circ> fullName) order\<rparr>) \<and>
    cluster_of s' = cluster_of s \<and> (ManagerStarted \<in> set (actions s') \<longrightarrow> ManagerStarted \<in> set (actions s))) s"
proof (induction order arbitrary: s)
  case (Cons name order)
  show ?case
  proof (cases "xRegister x (fullName name)")
    case None
    then show ?thesis by (auto simp: wp_simps intro!: wp_conseq [OF Cons])
  qed (simp add: wp_simps)
qed (simp add: wp_simps)

lemma wp_exit1_return:
  assumes "oc \<noteq> None \<Longrightarrow> Q (Inl 1) s" and "oc = None \<Longrightarrow> wp k Q s"
  shows "wp (exit1 (State_Monad.return oc) k) Q s"
  using assms by (auto simp: wp_exit1 wp_return split: option.splits)

lemma wp_or_panic:
  assumes "oc \<noteq> None \<Longrightarrow> Q (Inl 2) s" and "oc = None \<Longrightarrow> wp k Q s"
  shows "wp (case oc of Some _ \<Rightarrow> throw 2 | None \<Rightarrow> k) Q s"
  using assms by (auto simp: wp_simps split: option.splits)

lemma wp_exit1_call:
  assumes "oc \<noteq> None \<Longrightarrow> Q (Inl 1) s" and "oc = None \<Longrightarrow> wp k Q (s\<lparr>actions := actions s @ [a]\<rparr>)"
  shows "wp (exit1 (call oc a) k) Q s"
  using assms by (auto simp: wp_exit1 wp_call split: option.splits)

lemma wp_exit1_Register:
  assumes "\<And>s'. (ManagerStarted \<in> set (actions s') \<longrightarrow> ManagerStarted \<in> set (actions s)) \<Longrightarrow> Q (Inl 1) s'"
    and "wp k Q (s\<lparr>actions := actions s @ map (Registered \<circ> fullName) order\<rparr>)"
  shows "wp (exit1 (Register x order) k) Q s"
  unfolding wp_exit1 by (rule wp_conseq [OF wp_Register]) (use assms in \<open>auto split: option.splits\<close>)

definition start_actions :: "string list \<Rightarrow> action list" where
  "start_actions order = ManagerCreated # map (Registered \<circ> fullName) order @ [HealthzAdded, ReadyzAdded, Added FileIntegrityController, Added NodeController,
     Added StatusController, Added ConfigmapController, MetricsAdded, ManagerStarted]"

lemma started_in [simp]: "ManagerStarted \<in> set (start_actions order)"
  by (simp add: start_actions_def)

context monitoring_api
begin

lemma wp_RunOperator:
  assumes "ManagerStarted \<notin> set (actions s)"
  shows "wp (RunOperator x cs stop discovered order lookupEnv sa) (\<lambda>r s'.
     if ManagerStarted \<in> set (actions s') then actions s' = actions s @ start_actions order \<and>
       (\<exists>ns. GetWatchNamespace lookupEnv sa = Inr ns \<and> set_up ns discovered (cluster_of s) (cluster_of s')) \<and> (r = Inr () \<longleftrightarrow> xStart x = None)
     else \<exists>code. r = Inl code \<and> code \<noteq> 0) s"
proof (cases "GetWatchNamespace lookupEnv sa")
  case (Inr ns)
  let ?Q = "\<lambda>r s'. if ManagerStarted \<in> set (actions s') then actions s' = actions s @ start_actions order \<and>
       (\<exists>ns. GetWatchNamespace lookupEnv sa = Inr ns \<and> set_up ns discovered (cluster_of s) (cluster_of s')) \<and> (r = Inr () \<longleftrightarrow> xStart x = None)
     else \<exists>code. r = Inl code \<and> code \<noteq> (0::int)"
  have monitor: "wp (do { r \<leftarrow> on_cluster (setupMonitoring cs stop discovered ns);
       case r of Inl _ \<Rightarrow> throw 1 | Inr _ \<Rightarrow> do { State_Monad.update (\<lambda>s. s\<lparr>actions := actions s @ [ManagerStarted]\<rparr>);
         exit1 (State_Monad.return (xStart x)) (ok ()) } }) ?Q t"
    if "actions t @ [ManagerStarted] = actions s @ start_actions order" "cluster_of t = cluster_of s" for t
  proof -
    have no: "ManagerStarted \<notin> set (actions t)"
    proof -
      from that(1) have "actions t = actions s @ butlast (start_actions order)"
        by (metis butlast_append butlast_snoc start_actions_def list.distinct(1))
      with assms show ?thesis by (auto simp: start_actions_def butlast_append)
    qed
    show ?thesis unfolding wp_bind wp_on_cluster that(2)
      by (rule wp_conseq [OF wp_setup])
        (use that no Inr in \<open>auto simp: wp_simps split: sum.splits option.splits\<close>)
  qed
  show ?thesis unfolding RunOperator_def Inr sum.case
    by (intro wp_exit1_return wp_exit1_call wp_exit1_Register wp_or_panic monitor [unfolded Inr]) (use assms in \<open>auto simp: start_actions_def\<close>)
qed (use assms in \<open>simp add: RunOperator_def wp_simps\<close>)

end

text \<open>The alert watches a metric that the operator registers.\<close>

lemma alert_watches_node_failed:
  "\<exists>g \<in> set (prGroups (defaultPrometheusRule n ns)). \<exists>rule \<in> set (rgRules g). HasPrefix (rExpr rule) (fullName ''node_failed'')"
  by (simp add: defaultPrometheusRule_def fullName_def metricNamespace_def)

text \<open>
  C28. The manager, and with it the controllers, is started only when everything is in place: the manager has all four controllers, the
  metrics server and both checks, every collector is registered, whatever order Go ranges over them, the watch namespace has the metrics service, both secrets and the
  alert, whose expression is about the registered gauge of failed nodes. Nothing is done after the start. In every other case the process ends with a code that is not 0, and
  once started it ends well exactly when the manager does.
\<close>

theorem operator_starts_complete:
  assumes "monitoring_api cs" and "set order = set metricNames" and "actions s = []"
    and "run_state (RunOperator x cs stop discovered order lookupEnv sa) s = (r, s')"
  shows "if ManagerStarted \<in> set (actions s') then
       last (actions s') = ManagerStarted \<and> (\<forall>c. Added c \<in> set (actions s')) \<and> {ManagerCreated, HealthzAdded, ReadyzAdded, MetricsAdded} \<subseteq> set (actions s') \<and>
       (\<forall>name \<in> set metricNames. Registered (fullName name) \<in> set (actions s')) \<and>
       (\<exists>ns pr. GetWatchNamespace lookupEnv sa = Inr ns \<and> lookup (Services (cluster_of s')) (ns, ''metrics'') \<noteq> None \<and>
          lookup (Secrets (cluster_of s')) (ns, servingCert) \<noteq> None \<and> lookup (Secrets (cluster_of s')) (ns, operatorMetricsSecretName) \<noteq> None \<and>
          lookup (PrometheusRules (cluster_of s')) (ns, ''file-integrity'') = Some pr \<and>
          (\<exists>g \<in> set (prGroups pr). \<exists>rule \<in> set (rgRules g). HasPrefix (rExpr rule) (fullName ''node_failed''))) \<and>
       (r = Inr () \<longleftrightarrow> xStart x = None)
     else \<exists>code. r = Inl code \<and> code \<noteq> 0"
proof -
  have out: "if ManagerStarted \<in> set (actions s') then actions s' = start_actions order \<and>
       (\<exists>ns. GetWatchNamespace lookupEnv sa = Inr ns \<and> set_up ns discovered (cluster_of s) (cluster_of s')) \<and> (r = Inr () \<longleftrightarrow> xStart x = None)
     else \<exists>code. r = Inl code \<and> code \<noteq> 0"
    using wp_run [OF monitoring_api.wp_RunOperator [OF assms(1)] assms(4)] by (simp add: assms(3) split: if_splits)
  show ?thesis
  proof (cases "ManagerStarted \<in> set (actions s')")
    case True
    with out have acts: "actions s' = start_actions order" and started: "r = Inr () \<longleftrightarrow> xStart x = None" by simp_all
    from True out obtain ns where ns: "GetWatchNamespace lookupEnv sa = Inr ns" "set_up ns discovered (cluster_of s) (cluster_of s')" by auto
    have "Added c \<in> set (start_actions order)" for c by (cases c) (simp_all add: start_actions_def)
    moreover from ns(2) obtain pr where "lookup (PrometheusRules (cluster_of s')) (ns, ''file-integrity'') = Some pr"
      "prGroups pr = prGroups (defaultPrometheusRule ''file-integrity'' ns)" "lookup (Services (cluster_of s')) (ns, ''metrics'') \<noteq> None"
      "secrets_there ns (cluster_of s')"
      unfolding set_up_def metricsServiceName_def defaultPrometheusAlertName_def by blast
    ultimately show ?thesis using True ns(1) started alert_watches_node_failed [of "''file-integrity''" ns] assms(2)
      by (auto simp: acts secrets_there_def) (auto simp: start_actions_def)
  qed (use out in simp)
qed

definition all_well :: external where
  "all_well = \<lparr>xGetConfig = None, xClients = None, xGetConfigOrDie = None, xNewManager = None, xRegister = (\<lambda>_. None), xHealthz = None, xReadyz = None,
     xController = (\<lambda>_. None), xAddMetrics = None, xStart = None\<rparr>"

lemma run_exit1: "run_state (exit1 m k) s = (case run_state m s of (r, s') \<Rightarrow> case r of Some _ \<Rightarrow> (Inl 1, s') | None \<Rightarrow> run_state k s')"
  by (simp add: exit1_def throw_def split: prod.splits option.splits)

lemma run_call: "run_state (call None a) s = (None, s\<lparr>actions := actions s @ [a]\<rparr>)"
  by (simp add: call_def State_Monad.update_def)

lemma all_well_run:
  "\<exists>s'. run_state (RunOperator all_well (mem_clientset no_faults) (\<lambda>_. False) sample_kinds metricNames [''WATCH_NAMESPACE'' \<mapsto> ''ns''] SANotExist)
     \<lparr>cluster_of = sample_cluster, actions = []\<rparr> = (Inr (), s') \<and> ManagerStarted \<in> set (actions s')"
proof -
  obtain w' where mon: "run_state (setupMonitoring (mem_clientset no_faults) (\<lambda>_. False) sample_kinds ''ns'') sample_cluster = (Inr (), w')"
    using sample_setup_run by blast
  have reg: "run_state (Register all_well l) s = (None, s\<lparr>actions := actions s @ map (Registered \<circ> fullName) l\<rparr>)" for l s
    by (induction l arbitrary: s) (simp_all add: call_def all_well_def State_Monad.update_def)
  show ?thesis
    by (simp add: RunOperator_def GetWatchNamespace_def all_well_def run_exit1 run_call reg [unfolded all_well_def] on_cluster_def mon ok_def State_Monad.update_def)
qed

theorem operator_starts_complete_witness:
  "\<exists>s'. run_state (RunOperator all_well (mem_clientset no_faults) (\<lambda>_. False) sample_kinds metricNames [''WATCH_NAMESPACE'' \<mapsto> ''ns''] SANotExist)
     \<lparr>cluster_of = sample_cluster, actions = []\<rparr> = (Inr (), s') \<and> last (actions s') = ManagerStarted \<and> Added NodeController \<in> set (actions s')"
proof -
  obtain s' where run: "run_state (RunOperator all_well (mem_clientset no_faults) (\<lambda>_. False) sample_kinds metricNames [''WATCH_NAMESPACE'' \<mapsto> ''ns''] SANotExist)
     \<lparr>cluster_of = sample_cluster, actions = []\<rparr> = (Inr (), s')" "ManagerStarted \<in> set (actions s')" using all_well_run by blast
  from operator_starts_complete [OF mem_mon.monitoring_api_axioms refl _ run(1)] run show ?thesis by auto
qed

end
