(* ===== verification/Watches.thy ===== *)
theory Watches
  imports System Operator_Run
begin

text \<open>
  Which changes of the cluster make which controller work: the watches that \<open>AddFileIntegrityController\<close>, \<open>AddConfigmapController\<close>, \<open>AddNodeController\<close> and
  \<open>AddStatusController\<close> register with the manager (in the four controller files of \<open>src/pkg/controller\<close>), and the requests the manager derives from a change of an object.
  The handlers of the manager are those of \<open>src/vendor/sigs.k8s.io/controller-runtime/pkg/handler\<close>; all kinds are taken to be known to its REST mapper.
\<close>

section \<open>Watches\<close>

datatype resource = FileIntegrityKind | ConfigMapKind | NodeKind | NodeStatusKind | DaemonSetKind | PodKind

text \<open>The arguments of \<open>For\<close>, of \<open>Owns\<close> and of \<open>Watches\<close> with the config map mapper.\<close>

record watches =
  For :: resource
  Owns :: "resource list"
  Mapped :: "resource list"

definition addFileIntegrityController :: watches where
  "addFileIntegrityController = \<lparr>For = FileIntegrityKind, Owns = [], Mapped = [ConfigMapKind]\<rparr>"

definition addConfigmapController :: watches where
  "addConfigmapController = \<lparr>For = ConfigMapKind, Owns = [PodKind], Mapped = []\<rparr>"

definition addNodeControllerReconciler :: watches where
  "addNodeControllerReconciler = \<lparr>For = NodeKind, Owns = [PodKind], Mapped = []\<rparr>"

definition AddStatusController :: watches where
  "AddStatusController = \<lparr>For = FileIntegrityKind, Owns = [NodeStatusKind, ConfigMapKind, DaemonSetKind], Mapped = []\<rparr>"

fun watches_of :: "controller \<Rightarrow> watches" where
  "watches_of FileIntegrityController = addFileIntegrityController"
| "watches_of NodeController = addNodeControllerReconciler"
| "watches_of StatusController = AddStatusController"
| "watches_of ConfigmapController = addConfigmapController"

section \<open>Requests\<close>

datatype change = Created ObjectMeta | Updated ObjectMeta ObjectMeta | Deleted ObjectMeta

fun subjects :: "change \<Rightarrow> ObjectMeta list" where
  "subjects (Created obj) = [obj]"
| "subjects (Updated old new) = [old, new]"
| "subjects (Deleted obj) = [obj]"

text \<open>Group, kind and whether objects of the kind live in a namespace.\<close>

fun kind_of :: "resource \<Rightarrow> string \<times> string \<times> bool" where
  "kind_of FileIntegrityKind = (''fileintegrity.openshift.io'', ''FileIntegrity'', True)"
| "kind_of ConfigMapKind = ('''', ''ConfigMap'', True)"
| "kind_of NodeKind = ('''', ''Node'', False)"
| "kind_of NodeStatusKind = (''fileintegrity.openshift.io'', ''FileIntegrityNodeStatus'', True)"
| "kind_of DaemonSetKind = (''apps'', ''DaemonSet'', True)"
| "kind_of PodKind = ('''', ''Pod'', True)"

text \<open>\<open>schema.ParseGroupVersion\<close>, the group only.\<close>

definition ParseGroup :: "string \<Rightarrow> string option" where
  "ParseGroup gv = (case Split (CHR ''/'') gv of [_] \<Rightarrow> Some '''' | [g, _] \<Rightarrow> Some g | _ \<Rightarrow> None)"

definition EnqueueRequestForObject :: "change \<Rightarrow> NamespacedName list" where
  "EnqueueRequestForObject ch = [nsname (last (subjects ch))]"

definition getOwnerReconcileRequest :: "resource \<Rightarrow> ObjectMeta \<Rightarrow> NamespacedName list" where
  "getOwnerReconcileRequest ownerType obj = (case GetControllerOf obj of None \<Rightarrow> []
     | Some ref \<Rightarrow> (let (group, kind, namespaced) = kind_of ownerType in
         if orKind ref = kind \<and> ParseGroup (orAPIVersion ref) = Some group
         then [(if namespaced then Namespace obj else '''', orName ref)] else []))"

fun mapRequests :: "client \<Rightarrow> ObjectMeta list \<Rightarrow> NamespacedName list io" where
  "mapRequests cl [] = State_Monad.return []"
| "mapRequests cl (obj # rest) = do {
     rs \<leftarrow> fileIntegrityMapper_Map cl obj;
     more \<leftarrow> mapRequests cl rest;
     State_Monad.return (rs @ more) }"

text \<open>The requests a controller gets for a change of an object of a kind.\<close>

definition requests :: "client \<Rightarrow> controller \<Rightarrow> resource \<Rightarrow> change \<Rightarrow> NamespacedName list io" where
  "requests cl c kind ch =
     (let ws = watches_of c;
          own = (if kind = For ws then EnqueueRequestForObject ch else []);
          owner = (if kind \<in> set (Owns ws) then concat (map (getOwnerReconcileRequest (For ws)) (subjects ch)) else [])
      in do {
        mapped \<leftarrow> (if kind \<in> set (Mapped ws) then mapRequests cl (subjects ch) else State_Monad.return []);
        State_Monad.return (own @ owner @ mapped) })"

abbreviation meta :: "('z) ObjectMeta_scheme \<Rightarrow> ObjectMeta" where
  "meta obj \<equiv> ObjectMeta.truncate obj"

lemma meta_sel [simp]:
  "nsname (meta obj) = nsname obj" "GetControllerOf (meta obj) = GetControllerOf obj" "Namespace (meta obj) = Namespace obj" "Name (meta obj) = Name obj"
  by (simp_all add: ObjectMeta.truncate_def nsname_def GetControllerOf_def)

lemma ParseGroup_fi: "ParseGroup (orAPIVersion (fi_owner fi)) = Some ''fileintegrity.openshift.io''"
  by (simp add: ParseGroup_def fi_owner_def)

lemma owner_request:
  "GetControllerOf obj = Some (fi_owner fi) \<Longrightarrow> getOwnerReconcileRequest FileIntegrityKind (meta obj) = [(Namespace obj, Name fi)]"
  by (simp add: getOwnerReconcileRequest_def ParseGroup_fi) (simp add: fi_owner_def)

text \<open>A change of an object that a FileIntegrity controls is a request to the status controller.\<close>

lemma owned_change:
  assumes "kind \<in> {NodeStatusKind, DaemonSetKind}" and "GetControllerOf obj = Some (fi_owner fi)" and "meta obj \<in> set (subjects ch)"
  shows "(Namespace obj, Name fi) \<in> set (fst (run_state (requests cl StatusController kind ch) w))"
  using assms owner_request [OF assms(2)] by (auto simp: requests_def AddStatusController_def intro!: bexI [of _ "meta obj"])

section \<open>Nothing that the phase depends on changes unseen\<close>

text \<open>
  C22. In every reachable state each node status is labelled with the FileIntegrity that controls it, so a change of the status, its creation and its deletion included, is a request
  to the status controller for exactly the FileIntegrity in whose phase the status counts.
\<close>

theorem status_changes_are_seen:
  assumes "reachable_world env w" and "lookup (NodeStatuses w) k = Some ns" and "meta ns \<in> set (subjects ch)"
  shows "\<exists>n. mget (Labels ns) IntegrityOwnerLabelKey = Some n \<and>
     (Namespace ns, n) \<in> set (fst (run_state (requests cl StatusController NodeStatusKind ch) w'))"
proof -
  from reachable_inv [OF assms(1)] have "status_owned ns" using assms(2) by (cases k) (simp add: sys_inv_def sound_def)
  then obtain fi where "GetControllerOf ns = Some (fi_owner fi)" "mget (Labels ns) IntegrityOwnerLabelKey = Some (Name fi)"
    by (auto simp: status_owned_def)
  with owned_change [OF _ this(1) assms(3)] show ?thesis by simp
qed

theorem status_changes_are_seen_witness:
  "\<exists>w ns n. reachable_world sample_env w \<and> lookup (NodeStatuses w) (''ns'', ''f-n1'') = Some ns \<and> mget (Labels ns) IntegrityOwnerLabelKey = Some n \<and>
     (Namespace ns, n) \<in> set (fst (run_state (requests (mem_client no_faults) StatusController NodeStatusKind (Created (meta ns))) w))"
proof -
  obtain w ns where run: "run_state (perform (mem_client no_faults) sample_env (ReconcileConfigMap (''ns'', ''aide-f-n1'')))
      (sample_world\<lparr>ConfigMaps := [sample_report]\<rparr>) = (Inr Done, w)" and ns: "lookup (NodeStatuses w) (''ns'', ''f-n1'') = Some ns"
    using sample_report_handled by (auto simp: reconcile_methods)
  have reach: "reachable_world sample_env w"
    by (rule reachable_world.step [OF sample_reachable sys_step.controller [OF mem.kube_api_axioms run]])
  from status_changes_are_seen [OF reach ns, of "Created (meta ns)"] reach ns show ?thesis by auto
qed

section \<open>A deleted daemon set comes back\<close>

lemma aideDaemonset_phase: "aideDaemonset env n (fi\<lparr>Phase := p\<rparr>) img = aideDaemonset env n fi img"
  by (simp add: aideDaemonset_def daemon_container_def daemonArgs_def getGracePeriod_def getDebug_def getMaxBackups_def Let_def)

text \<open>
  C10. Nobody tells the FileIntegrity controller that the daemon set of a FileIntegrity was deleted, and yet it comes back, over two controllers. The deletion
  is a request to the status controller; its reconcile turns the phase to Pending; this change of the FileIntegrity is a request to the FileIntegrity controller; and once
  its reconcile is done, the daemon set is there again as the FileIntegrity asks.
\<close>

theorem deleted_daemonset_returns:
  assumes "kube_api cl" and "reachable_world env w" and "lookup (FileIntegrities w) k = Some fi" and "plain env fi"
    and "Namespace fi = FileIntegrityNamespace env" and "nsname ds = ds_key env fi" and "GetControllerOf ds = Some (fi_owner fi)"
    and "lookup (DaemonSets w) (ds_key env fi) = None"
    and "\<forall>d. lookup (DaemonSets w) (nsname d) = Some d \<longrightarrow> mget (Labels d) IntegrityReinitOwnerLabelKey \<noteq> Some (Name fi)"
    and "Phase fi \<noteq> PhasePending"
    and "run_state (StatusReconcile cl env k) w = (Inr res, w1)"
    and "run_state (FileIntegrityControllerReconcile cl env now k) w1 = (Inr Done, w2)"
  shows "k \<in> set (fst (run_state (requests cl StatusController DaemonSetKind (Deleted (meta ds))) w)) \<and>
     (\<exists>fi'. lookup (FileIntegrities w1) k = Some fi' \<and> Phase fi' = PhasePending \<and> fi' \<noteq> fi \<and>
        k \<in> set (fst (run_state (requests cl FileIntegrityController FileIntegrityKind (Updated (meta fi) (meta fi'))) w1))) \<and>
     rendered env fi (operator_image env w) w2"
proof -
  let ?fi = "fi\<lparr>Phase := PhasePending\<rparr>"
  have k: "nsname fi = k" using assms(3) by (rule lookup_nsname)
  have none: "visible (DaemonSets w) \<lparr>loNamespace = '''', loSelector = Some [IntegrityReinitOwnerLabelKey \<mapsto> Name fi]\<rparr> = []"
    using assms(9) by (auto simp: visible_def filter_empty_conv listed_def selector_matches_single)
  then have phase: "phase_of env w fi = PhasePending" using assms(8) by (simp add: phase_of_def)
  from wp_run [OF kube_api.wp_StatusReconcile [OF assms(1)] assms(11)] assms(3) have
    rep: "reported env fi w w1" and only: "only_status fi w w1" by (simp_all add: status_outcome_def)
  from rep have fi1: "lookup (FileIntegrities w1) k = Some ?fi" by (simp add: reported_def Let_def phase k)
  from only obtain x1 x2 x3 x4 where "w1 = w\<lparr>FileIntegrities := x1, NodeStatuses := x2, metrics := x3, events := x4\<rparr>"
    unfolding only_status_def by blast
  then have same: "DaemonSets w1 = DaemonSets w" "operator_image env w1 = operator_image env w" by (simp_all add: operator_image_def)
  have "\<forall>k ds. lookup (DaemonSets w1) k = Some ds \<longrightarrow> has_container ds"
    using reachable_inv [OF assms(2)] same(1) by (simp add: sys_inv_def sound_def)
  from wp_run [OF kube_api.wp_FileIntegrityControllerReconcile [OF assms(1) this] assms(12)] fi1
  have "reconciled env now ?fi w1 (Inr Done) w2" by simp
  moreover have "plain env ?fi" using assms(4) by (simp add: plain_def operator_cms_def)
  ultimately have "rendered env ?fi (operator_image env w) w2" by (simp add: reconciled_def converged_def same(2))
  then have "rendered env fi (operator_image env w) w2" by (simp add: rendered_def aideDaemonset_phase)
  moreover have "(Namespace ds, Name fi) = k" using assms(5,6) k by (simp add: nsname_def)
  then have "k \<in> set (fst (run_state (requests cl StatusController DaemonSetKind (Deleted (meta ds))) w))"
    using owned_change [of DaemonSetKind ds fi "Deleted (meta ds)"] assms(7) by simp
  moreover have "nsname ?fi = k" using k by (simp add: nsname_def)
  then have "k \<in> set (fst (run_state (requests cl FileIntegrityController FileIntegrityKind (Updated (meta fi) (meta ?fi))) w1))"
    by (simp add: requests_def addFileIntegrityController_def EnqueueRequestForObject_def)
  moreover have "?fi \<noteq> fi" using assms(10) by (metis FileIntegrity.select_convs(2) FileIntegrity.surjective FileIntegrity.update_convs(2))
  ultimately show ?thesis using fi1 by auto
qed

definition bare_fi :: FileIntegrity where
  "bare_fi = sample_fi\<lparr>Phase := PhaseActive\<rparr>"

definition bare_world :: world where
  "bare_world = sample_world\<lparr>FileIntegrities := [bare_fi]\<rparr>"

definition pending_world :: world where
  "pending_world = sample_world\<lparr>FileIntegrities := [bare_fi\<lparr>Phase := PhasePending\<rparr>], metrics := IncFileIntegrityPhasePending NewControllerMetrics,
     events := [\<lparr>evObject = ''f'', evType = EventTypeNormal, evReason = ''FileIntegrityStatus'', evMessage = ''Pending''\<rparr>]\<rparr>"

definition bare_ds :: DaemonSet where
  "bare_ds = (aideDaemonset sample_env (DaemonSetName ''f'') bare_fi ''img:1'')\<lparr>OwnerReferences := [fi_owner bare_fi]\<rparr>"

lemma bare_sel:
  "nsname bare_ds = ds_key sample_env bare_fi" "GetControllerOf bare_ds = Some (fi_owner bare_fi)" "nsname bare_fi = (''ns'', ''f'')"
  "Namespace bare_fi = FileIntegrityNamespace sample_env" "plain sample_env bare_fi" "Phase bare_fi \<noteq> PhasePending"
  using sample_plain by (simp_all add: bare_ds_def bare_fi_def GetControllerOf_def fi_owner_def plain_def operator_cms_def nsname_def aideDaemonset_def Let_def)

lemma bare_run:
  "run_state (StatusReconcile (mem_client no_faults) sample_env (''ns'', ''f'')) bare_world
     = (Inr \<lparr>Requeue = False, RequeueAfter = statusRequeue\<rparr>, pending_world)"
  by (simp add: StatusReconcile_def updateStatus_def countPhase_def bare_world_def bare_fi_def pending_world_def sample_world_def run_simps)

lemma pending_run:
  "\<exists>w2. run_state (FileIntegrityControllerReconcile (mem_client no_faults) sample_env 1 (''ns'', ''f'')) pending_world = (Inr Done, w2)"
  by (simp add: FileIntegrityControllerReconcile_def reconcilePriorityClass_def getOperatorDeploymentImage_def
      handleDefaultConfigMaps_def handleScriptConfigMap_def reconcileUserConfig_def aideConfigIsDefault_def
      configMapKeyDataMatches_def reconcileReinit_def no_reinit_request reconcileDaemonSet_def deleteLegacyDaemonSets_def
      delayTime_def int64_id pending_world_def bare_fi_def sample_world_def run_simps
      AideReinitScriptConfigMapName_def PauseConfigMapName_def)

theorem deleted_daemonset_returns_witness:
  "\<exists>w1 w2. (''ns'', ''f'') \<in> set (fst (run_state (requests (mem_client no_faults) StatusController DaemonSetKind (Deleted (meta bare_ds))) bare_world)) \<and>
     run_state (StatusReconcile (mem_client no_faults) sample_env (''ns'', ''f'')) bare_world = (Inr \<lparr>Requeue = False, RequeueAfter = statusRequeue\<rparr>, w1) \<and>
     run_state (FileIntegrityControllerReconcile (mem_client no_faults) sample_env 1 (''ns'', ''f'')) w1 = (Inr Done, w2) \<and>
     rendered sample_env bare_fi (operator_image sample_env bare_world) w2"
proof -
  obtain w2 where run: "run_state (FileIntegrityControllerReconcile (mem_client no_faults) sample_env 1 (''ns'', ''f'')) pending_world = (Inr Done, w2)"
    using pending_run by blast
  have reach: "reachable_world sample_env bare_world"
    by (rule reachable_world.installed) (simp_all add: bare_world_def sample_world_def admitted_def cluster_scoped_def)
  have st: "lookup (FileIntegrities bare_world) (''ns'', ''f'') = Some bare_fi" "lookup (DaemonSets bare_world) (ds_key sample_env bare_fi) = None"
    "\<forall>d. lookup (DaemonSets bare_world) (nsname d) = Some d \<longrightarrow> mget (Labels d) IntegrityReinitOwnerLabelKey \<noteq> Some (Name bare_fi)"
    using bare_sel(3) by (simp_all add: bare_world_def sample_world_def)
  from deleted_daemonset_returns [OF mem.kube_api_axioms reach st(1) bare_sel(5,4,1,2) st(2,3) bare_sel(6) bare_run run] bare_run run
  show ?thesis by blast
qed

end
