(* ===== verification/Daemon_Files.thy ===== *)
theory Daemon_Files
  imports Log_Collector "HOL-Library.AList" "HOL-Library.Multiset"
begin

text \<open>
  The daemon's files, \<open>src/cmd/manager/daemon_util.go\<close>, and the initialisation of the AIDE database,
  \<open>handleAIDEInit\<close> of \<open>src/cmd/manager/loops.go\<close>. A path is its directory and file name (\<open>path.Join\<close>
  and \<open>path.Clean\<close> only normalise the spelling). The operating system is a state: the files, the clock,
  the spelling of a time, which call fails on which file, and how far a failing copy gets; so every
  error branch of the source can be taken. Directories other than as obstacles, links and devices
  are not represented, nor are file modes.
\<close>

section \<open>The operating system\<close>

type_synonym fpath = "string \<times> string"

datatype oserror = ENOENT | EIO string

datatype fkind = Regular | Directory

record fentry =
  kind :: fkind
  content :: string
  modTime :: int

record OS =
  disk :: "(fpath \<times> fentry) list"
  clock :: int
  stamp :: "int \<Rightarrow> string"
  fault :: "string \<Rightarrow> fpath \<Rightarrow> string option"
  copied :: "fpath \<Rightarrow> nat"

abbreviation files :: "OS \<Rightarrow> fpath \<rightharpoonup> fentry" where "files s \<equiv> map_of (disk s)"

definition put_file :: "fpath \<Rightarrow> string \<Rightarrow> OS \<Rightarrow> OS" where
  "put_file p d s = s\<lparr>disk := AList.update p \<lparr>kind = Regular, content = d, modTime = clock s\<rparr> (disk s)\<rparr>"

definition drop_file :: "fpath \<Rightarrow> OS \<Rightarrow> OS" where
  "drop_file p s = s\<lparr>disk := AList.delete p (disk s)\<rparr>"

lemma files_put [simp]: "files (put_file p d s) = (files s)(p \<mapsto> \<lparr>kind = Regular, content = d, modTime = clock s\<rparr>)"
  by (simp add: put_file_def AList.update_conv')

lemma files_drop [simp]: "files (drop_file p s) = (files s)(p := None)"
  by (simp add: drop_file_def AList.delete_conv')

type_synonym 'a os = "(OS, 'a) state"

definition IsNotExist :: "oserror \<Rightarrow> bool" where "IsNotExist e \<longleftrightarrow> e = ENOENT"

definition failing :: "string \<Rightarrow> fpath \<Rightarrow> oserror option os" where
  "failing op p = do { s \<leftarrow> State_Monad.get; State_Monad.return (map_option EIO (fault s op p)) }"

definition Stat :: "fpath \<Rightarrow> (oserror + fentry) os" where
  "Stat p = do {
     s \<leftarrow> State_Monad.get;
     State_Monad.return (case fault s ''stat'' p of Some e \<Rightarrow> Inl (EIO e)
       | None \<Rightarrow> (case files s p of None \<Rightarrow> Inl ENOENT | Some f \<Rightarrow> Inr f)) }"

definition Remove :: "fpath \<Rightarrow> oserror option os" where
  "Remove p = do {
     s \<leftarrow> State_Monad.get;
     case fault s ''remove'' p of Some e \<Rightarrow> State_Monad.return (Some (EIO e))
     | None \<Rightarrow> if files s p = None then State_Monad.return (Some ENOENT)
         else do { State_Monad.set (drop_file p s); State_Monad.return None } }"

text \<open>\<open>os.OpenFile\<close> for writing creates or truncates.\<close>

definition OpenTruncate :: "fpath \<Rightarrow> oserror option os" where
  "OpenTruncate p = do {
     s \<leftarrow> State_Monad.get;
     case fault s ''open-write'' p of Some e \<Rightarrow> State_Monad.return (Some (EIO e))
     | None \<Rightarrow> if map_option kind (files s p) = Some Directory then State_Monad.return (Some (EIO ''is a directory''))
         else do { State_Monad.set (put_file p [] s); State_Monad.return None } }"

text \<open>\<open>io.Copy\<close> of the content read from the source; a failing copy has written a part of it.\<close>

definition CopyTo :: "fpath \<Rightarrow> string \<Rightarrow> oserror option os" where
  "CopyTo p data = do {
     s \<leftarrow> State_Monad.get;
     case fault s ''copy'' p of
       Some e \<Rightarrow> do { State_Monad.set (put_file p (take (copied s p) data) s); State_Monad.return (Some (EIO e)) }
     | None \<Rightarrow> do { State_Monad.set (put_file p data s); State_Monad.return None } }"

section \<open>Paths\<close>

definition aideReadDBPath :: "daemonConfig \<Rightarrow> fpath" where "aideReadDBPath c = (FileDir c, ''aide.db.gz'')"
definition aideWriteDBPath :: "daemonConfig \<Rightarrow> fpath" where "aideWriteDBPath c = (FileDir c, ''aide.db.gz.new'')"
definition aideReadLogPath :: "daemonConfig \<Rightarrow> fpath" where "aideReadLogPath c = (FileDir c, ''aide.log'')"
definition aideWriteLogPath :: "daemonConfig \<Rightarrow> fpath" where "aideWriteLogPath c = (FileDir c, ''aide.log.new'')"
definition aideReinitPath :: "daemonConfig \<Rightarrow> fpath" where "aideReinitPath c = (RunDir c, ''aide.reinit'')"
definition legacyAideReinitPath :: "daemonConfig \<Rightarrow> fpath" where "legacyAideReinitPath c = (FileDir c, ''aide.reinit'')"
definition aideConfigPath :: "daemonConfig \<Rightarrow> fpath" where "aideConfigPath c = (ConfigDir c, ''aide.conf'')"

lemmas path_defs = aideReadDBPath_def aideWriteDBPath_def aideReadLogPath_def aideWriteLogPath_def
  aideReinitPath_def legacyAideReinitPath_def aideConfigPath_def

section \<open>Copying and removing\<close>

definition removeFileIfExists :: "fpath \<Rightarrow> oserror option os" where
  "removeFileIfExists p = do {
     r \<leftarrow> Stat p;
     case r of Inl e \<Rightarrow> if IsNotExist e then State_Monad.return None else State_Monad.return (Some e)
     | Inr _ \<Rightarrow> Remove p }"

definition removeAideReinitFileIfExists :: "daemonConfig \<Rightarrow> oserror option os" where
  "removeAideReinitFileIfExists c = do {
     err \<leftarrow> removeFileIfExists (legacyAideReinitPath c);
     case err of Some e \<Rightarrow> State_Monad.return (Some e) | None \<Rightarrow> removeFileIfExists (aideReinitPath c) }"

definition fileIsMissingOrEmpty :: "fpath \<Rightarrow> (oserror + bool) os" where
  "fileIsMissingOrEmpty p = do {
     r \<leftarrow> Stat p;
     State_Monad.return (case r of
         Inl e \<Rightarrow> if IsNotExist e then Inr True else Inl e
       | Inr f \<Rightarrow> Inr (length (content f) \<le> 0)) }"

text \<open>The first error of a sequence of calls, each run only after the one before succeeded.\<close>

definition andThen :: "oserror option os \<Rightarrow> oserror option os \<Rightarrow> oserror option os" where
  "andThen m k = do { err \<leftarrow> m; case err of Some e \<Rightarrow> State_Monad.return (Some e) | None \<Rightarrow> k }"

text \<open>
  On an error the files are closed and, when closing fails too, that error is returned; either way
  the result is an error.
\<close>

definition closing :: "oserror option os \<Rightarrow> oserror \<Rightarrow> oserror option os" where
  "closing close e = do { err \<leftarrow> close; State_Monad.return (Some (case err of Some e' \<Rightarrow> e' | None \<Rightarrow> e)) }"

definition copyNonEmptyFile :: "fpath \<Rightarrow> fpath \<Rightarrow> oserror option os" where
  "copyNonEmptyFile src dst = do {
     r \<leftarrow> Stat src;
     case r of Inl e \<Rightarrow> State_Monad.return (Some e)
     | Inr sourceFileStat \<Rightarrow>
         if kind sourceFileStat \<noteq> Regular then State_Monad.return (Some (EIO ''not a regular file''))
         else if length (content sourceFileStat) \<le> 0 then State_Monad.return (Some (EIO ''is empty''))
         else (let closeSrc = failing ''close'' src; closeBoth = andThen closeSrc (failing ''close'' dst) in
           andThen (failing ''open-read'' src) (do {
             openErr \<leftarrow> OpenTruncate dst;
             case openErr of Some e \<Rightarrow> closing closeSrc e
             | None \<Rightarrow> do {
                 copyErr \<leftarrow> CopyTo dst (content sourceFileStat);
                 case copyErr of Some e \<Rightarrow> closing closeBoth e
                 | None \<Rightarrow> do {
                     syncErr \<leftarrow> failing ''sync'' dst;
                     case syncErr of Some e \<Rightarrow> closing closeBoth e | None \<Rightarrow> closeBoth } } })) }"

definition updateAideLogFile :: "daemonConfig \<Rightarrow> oserror option os" where
  "updateAideLogFile c = copyNonEmptyFile (aideWriteLogPath c) (aideReadLogPath c)"

definition updateAideDBFiles :: "daemonConfig \<Rightarrow> oserror option os" where
  "updateAideDBFiles c = copyNonEmptyFile (aideWriteDBPath c) (aideReadDBPath c)"

definition updateAideLogFileIfPresent :: "daemonConfig \<Rightarrow> oserror option os" where
  "updateAideLogFileIfPresent c = do {
     r \<leftarrow> fileIsMissingOrEmpty (aideWriteLogPath c);
     case r of Inl e \<Rightarrow> State_Monad.return (Some e)
     | Inr missingOrEmpty \<Rightarrow> if missingOrEmpty then State_Monad.return None else updateAideLogFile c }"

section \<open>Backups\<close>

record backupEntry =
  beName :: string
  beModTime :: int

text \<open>
  The backups of a file in a directory. The order is that of the directory listing, which does not
  matter since they are sorted next; an entry whose information cannot be read is passed over.
\<close>

definition backup_prefix :: "string \<Rightarrow> string" where "backup_prefix fileName = fileName @ ''.backup-''"

definition is_backup :: "OS \<Rightarrow> string \<Rightarrow> string \<Rightarrow> string \<Rightarrow> bool" where
  "is_backup s dirPath fileName n \<longleftrightarrow> (case files s (dirPath, n) of None \<Rightarrow> False
     | Some f \<Rightarrow> kind f = Regular \<and> HasPrefix n (backup_prefix fileName) \<and> fault s ''info'' (dirPath, n) = None)"

definition backupsOf :: "OS \<Rightarrow> string \<Rightarrow> string \<Rightarrow> backupEntry list" where
  "backupsOf s dirPath fileName =
     map (\<lambda>n. \<lparr>beName = n, beModTime = (case files s (dirPath, n) of Some f \<Rightarrow> modTime f | None \<Rightarrow> 0)\<rparr>)
       (filter (is_backup s dirPath fileName) (remdups (map (snd \<circ> fst) (filter (\<lambda>e. fst (fst e) = dirPath) (disk s)))))"

text \<open>\<open>sort.Slice\<close> orders by the key and promises nothing about the order of equal keys.\<close>

locale slice_sort =
  fixes sorter :: "backupEntry list \<Rightarrow> backupEntry list"
  assumes perm: "mset (sorter es) = mset es"
    and ordered: "sorted (map beModTime (sorter es))"

interpretation stable_sort: slice_sort "sort_key beModTime"
  by unfold_locales simp_all

text \<open>Removing the given entries; an error is logged and the loop goes on.\<close>

fun removeLoop :: "string \<Rightarrow> backupEntry list \<Rightarrow> unit os" where
  "removeLoop dirPath [] = State_Monad.return ()"
| "removeLoop dirPath (b # bs) = do { _ \<leftarrow> Remove (dirPath, beName b); removeLoop dirPath bs }"

definition pruneBackupFiles :: "(backupEntry list \<Rightarrow> backupEntry list) \<Rightarrow> string \<Rightarrow> string \<Rightarrow> int \<Rightarrow> oserror option os" where
  "pruneBackupFiles sorter dirPath fileName mx = do {
     s \<leftarrow> State_Monad.get;
     case fault s ''readdir'' (dirPath, '''') of Some e \<Rightarrow> State_Monad.return (Some (EIO e))
     | None \<Rightarrow>
         (let backups = backupsOf s dirPath fileName in
          if int (length backups) \<le> mx then State_Monad.return None
          else do {
            removeLoop dirPath (take (nat (int (length backups) - mx)) (sorter backups));
            State_Monad.return None }) }"

definition backupFile :: "fpath \<Rightarrow> oserror option os" where
  "backupFile p = do {
     r \<leftarrow> fileIsMissingOrEmpty p;
     case r of Inl e \<Rightarrow> State_Monad.return (Some e)
     | Inr missingOrEmpty \<Rightarrow>
         if missingOrEmpty then State_Monad.return None
         else do {
           s \<leftarrow> State_Monad.get;
           copyNonEmptyFile p (fst p, backup_prefix (snd p) @ stamp s (clock s)) } }"

definition backupReadDB :: "(backupEntry list \<Rightarrow> backupEntry list) \<Rightarrow> daemonConfig \<Rightarrow> oserror option os" where
  "backupReadDB sorter c = andThen (backupFile (aideReadDBPath c)) (pruneBackupFiles sorter (FileDir c) ''aide.db.gz'' (dcMaxBackups c))"

definition backupReadLog :: "(backupEntry list \<Rightarrow> backupEntry list) \<Rightarrow> daemonConfig \<Rightarrow> oserror option os" where
  "backupReadLog sorter c = andThen (backupFile (aideReadLogPath c)) (pruneBackupFiles sorter (FileDir c) ''aide.log'' (dcMaxBackups c))"

definition backUpAideFiles :: "(backupEntry list \<Rightarrow> backupEntry list) \<Rightarrow> daemonConfig \<Rightarrow> oserror option os" where
  "backUpAideFiles sorter c = andThen (backupReadDB sorter c) (backupReadLog sorter c)"

section \<open>Initialisation\<close>

text \<open>
  AIDE itself is a program run by the daemon: \<open>aide k\<close> is its run when \<open>k\<close> retries are left, with what
  it does to the files and the way it ended. Only an I/O error is retried.
\<close>

definition runAideInitDBCmd :: "(nat \<Rightarrow> RunError option os) \<Rightarrow> (nat \<Rightarrow> bool) \<Rightarrow> FipsFile \<Rightarrow> RunError option os" where
  "runAideInitDBCmd aide stop fips = Retry stop maxRetries (\<lambda>k. do {
     err \<leftarrow> aide k;
     State_Monad.return (if GetAideExitCode fips err = AIDE_IO_ERROR then attempt_of err
       else case err of Some e \<Rightarrow> Permanent e | None \<Rightarrow> Finished) })"

datatype initError = FileErr oserror | AideErr RunError

definition fileStep :: "oserror option os \<Rightarrow> initError option os \<Rightarrow> initError option os" where
  "fileStep m k = do { err \<leftarrow> m; case err of Some e \<Rightarrow> State_Monad.return (Some (FileErr e)) | None \<Rightarrow> k }"

text \<open>The trigger is removed first, so that one that is placed meanwhile is not missed.\<close>

definition handleAIDEInit :: "(backupEntry list \<Rightarrow> backupEntry list) \<Rightarrow> (nat \<Rightarrow> RunError option os) \<Rightarrow> (nat \<Rightarrow> bool) \<Rightarrow> FipsFile
    \<Rightarrow> daemonConfig \<Rightarrow> initError option os" where
  "handleAIDEInit sorter aide stop fips conf =
     fileStep (removeAideReinitFileIfExists conf) (
     fileStep (backUpAideFiles sorter conf) (do {
       err \<leftarrow> runAideInitDBCmd aide stop fips;
       case err of Some e \<Rightarrow> State_Monad.return (Some (AideErr e))
       | None \<Rightarrow> fileStep (updateAideDBFiles conf) (State_Monad.return None) }))"

text \<open>
  The decision of \<open>reinitLoop\<close>: \<open>None\<close> is the panic of asking a missing \<open>FileInfo\<close> for its size, which
  happens when \<open>os.Stat\<close> fails for another reason than a missing file. The second component tells
  whether the trigger file is there.
\<close>

definition reinitCheck :: "daemonConfig \<Rightarrow> (bool \<times> bool) option os" where
  "reinitCheck conf = do {
     readDB \<leftarrow> Stat (aideReadDBPath conf);
     trigger \<leftarrow> Stat (aideReinitPath conf);
     State_Monad.return (let isReinit = (case trigger of Inl _ \<Rightarrow> False | Inr _ \<Rightarrow> True) in
       case readDB of
         Inl e \<Rightarrow> if IsNotExist e then Some (True, isReinit) else None
       | Inr f \<Rightarrow> Some (length (content f) \<le> 0 \<or> isReinit, isReinit)) }"

section \<open>Outcomes\<close>

lemma wp_set [wp_simps]: "wp (State_Monad.set t) Q s = Q () t"
  by (simp add: wp_def State_Monad.set_def)

lemma put_file_sel [simp]: "clock (put_file p d s) = clock s" "fault (put_file p d s) = fault s" "copied (put_file p d s) = copied s"
    "stamp (put_file p d s) = stamp s" "clock (drop_file p s) = clock s" "fault (drop_file p s) = fault s"
    "copied (drop_file p s) = copied s" "stamp (drop_file p s) = stamp s"
  by (simp_all add: put_file_def drop_file_def)

text \<open>Only the disk has changed.\<close>

definition same_machine :: "OS \<Rightarrow> OS \<Rightarrow> bool" where
  "same_machine s s' \<longleftrightarrow> clock s' = clock s \<and> stamp s' = stamp s \<and> fault s' = fault s \<and> copied s' = copied s"

lemma same_machine_simps [simp]: "same_machine s s" "same_machine s (put_file p d t) = same_machine s t" "same_machine s (drop_file p t) = same_machine s t"
  by (simp_all add: same_machine_def)

lemma same_machine_trans: "same_machine s t \<Longrightarrow> same_machine t u \<Longrightarrow> same_machine s u"
  by (simp add: same_machine_def)

lemma wp_failing [wp_simps]: "wp (failing op p) Q s = Q (map_option EIO (fault s op p)) s"
  by (simp add: failing_def wp_simps)

lemma wp_Stat [wp_simps]: "wp (Stat p) Q s = Q (case fault s ''stat'' p of Some e \<Rightarrow> Inl (EIO e)
    | None \<Rightarrow> (case files s p of None \<Rightarrow> Inl ENOENT | Some f \<Rightarrow> Inr f)) s"
  by (simp add: Stat_def wp_simps)

lemma wp_fileIsMissingOrEmpty [wp_simps]: "wp (fileIsMissingOrEmpty p) Q s = Q (case fault s ''stat'' p of Some e \<Rightarrow> Inl (EIO e)
    | None \<Rightarrow> Inr (case files s p of None \<Rightarrow> True | Some f \<Rightarrow> content f = [])) s"
  by (simp add: fileIsMissingOrEmpty_def wp_simps IsNotExist_def split: option.splits)

lemma wp_andThen [wp_simps]: "wp (andThen m k) Q s = wp m (\<lambda>r s'. case r of Some e \<Rightarrow> Q (Some e) s' | None \<Rightarrow> wp k Q s') s"
  by (simp add: andThen_def wp_def split: prod.splits option.splits)

lemma wp_fileStep [wp_simps]: "wp (fileStep m k) Q s = wp m (\<lambda>r s'. case r of Some e \<Rightarrow> Q (Some (FileErr e)) s' | None \<Rightarrow> wp k Q s') s"
  by (simp add: fileStep_def wp_def split: prod.splits option.splits)

text \<open>
  A copy touches nothing but its destination; success means that it is a copy of the non-empty
  source, and after an error it is as before or holds a beginning of the source.
\<close>

definition copy_outcome :: "fpath \<Rightarrow> fpath \<Rightarrow> OS \<Rightarrow> oserror option \<Rightarrow> OS \<Rightarrow> bool" where
  "copy_outcome src dst s r s' \<longleftrightarrow> same_machine s s' \<and> (\<forall>p. p \<noteq> dst \<longrightarrow> files s' p = files s p) \<and>
     (case r of
        None \<Rightarrow> \<exists>f. files s src = Some f \<and> kind f = Regular \<and> content f \<noteq> [] \<and>
          files s' dst = Some \<lparr>kind = Regular, content = content f, modTime = clock s\<rparr>
      | Some e \<Rightarrow> files s' dst = files s dst \<or> (\<exists>f n. files s src = Some f \<and>
          files s' dst = Some \<lparr>kind = Regular, content = take n (content f), modTime = clock s\<rparr>))"

lemma copy_failed:
  "same_machine s s' \<Longrightarrow> files s src = Some f \<Longrightarrow>
     files s' = (files s)(dst \<mapsto> \<lparr>kind = Regular, content = take n (content f), modTime = clock s\<rparr>) \<Longrightarrow> copy_outcome src dst s (Some e) s'"
  "same_machine s s' \<Longrightarrow> files s' = files s \<Longrightarrow> copy_outcome src dst s (Some e) s'"
  by (auto simp: copy_outcome_def)

lemma wp_closing:
  assumes "\<And>e'. Q (Some e') s"
  shows "wp (closing (andThen (failing a p) (failing b q)) e) Q s" "wp (closing (failing a p) e) Q s"
  using assms by (auto simp: closing_def wp_simps split: option.splits)

lemma wp_copyNonEmptyFile: "wp (copyNonEmptyFile src dst) (copy_outcome src dst s) s"
proof (cases "fault s ''stat'' src = None \<and> (\<exists>f. files s src = Some f \<and> kind f = Regular \<and> content f \<noteq> [])")
  case False
  then show ?thesis unfolding copyNonEmptyFile_def
    by (auto simp: wp_simps intro: copy_failed(2) split: option.splits)
next
  case True
  then obtain f where f: "fault s ''stat'' src = None" "files s src = Some f" "kind f = Regular" "content f \<noteq> []" by blast
  let ?Q = "copy_outcome src dst s"
  have part: "?Q (Some e) (put_file dst (take n (content f)) s1)" if "same_machine s s1" "\<forall>p. p \<noteq> dst \<longrightarrow> files s1 p = files s p" for e n s1
    using that f(2) by (intro copy_failed(1) [of s _ src f dst n]) (auto simp: fun_eq_iff same_machine_def)
  have start: "?Q (Some e) (put_file dst [] s)" for e using part [of s e 0] by simp
  have full: "?Q (Some e) (put_file dst (content f) (put_file dst [] s))" for e using part [of "put_file dst [] s" e "length (content f)"] by simp
  have fin: "?Q None (put_file dst (content f) (put_file dst [] s))" using f by (simp add: copy_outcome_def)
  have copy: "wp (do { copyErr \<leftarrow> CopyTo dst (content f);
      case copyErr of Some e \<Rightarrow> closing (andThen (failing ''close'' src) (failing ''close'' dst)) e
      | None \<Rightarrow> do { syncErr \<leftarrow> failing ''sync'' dst;
          case syncErr of Some e \<Rightarrow> closing (andThen (failing ''close'' src) (failing ''close'' dst)) e
          | None \<Rightarrow> andThen (failing ''close'' src) (failing ''close'' dst) } }) ?Q (put_file dst [] s)"
    unfolding CopyTo_def
    by (cases "fault s ''close'' dst") (auto simp: wp_simps fin full part intro!: wp_closing split: option.splits)
  show ?thesis unfolding copyNonEmptyFile_def Let_def OpenTruncate_def
    by (auto simp: wp_simps f copy [unfolded wp_bind] copy_failed(2) intro!: wp_closing split: option.splits)
qed

text \<open>Backups by name.\<close>

definition backup_names :: "OS \<Rightarrow> string \<Rightarrow> string \<Rightarrow> string set" where
  "backup_names s dirPath fileName = set (map beName (backupsOf s dirPath fileName))"

definition mtime :: "OS \<Rightarrow> string \<Rightarrow> string \<Rightarrow> int" where
  "mtime s dirPath n = (case files s (dirPath, n) of Some f \<Rightarrow> modTime f | None \<Rightarrow> 0)"

lemma map_beName_backups: "map beName (backupsOf s d f)
    = filter (is_backup s d f) (remdups (map (snd \<circ> fst) (filter (\<lambda>e. fst (fst e) = d) (disk s))))"
  by (simp add: backupsOf_def comp_def)

lemma distinct_backups: "distinct (map beName (backupsOf s d f))"
  by (simp add: map_beName_backups)

lemma backup_names_iff: "n \<in> backup_names s d f \<longleftrightarrow> is_backup s d f n"
proof -
  have "n \<in> (snd \<circ> fst) ` set (filter (\<lambda>e. fst (fst e) = d) (disk s))" if "is_backup s d f n"
    using that by (force simp: is_backup_def image_iff split: option.splits dest: map_of_SomeD)
  then show ?thesis unfolding backup_names_def map_beName_backups by auto
qed

lemma backup_mtime: "b \<in> set (backupsOf s d f) \<Longrightarrow> beModTime b = mtime s d (beName b)"
  by (auto simp: backupsOf_def mtime_def)

definition removed :: "string \<Rightarrow> backupEntry list \<Rightarrow> OS \<Rightarrow> OS \<Rightarrow> bool" where
  "removed d bs s s' \<longleftrightarrow> same_machine s s' \<and> drops ((\<lambda>b. (d, beName b)) ` set bs) (files s) (files s') \<and>
     ((\<forall>n. fault s ''remove'' (d, n) = None) \<longrightarrow> (\<forall>b\<in>set bs. files s' (d, beName b) = None))"

lemma removed_Cons:
  assumes "removed d bs t s'" and "same_machine s t" and "files t = files s \<or> files t = (files s)((d, beName b) := None)"
    and "fault s ''remove'' (d, beName b) = None \<longrightarrow> files t (d, beName b) = None"
  shows "removed d (b # bs) s s'"
proof -
  let ?K = "(\<lambda>b. (d, beName b)) ` set (b # bs)"
  have t: "drops ?K (files t) (files s')" using assms(1) by (auto simp: removed_def intro: drops_mono)
  have "drops ?K (files s) (files s')"
    using assms(3) t drops_step [of ?K "files s" "(d, beName b)"] by auto
  moreover have "files s' (d, beName b) = None" if "fault s ''remove'' (d, beName b) = None"
    using drops_gone [OF t] assms(4) that by blast
  ultimately show ?thesis using assms(1,2) by (auto simp: removed_def same_machine_def)
qed

lemma wp_removeLoop: "wp (removeLoop d bs) (\<lambda>_. removed d bs s) s"
proof (induction bs arbitrary: s)
  case Nil
  show ?case by (simp add: wp_simps removed_def)
next
  case (Cons b bs)
  have "wp (removeLoop d bs) (\<lambda>_. removed d (b # bs) s) t"
    if "same_machine s t" "files t = files s \<or> files t = (files s)((d, beName b) := None)"
      "fault s ''remove'' (d, beName b) = None \<longrightarrow> files t (d, beName b) = None" for t
    by (rule wp_conseq [OF Cons.IH removed_Cons [OF _ that]])
  then show ?case by (auto simp: wp_simps Remove_def split: option.splits)
qed

text \<open>
  Pruning removes backups of the given file only; enough of the newest stay, and when no removal
  fails nothing else stays.
\<close>

definition pruned :: "string \<Rightarrow> string \<Rightarrow> int \<Rightarrow> OS \<Rightarrow> oserror option \<Rightarrow> OS \<Rightarrow> bool" where
  "pruned d f mx s r s' \<longleftrightarrow> same_machine s s' \<and>
     drops (Pair d ` backup_names s d f) (files s) (files s') \<and>
     (case r of Some e \<Rightarrow> files s' = files s
      | None \<Rightarrow> \<exists>K \<subseteq> backup_names s d f. card K = min (card (backup_names s d f)) (nat mx) \<and>
          (\<forall>n\<in>K. files s' (d, n) = files s (d, n)) \<and>
          (\<forall>n\<in>backup_names s d f. \<forall>k\<in>K. files s' (d, n) = None \<longrightarrow> mtime s d n \<le> mtime s d k) \<and>
          ((\<forall>n. fault s ''remove'' (d, n) = None) \<longrightarrow> (\<forall>n\<in>backup_names s d f - K. files s' (d, n) = None)))"

lemma card_backups: "card (backup_names s d f) = length (backupsOf s d f)"
  unfolding backup_names_def using distinct_card [OF distinct_backups] by simp

lemma pruned_few:
  assumes "int (length (backupsOf s d f)) \<le> mx"
  shows "pruned d f mx s None s"
proof -
  have "card (backup_names s d f) = min (card (backup_names s d f)) (nat mx)" using assms by (simp add: card_backups)
  moreover have "files s (d, n) \<noteq> None" if "n \<in> backup_names s d f" for n
    using that by (auto simp: backup_names_iff is_backup_def split: option.splits)
  ultimately show ?thesis unfolding pruned_def by (fastforce intro!: exI [of _ "backup_names s d f"])
qed

text \<open>Removing the first part of the sorted backups prunes them.\<close>

lemma pruned_removed:
  assumes "slice_sort sorter" and parts: "doomed @ kept = sorter (backupsOf s d f)"
    and len: "length kept = min (length (backupsOf s d f)) (nat mx)" and rm: "removed d doomed s s'"
  shows "pruned d f mx s None s'"
proof -
  let ?es = "backupsOf s d f" let ?K = "beName ` set kept"
  have perm: "mset (sorter ?es) = mset ?es" using slice_sort.perm [OF assms(1)] .
  have sets: "set doomed \<union> set kept = set ?es" using perm parts by (metis mset_eq_setD set_append)
  have "mset (map beName (sorter ?es)) = mset (map beName ?es)" using perm by simp
  then have dist: "distinct (map beName doomed @ map beName kept)"
    using distinct_backups parts by (metis map_append mset_eq_imp_distinct_iff)
  have names: "backup_names s d f = beName ` set doomed \<union> ?K" using sets by (auto simp: backup_names_def)
  have s': "same_machine s s'" "drops ((\<lambda>b. (d, beName b)) ` set doomed) (files s) (files s')"
    "(\<forall>n. fault s ''remove'' (d, n) = None) \<longrightarrow> (\<forall>b\<in>set doomed. files s' (d, beName b) = None)"
    using rm by (simp_all add: removed_def)
  have "card ?K = min (card (backup_names s d f)) (nat mx)"
    using dist len distinct_card [of "map beName kept"] by (simp add: card_backups)
  moreover have stay: "files s' (d, n) = files s (d, n)" if "n \<in> ?K" for n
    by (rule dropsD [OF s'(2)]) (use that dist in auto)
  moreover have "mtime s d n \<le> mtime s d k" if n: "n \<in> backup_names s d f" and k: "k \<in> ?K" and gone: "files s' (d, n) = None" for n k
  proof -
    have "files s (d, n) \<noteq> None" using n by (auto simp: backup_names_iff is_backup_def split: option.splits)
    with gone stay have "n \<notin> ?K" by auto
    with n names obtain b where b: "b \<in> set doomed" "n = beName b" by auto
    from k obtain c where c: "c \<in> set kept" "k = beName c" by auto
    have "beModTime b \<le> beModTime c"
      using slice_sort.ordered [OF assms(1), of ?es] b(1) c(1) unfolding parts [symmetric] by (auto simp: sorted_append)
    moreover have "b \<in> set ?es" "c \<in> set ?es" using b(1) c(1) sets by blast+
    ultimately show ?thesis using backup_mtime [of b s d f] backup_mtime [of c s d f] b(2) c(2) by simp
  qed
  moreover have "drops (Pair d ` backup_names s d f) (files s) (files s')"
    by (rule drops_mono [OF s'(2)]) (use names in auto)
  moreover have "(\<forall>n. fault s ''remove'' (d, n) = None) \<longrightarrow> (\<forall>n\<in>backup_names s d f - ?K. files s' (d, n) = None)"
    using s'(3) names by auto
  moreover have "?K \<subseteq> backup_names s d f" using names by auto
  ultimately show ?thesis using s'(1) unfolding pruned_def option.case by blast
qed

lemma wp_pruneBackupFiles:
  assumes "slice_sort sorter"
  shows "wp (pruneBackupFiles sorter d f mx) (pruned d f mx s) s"
proof (cases "fault s ''readdir'' (d, '''')")
  case None
  let ?es = "backupsOf s d f" let ?m = "nat (int (length ?es) - mx)"
  have "wp (removeLoop d (take ?m (sorter ?es))) (\<lambda>_. pruned d f mx s None) s" if "mx < int (length ?es)"
  proof (rule wp_conseq [OF wp_removeLoop])
    have "length (sorter ?es) = length ?es" using slice_sort.perm [OF assms, of ?es] by (rule mset_eq_length)
    then show "pruned d f mx s None s'" if "removed d (take ?m (sorter ?es)) s s'" for s'
      using \<open>mx < int (length ?es)\<close> that by (intro pruned_removed [OF assms, where kept = "drop ?m (sorter ?es)"]) auto
  qed
  with None pruned_few [of s d f mx] show ?thesis
    by (auto simp: pruneBackupFiles_def wp_simps wp_return [abs_def] Let_def)
qed (simp add: pruneBackupFiles_def wp_simps pruned_def)

section \<open>The database survives an initialisation\<close>

abbreviation backup_path :: "OS \<Rightarrow> fpath \<Rightarrow> fpath" where
  "backup_path s p \<equiv> (fst p, backup_prefix (snd p) @ stamp s (clock s))"

lemma wp_backupFile:
  "wp (backupFile p) (\<lambda>r s'. s' = s \<and> (r = None \<longrightarrow> (case files s p of None \<Rightarrow> True | Some f \<Rightarrow> content f = []))
     \<or> copy_outcome p (backup_path s p) s r s') s"
  unfolding backupFile_def
  by (auto simp: wp_simps split: option.splits intro: wp_conseq [OF wp_copyNonEmptyFile])

lemma wp_removeFileIfExists:
  "wp (removeFileIfExists p) (\<lambda>r s'. same_machine s s' \<and> drops {p} (files s) (files s') \<and> (r = None \<longrightarrow> files s' p = None)) s"
  by (auto simp: removeFileIfExists_def Remove_def wp_simps IsNotExist_def intro!: drops_upd split: option.splits)

text \<open>A file that is kept, unless the given ones are meant.\<close>

definition holds_data :: "OS \<Rightarrow> fpath \<Rightarrow> string \<Rightarrow> bool" where
  "holds_data s p d \<longleftrightarrow> (\<exists>f. files s p = Some f \<and> content f = d)"

lemma holds_data_drops: "drops K (files s) (files s') \<Longrightarrow> p \<notin> K \<Longrightarrow> holds_data s' p d = holds_data s p d"
  using dropsD [of K "files s" "files s'" p] by (simp add: holds_data_def)

lemma holds_data_copy: "copy_outcome src dst s r s' \<Longrightarrow> p \<noteq> dst \<Longrightarrow> holds_data s' p d = holds_data s p d"
  unfolding copy_outcome_def holds_data_def by metis

lemma backup_name_prefix: "n \<in> backup_names s d f \<Longrightarrow> HasPrefix n (backup_prefix f)"
  by (auto simp: backup_names_iff is_backup_def split: option.splits)

lemma holds_data_pruned:
  assumes "pruned d f mx s r s'" and "fst p \<noteq> d \<or> \<not> HasPrefix (snd p) (backup_prefix f)"
  shows "holds_data s' p x = holds_data s p x"
proof (rule holds_data_drops)
  show "drops (Pair d ` backup_names s d f) (files s) (files s')" using assms(1) by (simp add: pruned_def)
  show "p \<notin> Pair d ` backup_names s d f" using assms(2) backup_name_prefix by fastforce
qed

text \<open>The newest backup stays.\<close>

lemma newest_kept:
  assumes "pruned d f mx s r s'" and "1 \<le> mx" and "files s (d, n) = Some b"
    and "\<And>m. m \<in> backup_names s d f \<Longrightarrow> m \<noteq> n \<Longrightarrow> mtime s d m < modTime b"
  shows "files s' (d, n) = Some b"
proof (cases "n \<in> backup_names s d f \<and> r = None")
  case False
  then show ?thesis using assms(1,3) dropsD [of "Pair d ` backup_names s d f" "files s" "files s'" "(d, n)"]
    by (cases r) (auto simp: pruned_def)
next
  case True
  then obtain K where K: "K \<subseteq> backup_names s d f" "card K = min (card (backup_names s d f)) (nat mx)"
    "\<forall>n\<in>K. files s' (d, n) = files s (d, n)"
    "\<forall>n\<in>backup_names s d f. \<forall>k\<in>K. files s' (d, n) = None \<longrightarrow> mtime s d n \<le> mtime s d k"
    using assms(1) unfolding pruned_def by auto
  have "finite (backup_names s d f)" by (simp add: backup_names_def)
  with True have "card (backup_names s d f) > 0" by (auto simp: card_gt_0_iff)
  with K(2) assms(2) have "K \<noteq> {}" by auto
  then obtain k where k: "k \<in> K" by blast
  have mt: "mtime s d n = modTime b" using assms(3) by (simp add: mtime_def)
  have "drops (Pair d ` backup_names s d f) (files s) (files s')" using assms(1) by (simp add: pruned_def)
  then have "files s' (d, n) = files s (d, n) \<or> files s' (d, n) = None" by (rule drops_cases)
  moreover have "files s' (d, n) \<noteq> None"
  proof
    assume gone: "files s' (d, n) = None"
    with K(4) True k mt have "modTime b \<le> mtime s d k" by auto
    with assms(4) [of k] K(1) k have "k = n" by force
    with K(3) k gone assms(3) show False by simp
  qed
  ultimately show ?thesis using assms(3) by auto
qed

lemma backups_grow:
  assumes "\<And>m. files s' (d, m) = files s (d, m) \<or> files s' (d, m) = None \<or> m = n" and "fault s' = fault s"
    and "m \<in> backup_names s' d f" and "m \<noteq> n"
  shows "m \<in> backup_names s d f" "mtime s' d m = mtime s d m"
proof -
  have "files s' (d, m) \<noteq> None" using assms(3) by (auto simp: backup_names_iff is_backup_def split: option.splits)
  then have "files s' (d, m) = files s (d, m)" using assms(1) [of m] assms(4) by (elim disjE) simp_all
  with assms(2,3) show "m \<in> backup_names s d f" "mtime s' d m = mtime s d m"
    by (auto simp: backup_names_iff is_backup_def mtime_def split: option.splits)
qed

text \<open>
  What AIDE may do during an initialisation: write the new database and the new log (the
  configuration names no other output).
\<close>

definition writes_only_new :: "daemonConfig \<Rightarrow> (nat \<Rightarrow> RunError option os) \<Rightarrow> bool" where
  "writes_only_new conf aide \<longleftrightarrow> (\<forall>k s r s'. run_state (aide k) s = (r, s') \<longrightarrow>
     (\<forall>p. p \<noteq> aideWriteDBPath conf \<longrightarrow> p \<noteq> aideWriteLogPath conf \<longrightarrow> files s' p = files s p))"

lemma wp_runAideInitDBCmd:
  assumes "writes_only_new conf aide" and "p \<noteq> aideWriteDBPath conf" "p \<noteq> aideWriteLogPath conf" and "holds_data s p d"
  shows "wp (runAideInitDBCmd aide stop fips) (\<lambda>_ s'. holds_data s' p d) s"
  unfolding runAideInitDBCmd_def
proof (rule wp_Retry [where I = "\<lambda>s'. holds_data s' p d"], rule assms(4), goal_cases)
  case (1 k t)
  have keep: "holds_data t' p d" if "run_state (aide k) t = (r, t')" for r t'
    using assms(1-3) that 1(2) unfolding writes_only_new_def holds_data_def by metis
  show ?case unfolding wp_bind
    by (rule wpI) (auto simp: wp_simps attempt_of_def dest: keep split: option.splits)
qed

context slice_sort
begin

text \<open>Backing up a database that is there leaves it or its backup in place.\<close>

lemma wp_backupReadDB:
  assumes "files s (aideReadDBPath c) = Some db" and "content db \<noteq> []" and "1 \<le> dcMaxBackups c"
    and "files s (backup_path s (aideReadDBPath c)) = None"
    and "\<And>m. m \<in> backup_names s (FileDir c) ''aide.db.gz'' \<Longrightarrow> mtime s (FileDir c) m < clock s"
  shows "wp (backupReadDB sorter c) (\<lambda>r s'. holds_data s' (aideReadDBPath c) (content db) \<and>
     (r = None \<longrightarrow> holds_data s' (backup_path s (aideReadDBPath c)) (content db))) s"
proof -
  let ?rd = "aideReadDBPath c" and ?bk = "backup_path s (aideReadDBPath c)"
  have rd: "?rd = (FileDir c, ''aide.db.gz'')" and ne: "?rd \<noteq> ?bk" by (simp_all add: path_defs backup_prefix_def)
  have here: "holds_data s ?rd (content db)" using assms(1) by (simp add: holds_data_def)
  show ?thesis unfolding backupReadDB_def wp_andThen
  proof (rule wp_conseq [OF wp_backupFile [of ?rd s]], goal_cases)
    case (1 r s1)
    from 1 assms(1,2) have copy: "r \<noteq> None \<and> s1 = s \<or> copy_outcome ?rd ?bk s r s1" by auto
    have rd1: "holds_data s1 ?rd (content db)" using copy holds_data_copy [OF _ ne] here by blast
    show ?case
    proof (cases r)
      case (Some e)
      with rd1 show ?thesis by simp
    next
      case None
      with copy have cp: "copy_outcome ?rd ?bk s None s1" by simp
      then have bk: "files s1 ?bk = Some \<lparr>kind = Regular, content = content db, modTime = clock s\<rparr>"
        and off: "\<And>p. p \<noteq> ?bk \<Longrightarrow> files s1 p = files s p" and mach: "same_machine s s1"
        using assms(1) by (auto simp: copy_outcome_def)
      let ?n = "snd ?bk"
      have older: "mtime s1 (FileDir c) m < clock s" if "m \<in> backup_names s1 (FileDir c) ''aide.db.gz''" "m \<noteq> ?n" for m
      proof -
        have "files s1 (FileDir c, m') = files s (FileDir c, m') \<or> files s1 (FileDir c, m') = None \<or> m' = ?n" for m'
          using off [of "(FileDir c, m')"] by (auto simp: rd)
        from backups_grow [OF this _ that] mach assms(5) show ?thesis by (simp add: same_machine_def)
      qed
      have np: "\<not> HasPrefix (snd ?rd) (backup_prefix ''aide.db.gz'')" by (simp add: rd backup_prefix_def)
      have "wp (pruneBackupFiles sorter (FileDir c) ''aide.db.gz'' (dcMaxBackups c))
          (\<lambda>r s'. holds_data s' ?rd (content db) \<and> holds_data s' ?bk (content db)) s1"
      proof (rule wp_conseq [OF wp_pruneBackupFiles [OF slice_sort_axioms]], goal_cases)
        case (1 r2 s2)
        have "files s2 (FileDir c, ?n) = Some \<lparr>kind = Regular, content = content db, modTime = clock s\<rparr>"
          by (rule newest_kept [OF 1 assms(3)]) (use bk older in \<open>auto simp: rd\<close>)
        then show ?case using holds_data_pruned [OF 1, of ?rd "content db"] np rd1 by (simp add: rd holds_data_def)
      qed
      then show ?thesis unfolding None option.case by (rule wp_conseq) auto
    qed
  qed
qed

end

lemma wp_removeAideReinit:
  "wp (removeAideReinitFileIfExists c) (\<lambda>r s'. same_machine s s' \<and> drops {legacyAideReinitPath c, aideReinitPath c} (files s) (files s') \<and>
     (r = None \<longrightarrow> files s' (legacyAideReinitPath c) = None \<and> files s' (aideReinitPath c) = None)) s"
  unfolding removeAideReinitFileIfExists_def wp_bind
proof (rule wp_conseq [OF wp_removeFileIfExists], goal_cases)
  case (1 r s1)
  show ?case
  proof (cases r)
    case (Some e)
    with 1 show ?thesis by (auto simp: wp_simps intro: drops_mono)
  next
    case None
    show ?thesis unfolding None option.case
    proof (rule wp_conseq [OF wp_removeFileIfExists [of _ s1]], goal_cases)
      case (1 r' s2)
      let ?K = "{legacyAideReinitPath c, aideReinitPath c}"
      have "drops ?K (files s) (files s1)" "drops ?K (files s1) (files s2)"
        using \<open>same_machine s s1 \<and> drops {legacyAideReinitPath c} (files s) (files s1) \<and> _\<close> 1 by (auto intro: drops_mono)
      then have "drops ?K (files s) (files s2)" by (rule drops_trans)
      moreover have "files s2 (legacyAideReinitPath c) = None"
        using drops_gone [of "{aideReinitPath c}" "files s1" "files s2" "legacyAideReinitPath c"] 1
          \<open>same_machine s s1 \<and> _ \<and> (r = None \<longrightarrow> files s1 (legacyAideReinitPath c) = None)\<close> None by simp
      ultimately show ?case
        using 1 \<open>same_machine s s1 \<and> _ \<and> _\<close> same_machine_trans by blast
    qed
  qed
qed

lemma wp_backupFile_keeps:
  assumes "holds_data s p d" and "p \<noteq> backup_path s q"
  shows "wp (backupFile q) (\<lambda>_ s'. holds_data s' p d) s"
  by (rule wp_conseq [OF wp_backupFile]) (use assms in \<open>auto dest: holds_data_copy [OF _ assms(2), of q s _ _ d]\<close>)

text \<open>Files that are no backups are neither made nor changed nor removed by backing up.\<close>

lemma wp_backupFile_off: "p \<noteq> backup_path s q \<Longrightarrow> wp (backupFile q) (\<lambda>_ s'. files s' p = files s p) s"
  by (rule wp_conseq [OF wp_backupFile]) (unfold copy_outcome_def, blast)

lemma pruned_off: "pruned d f mx s r s' \<Longrightarrow> \<not> HasPrefix (snd p) (backup_prefix f) \<Longrightarrow> files s' p = files s p"
  using dropsD [of "Pair d ` backup_names s d f" "files s" "files s'" p] backup_name_prefix by (fastforce simp: pruned_def)

context slice_sort
begin

lemma wp_backUpAideFiles_off:
  assumes "\<not> HasPrefix (snd p) (backup_prefix ''aide.db.gz'')" and "\<not> HasPrefix (snd p) (backup_prefix ''aide.log'')"
  shows "wp (backUpAideFiles sorter c) (\<lambda>_ s'. files s' p = files s p) s"
proof -
  have step: "wp (andThen (backupFile q) (pruneBackupFiles sorter d (snd q) mx)) (\<lambda>_ s'. files s' p = files t p) t"
    if "\<not> HasPrefix (snd p) (backup_prefix (snd q))" for q d mx t
    unfolding wp_andThen
  proof (rule wp_conseq [OF wp_backupFile_off])
    show "p \<noteq> backup_path t q" using that by auto
  next
    fix r t1 assume 2: "files t1 p = files t p"
    have "wp (pruneBackupFiles sorter d (snd q) mx) (\<lambda>_ s'. files s' p = files t p) t1"
      by (rule wp_conseq [OF wp_pruneBackupFiles [OF slice_sort_axioms]]) (use pruned_off [OF _ that] 2 in auto)
    with 2 show "case r of None \<Rightarrow> wp (pruneBackupFiles sorter d (snd q) mx) (\<lambda>_ s'. files s' p = files t p) t1 | Some e \<Rightarrow> files t1 p = files t p"
      by (cases r) simp_all
  qed
  have db: "wp (backupReadDB sorter c) (\<lambda>_ s'. files s' p = files t p) t" for t
    unfolding backupReadDB_def using step [of "aideReadDBPath c" "FileDir c" "dcMaxBackups c" t] assms(1) by (simp add: path_defs)
  have log: "wp (backupReadLog sorter c) (\<lambda>_ s'. files s' p = files t p) t" for t
    unfolding backupReadLog_def using step [of "aideReadLogPath c" "FileDir c" "dcMaxBackups c" t] assms(2) by (simp add: path_defs)
  show ?thesis unfolding backUpAideFiles_def wp_andThen
    by (rule wp_conseq [OF db]) (use log in \<open>auto split: option.splits intro: wp_conseq [OF log]\<close>)
qed

lemma wp_backupReadLog_keeps:
  assumes "holds_data s (dir, n) d" and "\<not> HasPrefix n (backup_prefix ''aide.log'')"
  shows "wp (backupReadLog sorter c) (\<lambda>_ s'. holds_data s' (dir, n) d) s"
  unfolding backupReadLog_def wp_andThen
proof (rule wp_conseq [OF wp_backupFile_keeps [OF assms(1)]], goal_cases)
  case 1
  show ?case using assms(2) by (auto simp: path_defs)
next
  case (2 r s1)
  have "holds_data s2 (dir, n) d" if "pruned (FileDir c) ''aide.log'' (dcMaxBackups c) s1 r2 s2" for r2 s2
    using holds_data_pruned [OF that, of "(dir, n)" d] assms(2) 2 by simp
  then have "wp (pruneBackupFiles sorter (FileDir c) ''aide.log'' (dcMaxBackups c)) (\<lambda>_ s'. holds_data s' (dir, n) d) s1"
    by (rule wp_conseq [OF wp_pruneBackupFiles [OF slice_sort_axioms]])
  with 2 show ?case by (cases r) simp_all
qed

lemma wp_handleAIDEInit:
  assumes "files s (aideReadDBPath c) = Some db" and "content db \<noteq> []" and "1 \<le> dcMaxBackups c"
    and "files s (backup_path s (aideReadDBPath c)) = None"
    and "\<And>m. m \<in> backup_names s (FileDir c) ''aide.db.gz'' \<Longrightarrow> mtime s (FileDir c) m < clock s"
    and "writes_only_new c aide"
  shows "wp (handleAIDEInit sorter aide stop fips c) (\<lambda>r s'.
     r \<noteq> None \<and> holds_data s' (aideReadDBPath c) (content db) \<or> holds_data s' (backup_path s (aideReadDBPath c)) (content db)) s"
proof -
  let ?rd = "aideReadDBPath c" and ?bk = "backup_path s (aideReadDBPath c)" and ?d = "content db"
  define Q :: "initError option \<Rightarrow> OS \<Rightarrow> bool" where "Q = (\<lambda>r s'. r \<noteq> None \<and> holds_data s' ?rd ?d \<or> holds_data s' ?bk ?d)"
  have Q: "holds_data s' ?rd ?d \<Longrightarrow> Q (Some e) s'" "holds_data s' ?bk ?d \<Longrightarrow> Q r s'" for e r s' by (simp_all add: Q_def)
  have names: "?rd = (FileDir c, ''aide.db.gz'')" "fst ?bk = FileDir c" by (simp_all add: path_defs)
  have update: "wp (updateAideDBFiles c) (\<lambda>_ s'. holds_data s' ?bk ?d) t" if "holds_data t ?bk ?d" for t
    unfolding updateAideDBFiles_def
    by (rule wp_conseq [OF wp_copyNonEmptyFile]) (use that holds_data_copy [where p = ?bk and dst = ?rd] in \<open>auto simp: path_defs backup_prefix_def\<close>)
  have run: "wp (runAideInitDBCmd aide stop fips) (\<lambda>_ s'. holds_data s' ?bk ?d) t" if "holds_data t ?bk ?d" for t
    by (rule wp_runAideInitDBCmd [OF assms(6)]) (use that in \<open>auto simp: path_defs backup_prefix_def\<close>)
  have rest: "wp (do { err \<leftarrow> runAideInitDBCmd aide stop fips;
       case err of Some e \<Rightarrow> State_Monad.return (Some (AideErr e))
       | None \<Rightarrow> fileStep (updateAideDBFiles c) (State_Monad.return None) }) Q t" if "holds_data t ?bk ?d" for t
    unfolding wp_bind
    by (rule wp_conseq [OF run [OF that]])
      (auto simp: wp_simps split: option.splits intro: Q wp_conseq [OF update])
  have log: "wp (backupReadLog sorter c) (\<lambda>_ s'. holds_data s' ?bk ?d) t" if "holds_data t ?bk ?d" for t
    using wp_backupReadLog_keeps [of t "fst ?bk" "snd ?bk" ?d c] that by (simp add: path_defs backup_prefix_def)
  show ?thesis unfolding handleAIDEInit_def wp_fileStep Q_def [symmetric]
  proof (rule wp_conseq [OF wp_removeAideReinit [of c s]], goal_cases)
    case (1 r t)
    then have mach: "same_machine s t" and drops: "drops {legacyAideReinitPath c, aideReinitPath c} (files s) (files t)" by auto
    have same: "files t (FileDir c, m) = files s (FileDir c, m)" if "m \<noteq> ''aide.reinit''" for m
      by (rule dropsD [OF drops]) (use that in \<open>auto simp: path_defs\<close>)
    have bk: "backup_path t ?rd = ?bk" using mach by (simp add: same_machine_def)
    have older: "mtime t (FileDir c) m < clock t" if "m \<in> backup_names t (FileDir c) ''aide.db.gz''" for m
    proof -
      have "m \<noteq> ''aide.reinit''" using backup_name_prefix [OF that] by (auto simp: backup_prefix_def)
      have "files t (FileDir c, m') = files s (FileDir c, m') \<or> files t (FileDir c, m') = None \<or> m' = ''aide.reinit''" for m'
        using drops_cases [OF drops] by blast
      from backups_grow [OF this _ that \<open>m \<noteq> _\<close>] mach assms(5) show ?thesis by (simp add: same_machine_def)
    qed
    have rd: "files t ?rd = Some db" "files t ?bk = None"
      using same [of "''aide.db.gz''"] same [of "snd ?bk"] assms(1,4) by (simp_all add: path_defs backup_prefix_def)
    show ?case
    proof (cases r)
      case (Some e)
      with rd(1) show ?thesis by (auto simp: holds_data_def intro: Q(1))
    next
      case None
      have db: "wp (backupReadDB sorter c) (\<lambda>r s'. holds_data s' ?rd ?d \<and> (r = None \<longrightarrow> holds_data s' ?bk ?d)) t"
        using wp_backupReadDB [of t c db, OF rd(1) assms(2,3) _ older] rd(2) unfolding bk by blast
      show ?thesis unfolding None option.case wp_fileStep backUpAideFiles_def wp_andThen
        by (rule wp_conseq [OF db])
          (auto split: option.splits intro: Q rest wp_conseq [OF log])
    qed
  qed
qed

end

end
