(* ===== verification/File_Properties.thy ===== *)
theory File_Properties
  imports Daemon_Files Log_Properties
begin

text \<open>
  The properties of the daemon's files: a re-initialisation never loses the database there was,
  success installs a complete new one, pruning keeps the newest backups.
\<close>

section \<open>A small machine\<close>

definition machine :: "(fpath \<times> fentry) list \<Rightarrow> OS" where
  "machine d = \<lparr>disk = d, clock = 100, stamp = (\<lambda>t. if t = 100 then ''now'' else ''then''), fault = (\<lambda>_ _. None), copied = (\<lambda>_. 0)\<rparr>"

definition text_file :: "string \<Rightarrow> int \<Rightarrow> fentry" where
  "text_file d t = \<lparr>kind = Regular, content = d, modTime = t\<rparr>"

definition kdir :: string where "kdir = ''/hostroot/etc/kubernetes''"

lemma sample_dirs [simp]: "FileDir sample_conf = kdir" "dcMaxBackups sample_conf = 5" "RunDir sample_conf = ''/hostroot/run''"
  by (simp_all add: sample_conf_def kdir_def)

text \<open>An AIDE that writes a new database, and one that fails.\<close>

definition good_aide :: "nat \<Rightarrow> RunError option os" where
  "good_aide k = do { State_Monad.update (put_file (aideWriteDBPath sample_conf) ''new db''); State_Monad.return None }"

definition bad_aide :: "nat \<Rightarrow> RunError option os" where
  "bad_aide k = State_Monad.return (Some (ExitError 17))"

definition no_fips :: FipsFile where
  "no_fips = \<lparr>ffOpen = None, ffRead = Inr ''0'', ffClose = None\<rparr>"

section \<open>Initialisation\<close>

text \<open>
  C8. A re-initialisation never loses the database. Whatever fails (removing the trigger, copying,
  pruning, AIDE itself, installing the new database half-way), afterwards the database from before is
  still in place or its backup holds the same bytes, provided that at least one backup is kept, the
  name of the backup is new, older backups have older times, and AIDE writes only its new files.
\<close>

theorem database_not_lost:
  assumes "slice_sort sorter" and "run_state (handleAIDEInit sorter aide stop fips c) s = (r, s')"
    and "files s (aideReadDBPath c) = Some db" and "content db \<noteq> []" and "1 \<le> dcMaxBackups c"
    and "files s (backup_path s (aideReadDBPath c)) = None"
    and "\<And>m. m \<in> backup_names s (FileDir c) ''aide.db.gz'' \<Longrightarrow> mtime s (FileDir c) m < clock s"
    and "writes_only_new c aide"
  shows "holds_data s' (aideReadDBPath c) (content db) \<or> holds_data s' (backup_path s (aideReadDBPath c)) (content db)"
  using wp_run [OF slice_sort.wp_handleAIDEInit [OF assms(1,3-8)] assms(2)] by blast

theorem database_not_lost_witness:
  "\<exists>r s'. run_state (handleAIDEInit (sort_key beModTime) good_aide (\<lambda>_. False) no_fips sample_conf) (machine [((kdir, ''aide.db.gz''), text_file ''old db'' 7)]) = (r, s')
     \<and> (holds_data s' (kdir, ''aide.db.gz'') ''old db'' \<or> holds_data s' (kdir, ''aide.db.gz.backup-now'') ''old db'')"
proof -
  let ?s = "machine [((kdir, ''aide.db.gz''), text_file ''old db'' 7)]"
  obtain r s' where run: "run_state (handleAIDEInit (sort_key beModTime) good_aide (\<lambda>_. False) no_fips sample_conf) ?s = (r, s')" by fastforce
  have tame: "writes_only_new sample_conf good_aide"
    by (auto simp: writes_only_new_def good_aide_def State_Monad.update_def put_file_def AList.update_conv')
  have files: "files ?s (aideReadDBPath sample_conf) = Some (text_file ''old db'' 7)" "files ?s (backup_path ?s (aideReadDBPath sample_conf)) = None"
    by (simp_all add: machine_def path_defs backup_prefix_def)
  have none: "m \<notin> backup_names ?s (FileDir sample_conf) ''aide.db.gz''" for m
    by (auto simp: backup_names_iff is_backup_def machine_def backup_prefix_def split: option.splits if_splits)
  from database_not_lost [OF stable_sort.slice_sort_axioms run files(1) _ _ files(2) _ tame] none run show ?thesis
    by (auto simp: text_file_def path_defs backup_prefix_def machine_def)
qed

text \<open>A successful initialisation, step by step.\<close>

lemma handleAIDEInit_steps:
  assumes "run_state (handleAIDEInit sorter aide stop fips c) s = (None, s')"
  obtains t s1 s2 where "run_state (removeAideReinitFileIfExists c) s = (None, t)" and "run_state (backUpAideFiles sorter c) t = (None, s1)"
    and "run_state (runAideInitDBCmd aide stop fips) s1 = (None, s2)" and "run_state (updateAideDBFiles c) s2 = (None, s')"
  using assms by (auto simp: handleAIDEInit_def fileStep_def split: prod.splits option.splits)

lemma updateAideDBFiles_ok:
  assumes "run_state (updateAideDBFiles c) s = (None, s')"
  shows "\<exists>f. files s (aideWriteDBPath c) = Some f \<and> content f \<noteq> [] \<and> holds_data s' (aideReadDBPath c) (content f) \<and>
    (\<forall>p. p \<noteq> aideReadDBPath c \<longrightarrow> files s' p = files s p)"
  using wp_run [OF wp_copyNonEmptyFile assms [unfolded updateAideDBFiles_def]] unfolding copy_outcome_def holds_data_def by auto

lemma run_aide_off:
  assumes "writes_only_new c aide" and "p \<noteq> aideWriteDBPath c" and "p \<noteq> aideWriteLogPath c" and "run_state (runAideInitDBCmd aide stop fips) s = (r, s')"
    and "files s p = None"
  shows "files s' p = None"
proof -
  have "wp (runAideInitDBCmd aide stop fips) (\<lambda>_ s'. files s' p = None) s"
    unfolding runAideInitDBCmd_def
  proof (rule wp_Retry [where I = "\<lambda>s'. files s' p = None"], rule assms(5), goal_cases)
    case (1 k t)
    have keep: "files t' p = None" if "run_state (aide k) t = (r, t')" for r t'
      using assms(1-3) that 1(2) unfolding writes_only_new_def by metis
    show ?case unfolding wp_bind
      by (rule wpI) (auto simp: wp_simps attempt_of_def dest: keep split: option.splits)
  qed
  from wp_run [OF this assms(4)] show ?thesis .
qed

text \<open>
  C26. Success of an initialisation means that all of it was done. Both trigger files are gone; AIDE's initialisation was run and
  succeeded, on the files as they were but for the triggers and the backups; the database that
  checks read is a complete copy of the non-empty one that this run left, and no other file has changed since; and the
  database from before, if there was one, is in its backup (with at least one backup kept, a new name for it and older times of the older
  backups). AIDE is taken to write only its new database and log.
\<close>

theorem init_installs_database:
  assumes "slice_sort sorter" and "writes_only_new c aide" and "run_state (handleAIDEInit sorter aide stop fips c) s = (None, s')"
  shows "files s' (aideReinitPath c) = None \<and> files s' (legacyAideReinitPath c) = None \<and>
     (\<exists>s1 s2 f. run_state (runAideInitDBCmd aide stop fips) s1 = (None, s2) \<and>
        (\<forall>p. files s1 p = files s p \<or> p \<in> {aideReinitPath c, legacyAideReinitPath c} \<or>
           HasPrefix (snd p) ''aide.db.gz.backup-'' \<or> HasPrefix (snd p) ''aide.log.backup-'') \<and>
        files s2 (aideWriteDBPath c) = Some f \<and> content f \<noteq> [] \<and> holds_data s' (aideReadDBPath c) (content f) \<and>
        (\<forall>p. p \<noteq> aideReadDBPath c \<longrightarrow> files s' p = files s2 p)) \<and>
     (\<forall>db. files s (aideReadDBPath c) = Some db \<and> content db \<noteq> [] \<and> 1 \<le> dcMaxBackups c \<and>
        files s (backup_path s (aideReadDBPath c)) = None \<and>
        (\<forall>m\<in>backup_names s (FileDir c) ''aide.db.gz''. mtime s (FileDir c) m < clock s) \<longrightarrow>
        holds_data s' (backup_path s (aideReadDBPath c)) (content db))"
proof -
  obtain t s1 s2 where run: "run_state (removeAideReinitFileIfExists c) s = (None, t)" "run_state (backUpAideFiles sorter c) t = (None, s1)"
    "run_state (runAideInitDBCmd aide stop fips) s1 = (None, s2)" "run_state (updateAideDBFiles c) s2 = (None, s')"
    by (rule handleAIDEInit_steps [OF assms(3)])
  obtain f where f: "files s2 (aideWriteDBPath c) = Some f" "content f \<noteq> []" "holds_data s' (aideReadDBPath c) (content f)"
    and off: "\<forall>p. p \<noteq> aideReadDBPath c \<longrightarrow> files s' p = files s2 p" using updateAideDBFiles_ok [OF run(4)] by blast
  have t: "drops {legacyAideReinitPath c, aideReinitPath c} (files s) (files t)" "files t (legacyAideReinitPath c) = None" "files t (aideReinitPath c) = None"
    using wp_run [OF wp_removeAideReinit run(1)] by simp_all
  have s1: "files s1 p = files t p" if "\<not> HasPrefix (snd p) ''aide.db.gz.backup-''" "\<not> HasPrefix (snd p) ''aide.log.backup-''" for p
    using wp_run [OF slice_sort.wp_backUpAideFiles_off [OF assms(1), of p] run(2)] that by (simp add: backup_prefix_def)
  have gone: "files s' p = None" if "files t p = None" "snd p = ''aide.reinit''" for p
  proof -
    have "p \<noteq> aideWriteDBPath c" "p \<noteq> aideWriteLogPath c" "p \<noteq> aideReadDBPath c" using that(2) by (auto simp: path_defs)
    with run_aide_off [OF assms(2) this(1,2) run(3)] spec [OF off, of p] s1 [of p] that show ?thesis by simp
  qed
  have "files s' (aideReinitPath c) = None" "files s' (legacyAideReinitPath c) = None"
    using gone [OF t(3)] gone [OF t(2)] by (simp_all add: aideReinitPath_def legacyAideReinitPath_def)
  moreover have "files s1 p = files s p \<or> p \<in> {aideReinitPath c, legacyAideReinitPath c} \<or>
      HasPrefix (snd p) ''aide.db.gz.backup-'' \<or> HasPrefix (snd p) ''aide.log.backup-''" for p
    using s1 [of p] dropsD [OF t(1), of p] by fastforce
  moreover have "holds_data s' (backup_path s (aideReadDBPath c)) (content db)"
    if "files s (aideReadDBPath c) = Some db \<and> content db \<noteq> [] \<and> 1 \<le> dcMaxBackups c \<and> files s (backup_path s (aideReadDBPath c)) = None \<and>
      (\<forall>m\<in>backup_names s (FileDir c) ''aide.db.gz''. mtime s (FileDir c) m < clock s)" for db
    using wp_run [OF slice_sort.wp_handleAIDEInit [OF assms(1) _ _ _ _ _ assms(2)] assms(3), of db] that by simp
  ultimately show ?thesis using run(3) f off by blast
qed

lemmas machine_simps = machine_def text_file_def path_defs Stat_def Remove_def failing_def andThen_def fileStep_def closing_def
  OpenTruncate_def CopyTo_def put_file_def IsNotExist_def State_Monad.update_def

lemma good_init_runs:
  "\<exists>s'. run_state (handleAIDEInit (sort_key beModTime) good_aide (\<lambda>_. False) no_fips sample_conf) (machine []) = (None, s')"
proof -
  have aide: "run_state (runAideInitDBCmd good_aide (\<lambda>_. False) no_fips) s = (None, put_file (aideWriteDBPath sample_conf) ''new db'' s)" for s
    unfolding runAideInitDBCmd_def
    by (rule Retry_first) (simp add: good_aide_def State_Monad.update_def GetAideExitCode_def getExitCode_def aide_code_defs Let_def)
  have none: "backupsOf (machine []) d f = []" for d f by (simp add: backupsOf_def machine_def)
  show ?thesis
    by (simp add: handleAIDEInit_def aide removeAideReinitFileIfExists_def removeFileIfExists_def backUpAideFiles_def backupReadDB_def
        backupReadLog_def backupFile_def fileIsMissingOrEmpty_def pruneBackupFiles_def none [unfolded machine_def] updateAideDBFiles_def
        copyNonEmptyFile_def machine_simps Let_def)
qed

lemma good_aide_tame: "writes_only_new sample_conf good_aide"
  by (auto simp: writes_only_new_def good_aide_def State_Monad.update_def put_file_def AList.update_conv')

theorem init_installs_database_witness:
  "\<exists>s' (f :: fentry). run_state (handleAIDEInit (sort_key beModTime) good_aide (\<lambda>_. False) no_fips sample_conf) (machine []) = (None, s')
     \<and> files s' (kdir, ''aide.reinit'') = None \<and> content f \<noteq> [] \<and> holds_data s' (kdir, ''aide.db.gz'') (content f)"
proof -
  obtain s' where run: "run_state (handleAIDEInit (sort_key beModTime) good_aide (\<lambda>_. False) no_fips sample_conf) (machine []) = (None, s')"
    using good_init_runs by blast
  note installed = init_installs_database [OF stable_sort.slice_sort_axioms good_aide_tame run]
  from installed obtain f :: fentry where "content f \<noteq> []" "holds_data s' (aideReadDBPath sample_conf) (content f)" by blast
  moreover from installed have "files s' (legacyAideReinitPath sample_conf) = None" by blast
  ultimately show ?thesis using run by (intro exI [of _ s'] exI [of _ f]) (simp add: path_defs)
qed

section \<open>Backups\<close>

text \<open>
  C37. Pruning keeps the newest backups. Only backups of the file in question are ever removed; the given
  number of them stay (all of them when there are fewer), none of which is older than a removed one;
  when no removal fails exactly these stay; and an unreadable directory changes nothing.
\<close>

theorem prune_keeps_newest:
  assumes "slice_sort sorter" and "run_state (pruneBackupFiles sorter d f mx) s = (r, s')"
  shows "(\<forall>p. files s' p = files s p \<or> files s' p = None \<and> (\<exists>n\<in>backup_names s d f. p = (d, n))) \<and>
     (r = None \<longrightarrow> (\<exists>K \<subseteq> backup_names s d f. card K = min (card (backup_names s d f)) (nat mx) \<and>
        (\<forall>n\<in>K. files s' (d, n) = files s (d, n)) \<and>
        (\<forall>n\<in>backup_names s d f. \<forall>k\<in>K. files s' (d, n) = None \<longrightarrow> mtime s d n \<le> mtime s d k) \<and>
        ((\<forall>n. fault s ''remove'' (d, n) = None) \<longrightarrow> (\<forall>n\<in>backup_names s d f - K. files s' (d, n) = None)))) \<and>
     (r \<noteq> None \<longrightarrow> files s' = files s)"
proof -
  have p: "pruned d f mx s r s'" by (rule wp_run [OF wp_pruneBackupFiles [OF assms(1)] assms(2)])
  then have drops: "drops (Pair d ` backup_names s d f) (files s) (files s')" by (simp add: pruned_def)
  have "files s' p = files s p \<or> files s' p = None \<and> (\<exists>n\<in>backup_names s d f. p = (d, n))" for p
    using drops_cases [OF drops, of p] dropsD [OF drops, of p] by blast
  with p show ?thesis by (cases r) (simp_all add: pruned_def del: split_paired_All)
qed

definition two_backups :: OS where
  "two_backups = machine [((kdir, ''aide.db.gz.backup-b''), text_file ''b'' 9), ((kdir, ''aide.db.gz.backup-a''), text_file ''a'' 5),
     ((kdir, ''aide.log''), text_file ''log'' 3)]"

theorem prune_keeps_newest_witness:
  "\<exists>s'. run_state (pruneBackupFiles (sort_key beModTime) kdir ''aide.db.gz'' 1) two_backups = (None, s') \<and>
     files s' (kdir, ''aide.log'') = Some (text_file ''log'' 3)"
proof -
  obtain r s' where run: "run_state (pruneBackupFiles (sort_key beModTime) kdir ''aide.db.gz'' 1) two_backups = (r, s')" by fastforce
  moreover have "r = None" using run
    by (auto simp: pruneBackupFiles_def two_backups_def machine_def Let_def split: if_splits prod.splits)
  moreover have "''aide.log'' \<notin> backup_names two_backups kdir ''aide.db.gz''"
    by (auto simp: backup_names_iff is_backup_def backup_prefix_def split: option.splits)
  moreover have "files two_backups (kdir, ''aide.log'') = Some (text_file ''log'' 3)" by (simp add: two_backups_def machine_def)
  moreover from calculation(3) have "files s' (kdir, ''aide.log'') = files two_backups (kdir, ''aide.log'')"
    using prune_keeps_newest [OF stable_sort.slice_sort_axioms run, THEN conjunct1, rule_format, of "(kdir, ''aide.log'')"] by auto
  ultimately show ?thesis by auto
qed

section \<open>The decision to initialise\<close>

text \<open>
  The daemon panics when it cannot stat its database. If asking for the database file fails for
  another reason than that it is missing, the loop asks the missing file information for its size; in every other
  case it decides, and initialises exactly when the database is missing or empty or a re-init was triggered.
\<close>

theorem reinit_check:
  "run_state (reinitCheck c) s =
     (if fault s ''stat'' (aideReadDBPath c) \<noteq> None then None
      else let triggered = (fault s ''stat'' (aideReinitPath c) = None \<and> files s (aideReinitPath c) \<noteq> None) in
        Some ((case files s (aideReadDBPath c) of None \<Rightarrow> True | Some f \<Rightarrow> content f = []) \<or> triggered, triggered), s)"
  by (auto simp: reinitCheck_def Stat_def IsNotExist_def Let_def split: option.splits)

end
