(* ===== verification/Daemon.thy ===== *)
theory Daemon
  imports Daemon_Files
begin

text \<open>
  The daemon, \<open>src/cmd/manager/daemon.go\<close>, \<open>loops.go\<close> and \<open>logcollector.go\<close>, as a transition system. Its
  goroutines share the mutex of the AIDE files, two flags, the buffered channel of scan results, the
  unbuffered error channel, the cached FileIntegrity instance and the context; \<open>daemonState\<close> has these
  and the program point of each goroutine. One step is one access to shared state by one goroutine. What
  a goroutine does between accesses (a scan, the files, a call to the API server) is a step with
  any of its possible outcomes. The files themselves are the subject of the theory Daemon_Files.
\<close>

section \<open>State\<close>

datatype lockOwner = AideLoop | ReinitLoop | LogCollector

datatype aidePoint = ACheckInit | ACheckHold | ALock | AScan | AFiles int | AReport | AErr | ASend int | AUnlock bool | ASleep | ADone

datatype reinitPoint = RCheck | RSetInit | RRemove | RReportRemove | RErrRemove | RLock | RWork | RReport | RErr
  | RUnlock bool | RClear bool | RSleep | RDone

datatype collectorPoint = LSelect | LHandle int | LReport | LLock | LWork | LReportErr bool | LErr bool | LUnlock bool | LDone

datatype holdPoint = HSelect | HGet | HSet "FileIntegrity" | HReport | HErr | HSleep | HDone

datatype instancePoint = IGet | IWatch | IErr | IDone

datatype mainPoint = MSelect | MWait | MExit | MPanic

record daemonState =
  aide :: aidePoint
  reinit :: reinitPoint
  collector :: collectorPoint
  hold :: holdPoint
  watcher :: instancePoint
  main :: mainPoint
  initializing :: bool
  holding :: bool
  dbMux :: "lockOwner option"
  result :: "int list"
  cancelled :: bool
  fiInstance :: "FileIntegrity option"

text \<open>\<open>setInitialRuntimeState\<close> and the start of the goroutines: the result channel is empty.\<close>

definition resultCap :: nat where "resultCap = 50"

definition setInitialRuntimeState :: daemonState where
  "setInitialRuntimeState = \<lparr>aide = ACheckInit, reinit = RCheck, collector = LSelect, hold = HSelect, watcher = IGet, main = MSelect,
     initializing = False, holding = False, dbMux = None, result = [], cancelled = False, fiInstance = None\<rparr>"

section \<open>Operations of the runtime\<close>

text \<open>
  The accessors of \<open>daemonRuntime\<close>. \<open>None\<close> means that the call blocks: taking a lock that is taken, waiting for
  an instance that is not there, sending to a full channel, receiving from an empty one.
\<close>

definition Initializing :: "daemonState \<Rightarrow> bool" where
  "Initializing rt = initializing rt"

definition SetInitializing :: "bool \<Rightarrow> daemonState \<Rightarrow> daemonState" where
  "SetInitializing b rt = rt\<lparr>initializing := b\<rparr>"

definition Holding :: "daemonState \<Rightarrow> bool" where
  "Holding rt = holding rt"

definition SetHolding :: "bool \<Rightarrow> daemonState \<Rightarrow> daemonState" where
  "SetHolding b rt = rt\<lparr>holding := b\<rparr>"

definition LockAideFiles :: "lockOwner \<Rightarrow> daemonState \<Rightarrow> daemonState option" where
  "LockAideFiles who rt = (case dbMux rt of None \<Rightarrow> Some (rt\<lparr>dbMux := Some who\<rparr>) | Some _ \<Rightarrow> None)"

definition UnlockAideFiles :: "daemonState \<Rightarrow> daemonState" where
  "UnlockAideFiles rt = rt\<lparr>dbMux := None\<rparr>"

definition GetFileIntegrityInstance :: "daemonState \<Rightarrow> FileIntegrity option" where
  "GetFileIntegrityInstance rt = fiInstance rt"

definition SetFileIntegrityInstance :: "FileIntegrity \<Rightarrow> daemonState \<Rightarrow> daemonState" where
  "SetFileIntegrityInstance fi rt = rt\<lparr>fiInstance := Some fi\<rparr>"

definition SendResult :: "int \<Rightarrow> daemonState \<Rightarrow> daemonState option" where
  "SendResult r rt = (if length (result rt) < resultCap then Some (rt\<lparr>result := result rt @ [r]\<rparr>) else None)"

definition GetResult :: "daemonState \<Rightarrow> (int \<times> daemonState) option" where
  "GetResult rt = (case result rt of [] \<Rightarrow> None | r # rest \<Rightarrow> Some (r, rt\<lparr>result := rest\<rparr>))"

lemmas runtime_defs = Initializing_def SetInitializing_def Holding_def SetHolding_def UnlockAideFiles_def
  GetFileIntegrityInstance_def SetFileIntegrityInstance_def

lemma LockAideFiles_eq [simp]: "LockAideFiles who rt = Some rt' \<longleftrightarrow> dbMux rt = None \<and> rt' = rt\<lparr>dbMux := Some who\<rparr>"
  by (auto simp: LockAideFiles_def split: option.splits)

lemma SendResult_eq [simp]: "SendResult r rt = Some rt' \<longleftrightarrow> length (result rt) < resultCap \<and> rt' = rt\<lparr>result := result rt @ [r]\<rparr>"
  by (auto simp: SendResult_def)

lemma GetResult_eq [simp]: "GetResult rt = Some (r, rt') \<longleftrightarrow> (\<exists>rest. result rt = r # rest \<and> rt' = rt\<lparr>result := rest\<rparr>)"
  by (auto simp: GetResult_def split: list.splits)

section \<open>The hold-off decision\<close>

text \<open>What \<open>holdOffLoop\<close> makes of the annotations: an error when the node name is not known.\<close>

definition holdOffDecision :: "gomap \<Rightarrow> string \<Rightarrow> bool option" where
  "holdOffDecision annotations nodeName =
     (case annotations of None \<Rightarrow> Some False
      | Some ann \<Rightarrow>
          if nodeName = '''' then None
          else (case ann IntegrityHoldoffAnnotationKey of
              None \<Rightarrow> Some False
            | Some nodeList \<Rightarrow> Some (nodeList = '''' \<or> list_ex (\<lambda>node. node = nodeName) (Split comma nodeList))))"

section \<open>Steps\<close>

text \<open>\<open>aideLoop\<close>: \<open>AUnlock b\<close> goes on when \<open>b\<close>, and ends the loop otherwise.\<close>

inductive aideLoop :: "daemonState \<Rightarrow> daemonState \<Rightarrow> bool" where
  a_cancel: "aide d = ACheckInit \<Longrightarrow> cancelled d \<Longrightarrow> aideLoop d (d\<lparr>aide := ADone\<rparr>)"
| a_init: "aide d = ACheckInit \<Longrightarrow> \<not> cancelled d \<Longrightarrow> aideLoop d (d\<lparr>aide := if Initializing d then ASleep else ACheckHold\<rparr>)"
| a_hold: "aide d = ACheckHold \<Longrightarrow> aideLoop d (d\<lparr>aide := if Holding d then ASleep else ALock\<rparr>)"
| a_lock: "aide d = ALock \<Longrightarrow> LockAideFiles AideLoop d = Some rt \<Longrightarrow> aideLoop d (rt\<lparr>aide := AScan\<rparr>)"
| a_scan: "aide d = AScan \<Longrightarrow> aideLoop d (d\<lparr>aide := AFiles aideResult\<rparr>)"
| a_files: "aide d = AFiles aideResult \<Longrightarrow> aideLoop d (d\<lparr>aide := ASend aideResult\<rparr>)"
| a_files_err: "aide d = AFiles aideResult \<Longrightarrow> aideLoop d (d\<lparr>aide := AReport\<rparr>)"
| a_report: "aide d = AReport \<Longrightarrow> GetFileIntegrityInstance d \<noteq> None \<Longrightarrow> aideLoop d (d\<lparr>aide := AErr\<rparr>)"
| a_send: "aide d = ASend aideResult \<Longrightarrow> SendResult aideResult d = Some rt \<Longrightarrow> aideLoop d (rt\<lparr>aide := AUnlock True\<rparr>)"
| a_unlock: "aide d = AUnlock b \<Longrightarrow> aideLoop d ((UnlockAideFiles d)\<lparr>aide := if b then ASleep else ADone\<rparr>)"
| a_sleep: "aide d = ASleep \<Longrightarrow> aideLoop d (d\<lparr>aide := ACheckInit\<rparr>)"

text \<open>
  \<open>reinitLoop\<close> with \<open>handleAIDEInit\<close>. The deferred calls run in reverse order: the files are unlocked, then
  the flag is cleared. A panic (see \<open>reinitCheck\<close>) ends the process.
\<close>

inductive reinitLoop :: "daemonState \<Rightarrow> daemonState \<Rightarrow> bool" where
  r_cancel: "reinit d = RCheck \<Longrightarrow> cancelled d \<Longrightarrow> reinitLoop d (d\<lparr>reinit := RDone\<rparr>)"
| r_fine: "reinit d = RCheck \<Longrightarrow> \<not> cancelled d \<Longrightarrow> reinitLoop d (d\<lparr>reinit := RSleep\<rparr>)"
| r_panic: "reinit d = RCheck \<Longrightarrow> \<not> cancelled d \<Longrightarrow> reinitLoop d (d\<lparr>main := MPanic\<rparr>)"
| r_needed: "reinit d = RCheck \<Longrightarrow> \<not> cancelled d \<Longrightarrow> reinitLoop d (d\<lparr>reinit := RSetInit\<rparr>)"
| r_set: "reinit d = RSetInit \<Longrightarrow> reinitLoop d ((SetInitializing True d)\<lparr>reinit := RRemove\<rparr>)"
| r_removed: "reinit d = RRemove \<Longrightarrow> reinitLoop d (d\<lparr>reinit := RLock\<rparr>)"
| r_remove_err: "reinit d = RRemove \<Longrightarrow> reinitLoop d (d\<lparr>reinit := RReportRemove\<rparr>)"
| r_report_remove: "reinit d = RReportRemove \<Longrightarrow> GetFileIntegrityInstance d \<noteq> None \<Longrightarrow> reinitLoop d (d\<lparr>reinit := RErrRemove\<rparr>)"
| r_lock: "reinit d = RLock \<Longrightarrow> LockAideFiles ReinitLoop d = Some rt \<Longrightarrow> reinitLoop d (rt\<lparr>reinit := RWork\<rparr>)"
| r_ok: "reinit d = RWork \<Longrightarrow> reinitLoop d (d\<lparr>reinit := RUnlock True\<rparr>)"
| r_err: "reinit d = RWork \<Longrightarrow> reinitLoop d (d\<lparr>reinit := RReport\<rparr>)"
| r_report: "reinit d = RReport \<Longrightarrow> GetFileIntegrityInstance d \<noteq> None \<Longrightarrow> reinitLoop d (d\<lparr>reinit := RErr\<rparr>)"
| r_unlock: "reinit d = RUnlock b \<Longrightarrow> reinitLoop d ((UnlockAideFiles d)\<lparr>reinit := RClear b\<rparr>)"
| r_clear: "reinit d = RClear b \<Longrightarrow> reinitLoop d ((SetInitializing False d)\<lparr>reinit := if b then RSleep else RDone\<rparr>)"
| r_sleep: "reinit d = RSleep \<Longrightarrow> reinitLoop d (d\<lparr>reinit := RCheck\<rparr>)"

text \<open>
  \<open>logCollectorMainLoop\<close> with \<open>handleFailedResult\<close>. The time-out case of the select changes nothing and is left
  out. An empty log ends the loop without an error being sent; a failed upload is sent as an
  error but the loop goes on.
\<close>

inductive logCollectorMainLoop :: "daemonState \<Rightarrow> daemonState \<Rightarrow> bool" where
  l_cancel: "collector d = LSelect \<Longrightarrow> cancelled d \<Longrightarrow> logCollectorMainLoop d (d\<lparr>collector := LDone\<rparr>)"
| l_recv: "collector d = LSelect \<Longrightarrow> GetResult d = Some (lastResult, rt) \<Longrightarrow> logCollectorMainLoop d (rt\<lparr>collector := LHandle lastResult\<rparr>)"
| l_skip: "collector d = LHandle n \<Longrightarrow> n = -1 \<or> n = 18 \<Longrightarrow> logCollectorMainLoop d (d\<lparr>collector := LSelect\<rparr>)"
| l_report: "collector d = LHandle n \<Longrightarrow> n = 17 \<or> n = 0 \<Longrightarrow> logCollectorMainLoop d (d\<lparr>collector := LReport\<rparr>)"
| l_reported: "collector d = LReport \<Longrightarrow> GetFileIntegrityInstance d \<noteq> None \<Longrightarrow> logCollectorMainLoop d (d\<lparr>collector := LSelect\<rparr>)"
| l_failed: "collector d = LHandle n \<Longrightarrow> n \<notin> {-1, 18, 17, 0} \<Longrightarrow> logCollectorMainLoop d (d\<lparr>collector := LLock\<rparr>)"
| l_lock: "collector d = LLock \<Longrightarrow> LockAideFiles LogCollector d = Some rt \<Longrightarrow> logCollectorMainLoop d (rt\<lparr>collector := LWork\<rparr>)"
| l_empty: "collector d = LWork \<Longrightarrow> logCollectorMainLoop d (d\<lparr>collector := LUnlock False\<rparr>)"
| l_uploaded: "collector d = LWork \<Longrightarrow> GetFileIntegrityInstance d \<noteq> None \<Longrightarrow> logCollectorMainLoop d (d\<lparr>collector := LUnlock True\<rparr>)"
| l_fatal: "collector d = LWork \<Longrightarrow> logCollectorMainLoop d (d\<lparr>collector := LReportErr False\<rparr>)"
| l_upload_err: "collector d = LWork \<Longrightarrow> GetFileIntegrityInstance d \<noteq> None \<Longrightarrow> logCollectorMainLoop d (d\<lparr>collector := LReportErr True\<rparr>)"
| l_report_err: "collector d = LReportErr b \<Longrightarrow> GetFileIntegrityInstance d \<noteq> None \<Longrightarrow> logCollectorMainLoop d (d\<lparr>collector := LErr b\<rparr>)"
| l_unlock: "collector d = LUnlock b \<Longrightarrow> logCollectorMainLoop d ((UnlockAideFiles d)\<lparr>collector := if b then LSelect else LDone\<rparr>)"

text \<open>
  \<open>holdOffLoop\<close>. \<open>GetFileIntegrityInstance\<close> waits for the instance without looking at the context.
\<close>

inductive holdOffLoop :: "string \<Rightarrow> daemonState \<Rightarrow> daemonState \<Rightarrow> bool" for nodeName where
  h_cancel: "hold d = HSelect \<Longrightarrow> cancelled d \<Longrightarrow> holdOffLoop nodeName d (d\<lparr>hold := HDone\<rparr>)"
| h_select: "hold d = HSelect \<Longrightarrow> \<not> cancelled d \<Longrightarrow> holdOffLoop nodeName d (d\<lparr>hold := HGet\<rparr>)"
| h_get: "hold d = HGet \<Longrightarrow> GetFileIntegrityInstance d = Some fi \<Longrightarrow> holdOffLoop nodeName d (d\<lparr>hold := HSet fi\<rparr>)"
| h_set: "hold d = HSet fi \<Longrightarrow> holdOffDecision (Annotations fi) nodeName = Some b \<Longrightarrow>
     holdOffLoop nodeName d ((SetHolding b d)\<lparr>hold := HSleep\<rparr>)"
| h_err: "hold d = HSet fi \<Longrightarrow> holdOffDecision (Annotations fi) nodeName = None \<Longrightarrow> holdOffLoop nodeName d (d\<lparr>hold := HReport\<rparr>)"
| h_report: "hold d = HReport \<Longrightarrow> GetFileIntegrityInstance d \<noteq> None \<Longrightarrow> holdOffLoop nodeName d (d\<lparr>hold := HErr\<rparr>)"
| h_sleep: "hold d = HSleep \<Longrightarrow> holdOffLoop nodeName d (d\<lparr>hold := HSelect\<rparr>)"

text \<open>\<open>integrityInstanceLoop\<close>, not in the wait group: the first fetch, then the watch.\<close>

inductive integrityInstanceLoop :: "daemonState \<Rightarrow> daemonState \<Rightarrow> bool" where
  i_get: "watcher d = IGet \<Longrightarrow> integrityInstanceLoop d ((SetFileIntegrityInstance fi d)\<lparr>watcher := IWatch\<rparr>)"
| i_fail: "watcher d = IGet \<Longrightarrow> integrityInstanceLoop d (d\<lparr>watcher := IErr\<rparr>)"
| i_event: "watcher d = IWatch \<Longrightarrow> integrityInstanceLoop d (SetFileIntegrityInstance fi d)"
| i_end: "watcher d = IWatch \<Longrightarrow> integrityInstanceLoop d (d\<lparr>watcher := IErr\<rparr>)"

text \<open>
  \<open>daemonMainLoop\<close>: a send on the unbuffered error channel happens together with the receive here,
  and only while the main routine selects. Waiting ends when the four loops have.
\<close>

inductive daemonMainLoop :: "daemonState \<Rightarrow> daemonState \<Rightarrow> bool" where
  m_done: "main d = MSelect \<Longrightarrow> cancelled d \<Longrightarrow> daemonMainLoop d (d\<lparr>main := MWait\<rparr>)"
| m_signal: "main d = MSelect \<Longrightarrow> daemonMainLoop d (d\<lparr>cancelled := True\<rparr>)"
| m_aide: "main d = MSelect \<Longrightarrow> aide d = AErr \<Longrightarrow> daemonMainLoop d (d\<lparr>aide := AUnlock False, cancelled := True\<rparr>)"
| m_remove: "main d = MSelect \<Longrightarrow> reinit d = RErrRemove \<Longrightarrow> daemonMainLoop d (d\<lparr>reinit := RClear False, cancelled := True\<rparr>)"
| m_reinit: "main d = MSelect \<Longrightarrow> reinit d = RErr \<Longrightarrow> daemonMainLoop d (d\<lparr>reinit := RUnlock False, cancelled := True\<rparr>)"
| m_collector: "main d = MSelect \<Longrightarrow> collector d = LErr b \<Longrightarrow> daemonMainLoop d (d\<lparr>collector := LUnlock b, cancelled := True\<rparr>)"
| m_hold: "main d = MSelect \<Longrightarrow> hold d = HErr \<Longrightarrow> daemonMainLoop d (d\<lparr>hold := HDone, cancelled := True\<rparr>)"
| m_watcher: "main d = MSelect \<Longrightarrow> watcher d = IErr \<Longrightarrow> daemonMainLoop d (d\<lparr>watcher := IDone, cancelled := True\<rparr>)"
| m_exit: "main d = MWait \<Longrightarrow> aide d = ADone \<Longrightarrow> reinit d = RDone \<Longrightarrow> collector d = LDone \<Longrightarrow> hold d = HDone \<Longrightarrow>
     daemonMainLoop d (d\<lparr>main := MExit\<rparr>)"

text \<open>The daemon on a node: any goroutine may move, until the process has ended.\<close>

definition dstep :: "string \<Rightarrow> daemonState \<Rightarrow> daemonState \<Rightarrow> bool" where
  "dstep nodeName d d' \<longleftrightarrow> main d \<noteq> MExit \<and> main d \<noteq> MPanic \<and>
     (aideLoop d d' \<or> reinitLoop d d' \<or> logCollectorMainLoop d d' \<or> holdOffLoop nodeName d d' \<or>
      integrityInstanceLoop d d' \<or> daemonMainLoop d d')"

inductive reachable :: "string \<Rightarrow> daemonState \<Rightarrow> bool" for nodeName where
  start: "reachable nodeName setInitialRuntimeState"
| move: "reachable nodeName d \<Longrightarrow> dstep nodeName d d' \<Longrightarrow> reachable nodeName d'"

end
