(* ===== verification/Daemon_Properties.thy ===== *)
theory Daemon_Properties
  imports Daemon
begin

text \<open>
  Properties of the running daemon: an invariant of all its reachable states, by rule induction
  over the steps of its goroutines; the agreement of the hold-off decision with the one of the controllers;
  that a cancelled daemon comes to rest; and the states in which it never exits.
\<close>

section \<open>The invariant\<close>

text \<open>The program points at which a goroutine has the lock, and between setting and clearing the flag.\<close>

fun aideLocked :: "aidePoint \<Rightarrow> bool" where
  "aideLocked AScan = True" | "aideLocked (AFiles _) = True" | "aideLocked AReport = True" | "aideLocked AErr = True"
| "aideLocked (ASend _) = True" | "aideLocked (AUnlock _) = True" | "aideLocked _ = False"

fun reinitLocked :: "reinitPoint \<Rightarrow> bool" where
  "reinitLocked RWork = True" | "reinitLocked RReport = True" | "reinitLocked RErr = True" | "reinitLocked (RUnlock _) = True"
| "reinitLocked _ = False"

fun collectorLocked :: "collectorPoint \<Rightarrow> bool" where
  "collectorLocked LWork = True" | "collectorLocked (LReportErr _) = True" | "collectorLocked (LErr _) = True"
| "collectorLocked (LUnlock _) = True" | "collectorLocked _ = False"

fun initPoint :: "reinitPoint \<Rightarrow> bool" where
  "initPoint RCheck = False" | "initPoint RSetInit = False" | "initPoint RSleep = False" | "initPoint RDone = False" | "initPoint _ = True"

definition locks_agree :: "daemonState \<Rightarrow> bool" where
  "locks_agree d \<longleftrightarrow> (aideLocked (aide d) \<longleftrightarrow> dbMux d = Some AideLoop) \<and> (reinitLocked (reinit d) \<longleftrightarrow> dbMux d = Some ReinitLoop) \<and>
     (collectorLocked (collector d) \<longleftrightarrow> dbMux d = Some LogCollector)"

definition shutdown_agrees :: "daemonState \<Rightarrow> bool" where
  "shutdown_agrees d \<longleftrightarrow> (main d = MWait \<or> aide d \<in> {ADone, AUnlock False} \<or> reinit d \<in> {RDone, RClear False, RUnlock False} \<or> hold d = HDone \<or> watcher d = IDone \<longrightarrow> cancelled d) \<and>
     (main d = MExit \<longrightarrow> aide d = ADone \<and> reinit d = RDone \<and> collector d = LDone \<and> hold d = HDone)"

definition instance_agrees :: "daemonState \<Rightarrow> bool" where
  "instance_agrees d \<longleftrightarrow> (watcher d = IGet \<longrightarrow> fiInstance d = None) \<and> (watcher d = IWatch \<longrightarrow> fiInstance d \<noteq> None) \<and>
     (fiInstance d = None \<longrightarrow> hold d \<in> {HSelect, HGet, HDone} \<and> aide d \<noteq> AErr \<and> reinit d \<noteq> RErr \<and> reinit d \<noteq> RErrRemove \<and> (\<forall>b. collector d \<noteq> LErr b))"

definition daemon_ok :: "daemonState \<Rightarrow> bool" where
  "daemon_ok d \<longleftrightarrow> locks_agree d \<and> (initializing d \<longleftrightarrow> initPoint (reinit d)) \<and> length (result d) \<le> resultCap \<and>
     shutdown_agrees d \<and> instance_agrees d"

lemmas daemon_ok_defs = daemon_ok_def locks_agree_def shutdown_agrees_def instance_agrees_def

text \<open>The cases of a step: which goroutine moved, and by which rule. Each invariant is kept by each of them.\<close>

lemmas step_cases = conjE disjE aideLoop.cases reinitLoop.cases logCollectorMainLoop.cases holdOffLoop.cases
  integrityInstanceLoop.cases daemonMainLoop.cases

lemma step_locks: "dstep nodeName d d' \<Longrightarrow> locks_agree d \<Longrightarrow> locks_agree d'"
  unfolding dstep_def by (elim step_cases; clarsimp simp: locks_agree_def runtime_defs)

lemma step_shutdown: "dstep nodeName d d' \<Longrightarrow> shutdown_agrees d \<Longrightarrow> shutdown_agrees d'"
  unfolding dstep_def by (elim step_cases; clarsimp simp: shutdown_agrees_def runtime_defs)

lemma step_instance: "dstep nodeName d d' \<Longrightarrow> instance_agrees d \<Longrightarrow> instance_agrees d'"
  unfolding dstep_def by (elim step_cases; clarsimp simp: instance_agrees_def runtime_defs)

lemma step_flag: "dstep nodeName d d' \<Longrightarrow> initializing d \<longleftrightarrow> initPoint (reinit d) \<Longrightarrow> initializing d' \<longleftrightarrow> initPoint (reinit d')"
  unfolding dstep_def by (elim step_cases; clarsimp simp: runtime_defs)

lemma step_results: "dstep nodeName d d' \<Longrightarrow> length (result d) \<le> resultCap \<Longrightarrow> length (result d') \<le> resultCap"
  unfolding dstep_def by (elim step_cases; clarsimp simp: runtime_defs)

lemma reachable_ok: "reachable nodeName d \<Longrightarrow> daemon_ok d"
proof (induction rule: reachable.induct)
  case start
  show ?case by (simp add: setInitialRuntimeState_def daemon_ok_defs)
next
  case (move d d')
  then show ?case unfolding daemon_ok_def
    using step_locks step_shutdown step_instance step_flag step_results by blast
qed

section \<open>Shutting down\<close>

text \<open>
  How many steps a goroutine still needs at most once the context is cancelled. A scan that is sent makes a result, whose
  handling is paid for by the scan; the main routine has its own steps to take.
\<close>

fun aideRank :: "aidePoint \<Rightarrow> nat" where
  "aideRank ADone = 0" | "aideRank ACheckInit = 1" | "aideRank ASleep = 2" | "aideRank (AUnlock _) = 3" | "aideRank AErr = 4"
| "aideRank AReport = 5" | "aideRank (ASend _) = 14" | "aideRank (AFiles _) = 15" | "aideRank AScan = 16" | "aideRank ALock = 17" | "aideRank ACheckHold = 18"

fun reinitRank :: "reinitPoint \<Rightarrow> nat" where
  "reinitRank RDone = 0" | "reinitRank RCheck = 1" | "reinitRank RSleep = 2" | "reinitRank (RClear _) = 3" | "reinitRank (RUnlock _) = 4"
| "reinitRank RErr = 5" | "reinitRank RReport = 6" | "reinitRank RWork = 7" | "reinitRank RLock = 8" | "reinitRank RErrRemove = 4"
| "reinitRank RReportRemove = 5" | "reinitRank RRemove = 9" | "reinitRank RSetInit = 10"

fun collectorRank :: "collectorPoint \<Rightarrow> nat" where
  "collectorRank LDone = 0" | "collectorRank LSelect = 1" | "collectorRank (LUnlock _) = 2" | "collectorRank (LErr _) = 3"
| "collectorRank (LReportErr _) = 4" | "collectorRank LWork = 5" | "collectorRank LLock = 6" | "collectorRank LReport = 2" | "collectorRank (LHandle _) = 7"

fun holdRank :: "holdPoint \<Rightarrow> nat" where
  "holdRank HDone = 0" | "holdRank HSelect = 1" | "holdRank HSleep = 2" | "holdRank HErr = 1" | "holdRank HReport = 2"
| "holdRank (HSet _) = 3" | "holdRank HGet = 4"

definition rank :: "daemonState \<Rightarrow> nat" where
  "rank d = aideRank (aide d) + reinitRank (reinit d) + collectorRank (collector d) + holdRank (hold d)"

lemma rank_0: "rank d = 0 \<longleftrightarrow> aide d = ADone \<and> reinit d = RDone \<and> collector d = LDone \<and> hold d = HDone"
proof -
  have "aideRank a = 0 \<longleftrightarrow> a = ADone" "reinitRank r = 0 \<longleftrightarrow> r = RDone" "collectorRank c = 0 \<longleftrightarrow> c = LDone" "holdRank h = 0 \<longleftrightarrow> h = HDone" for a r c h
    by ((cases a; simp), (cases r; simp), (cases c; simp), (cases h; simp))
  then show ?thesis by (simp add: rank_def)
qed


fun mainRank :: "mainPoint \<Rightarrow> nat" where
  "mainRank MSelect = 2" | "mainRank MWait = 1" | "mainRank _ = 0"

definition work :: "daemonState \<Rightarrow> nat" where
  "work d = rank d + 10 * length (result d) + mainRank (main d)"

text \<open>Where the goroutines that the process waits for are. The other steps are those of the watcher, and further signals.\<close>

definition points :: "daemonState \<Rightarrow> aidePoint \<times> reinitPoint \<times> collectorPoint \<times> holdPoint \<times> mainPoint" where
  "points d = (aide d, reinit d, collector d, hold d, main d)"

lemmas work_simps = work_def rank_def points_def runtime_defs

lemma step_work:
  "dstep nodeName d d' \<Longrightarrow> cancelled d \<Longrightarrow> points d' = points d \<and> work d' = work d \<or> points d' \<noteq> points d \<and> work d' < work d"
  unfolding dstep_def by (elim step_cases; clarsimp simp: work_simps)

lemma step_cancelled: "dstep nodeName d d' \<Longrightarrow> cancelled d \<Longrightarrow> cancelled d'"
  unfolding dstep_def by (elim step_cases; clarsimp simp: runtime_defs)

lemma step_panic: "dstep nodeName d d' \<Longrightarrow> (main d = MPanic \<longrightarrow> \<not> cancelled d) \<Longrightarrow> (main d' = MPanic \<longrightarrow> \<not> cancelled d')"
  unfolding dstep_def by (elim step_cases; clarsimp simp: runtime_defs)

lemma reachable_panic: "reachable nodeName d \<Longrightarrow> main d = MPanic \<Longrightarrow> \<not> cancelled d"
  by (induction rule: reachable.induct) (use step_panic in \<open>blast | simp add: setInitialRuntimeState_def\<close>)+

text \<open>A run in which the loops and the main routine move \<open>n\<close> times, with any number of other steps between.\<close>

inductive loop_moves :: "string \<Rightarrow> nat \<Rightarrow> daemonState \<Rightarrow> daemonState \<Rightarrow> bool" for nodeName where
  none: "loop_moves nodeName 0 d d"
| idle: "loop_moves nodeName n d d' \<Longrightarrow> dstep nodeName d' d'' \<Longrightarrow> points d'' = points d' \<Longrightarrow> loop_moves nodeName n d d''"
| moved: "loop_moves nodeName n d d' \<Longrightarrow> dstep nodeName d' d'' \<Longrightarrow> points d'' \<noteq> points d' \<Longrightarrow> loop_moves nodeName (Suc n) d d''"

lemma loop_moves_work: "loop_moves nodeName n d d' \<Longrightarrow> cancelled d \<Longrightarrow> cancelled d' \<and> n + work d' \<le> work d"
proof (induction rule: loop_moves.induct)
  case (idle n d d' d'')
  with step_work [OF idle.hyps(2)] step_cancelled [OF idle.hyps(2)] show ?case by auto
next
  case (moved n d d' d'')
  with step_work [OF moved.hyps(2)] step_cancelled [OF moved.hyps(2)] show ?case by auto
qed simp

lemma loop_moves_reachable: "loop_moves nodeName n d d' \<Longrightarrow> reachable nodeName d \<Longrightarrow> reachable nodeName d'"
  by (induction rule: loop_moves.induct) (auto intro: move)

text \<open>
  The three ways in which a loop waits for something that need not come: the receiver of its error, room for its result, the
  instance.
\<close>

definition at_error :: "daemonState \<Rightarrow> bool" where
  "at_error d \<longleftrightarrow> aide d = AErr \<or> reinit d = RErr \<or> reinit d = RErrRemove \<or> collector d \<in> {LErr True, LErr False} \<or> hold d = HErr"

definition at_full :: "daemonState \<Rightarrow> bool" where
  "at_full d \<longleftrightarrow> length (result d) = resultCap \<and> (case aide d of ASend _ \<Rightarrow> True | _ \<Rightarrow> False)"

definition at_instance :: "daemonState \<Rightarrow> bool" where
  "at_instance d \<longleftrightarrow> fiInstance d = None \<and> (aide d = AReport \<or> reinit d \<in> {RReport, RReportRemove} \<or>
     collector d \<in> {LReport, LReportErr True, LReportErr False} \<or> hold d \<in> {HGet, HReport})"

definition draining :: "daemonState \<Rightarrow> bool" where
  "draining d \<longleftrightarrow> main d = MWait \<and> cancelled d \<and> length (result d) \<le> resultCap \<and> \<not> at_error d \<and> \<not> at_full d \<and> \<not> at_instance d"

lemmas drain_simps = draining_def at_error_def at_full_def at_instance_def

definition movable :: "string \<Rightarrow> daemonState \<Rightarrow> bool" where
  "movable nodeName d \<longleftrightarrow> (\<exists>d'. dstep nodeName d d' \<and> points d' \<noteq> points d)"

lemma go:
  "aideLoop d d' \<Longrightarrow> draining d \<Longrightarrow> points d' \<noteq> points d \<Longrightarrow> movable nodeName d"
  "reinitLoop d d' \<Longrightarrow> draining d \<Longrightarrow> points d' \<noteq> points d \<Longrightarrow> movable nodeName d"
  "logCollectorMainLoop d d' \<Longrightarrow> draining d \<Longrightarrow> points d' \<noteq> points d \<Longrightarrow> movable nodeName d"
  "holdOffLoop nodeName d d' \<Longrightarrow> draining d \<Longrightarrow> points d' \<noteq> points d \<Longrightarrow> movable nodeName d"
  by (auto simp: movable_def dstep_def draining_def)

text \<open>The steps that wait for something, without the state after the wait as a variable.\<close>

lemma waits:
  "aide d = ALock \<Longrightarrow> dbMux d = None \<Longrightarrow> aideLoop d (d\<lparr>dbMux := Some AideLoop, aide := AScan\<rparr>)"
  "aide d = ASend r \<Longrightarrow> length (result d) < resultCap \<Longrightarrow> aideLoop d (d\<lparr>result := result d @ [r], aide := AUnlock True\<rparr>)"
  "reinit d = RLock \<Longrightarrow> dbMux d = None \<Longrightarrow> reinitLoop d (d\<lparr>dbMux := Some ReinitLoop, reinit := RWork\<rparr>)"
  "collector d = LLock \<Longrightarrow> dbMux d = None \<Longrightarrow> logCollectorMainLoop d (d\<lparr>dbMux := Some LogCollector, collector := LWork\<rparr>)"
  "hold d = HGet \<Longrightarrow> fiInstance d \<noteq> None \<Longrightarrow> holdOffLoop nodeName d (d\<lparr>hold := HSet (the (fiInstance d))\<rparr>)"
  using a_lock [of d "d\<lparr>dbMux := Some AideLoop\<rparr>"] a_send [of d r "d\<lparr>result := result d @ [r]\<rparr>"]
    r_lock [of d "d\<lparr>dbMux := Some ReinitLoop\<rparr>"] l_lock [of d "d\<lparr>dbMux := Some LogCollector\<rparr>"] h_get [of d "the (fiInstance d)"]
  by (auto simp: runtime_defs)

lemmas aide_go = waits(1-2) [THEN go(1)] a_cancel [THEN go(1)] a_hold [THEN go(1)] a_scan [THEN go(1)] a_files [THEN go(1)]
  a_report [THEN go(1)] a_unlock [THEN go(1)] a_sleep [THEN go(1)]
lemmas reinit_go = waits(3) [THEN go(2)] r_cancel [THEN go(2)] r_set [THEN go(2)] r_removed [THEN go(2)] r_report_remove [THEN go(2)]
  r_ok [THEN go(2)] r_report [THEN go(2)] r_unlock [THEN go(2)] r_clear [THEN go(2)] r_sleep [THEN go(2)]
lemmas collector_go = waits(4) [THEN go(3)] l_cancel [THEN go(3)] l_skip [THEN go(3)] l_report [THEN go(3)] l_failed [THEN go(3)]
  l_reported [THEN go(3)] l_empty [THEN go(3)] l_report_err [THEN go(3)] l_unlock [THEN go(3)]
lemmas hold_go = waits(5) [THEN go(4)] h_cancel [THEN go(4)] h_set [THEN go(4)] h_err [THEN go(4)] h_report [THEN go(4)]
  h_sleep [THEN go(4)]

lemma aide_moves: "draining d \<Longrightarrow> aide d \<noteq> ADone \<Longrightarrow> dbMux d = None \<or> aideLocked (aide d) \<Longrightarrow> movable nodeName d"
  by (cases "aide d"; (rule aide_go, assumption)?; simp add: drain_simps points_def runtime_defs)

lemma reinit_moves: "draining d \<Longrightarrow> reinit d \<noteq> RDone \<Longrightarrow> dbMux d = None \<or> reinitLocked (reinit d) \<Longrightarrow> movable nodeName d"
  by (cases "reinit d"; (rule reinit_go, assumption)?; simp add: drain_simps points_def runtime_defs)

lemma collector_moves: "draining d \<Longrightarrow> collector d \<noteq> LDone \<Longrightarrow> dbMux d = None \<or> collectorLocked (collector d) \<Longrightarrow> movable nodeName d"
proof (cases "collector d")
  case (LHandle n)
  assume d: "draining d"
  consider "n = -1 \<or> n = 18" | "n = 17 \<or> n = 0" | "n \<notin> {-1, 18, 17, 0}" by blast
  then show ?thesis
    by cases (rule collector_go(3,4,5) [OF LHandle _ d], assumption, insert LHandle, simp add: points_def)+
qed ((rule collector_go, assumption)?; auto simp: drain_simps points_def runtime_defs)+

lemma hold_moves: "draining d \<Longrightarrow> hold d \<noteq> HDone \<Longrightarrow> movable nodeName d"
proof (cases "hold d")
  case (HSet fi)
  assume d: "draining d"
  show ?thesis
  proof (cases "holdOffDecision (Annotations fi) nodeName")
    case None
    show ?thesis by (rule hold_go(4) [OF HSet None d]) (simp add: points_def HSet)
  next
    case (Some b)
    show ?thesis by (rule hold_go(3) [OF HSet Some d]) (simp add: points_def HSet runtime_defs)
  qed
qed ((rule hold_go, assumption)?; simp add: drain_simps points_def runtime_defs)+

text \<open>Whoever has the lock can move; when nobody has it, everybody can; and when all have ended, the main routine can.\<close>

lemma draining_moves:
  assumes "draining d" and "locks_agree d"
  shows "movable nodeName d"
proof (cases "rank d = 0")
  case True
  with assms(1) m_exit [of d] have "dstep nodeName d (d\<lparr>main := MExit\<rparr>)" by (simp add: dstep_def rank_0 draining_def)
  then show ?thesis using assms(1) by (auto simp: movable_def points_def draining_def)
next
  case False
  show ?thesis
  proof (cases "dbMux d")
    case None
    with assms False show ?thesis
      using aide_moves [of d] reinit_moves [of d] collector_moves [of d] hold_moves [of d] by (auto simp: rank_0)
  next
    case (Some g)
    with assms(2) have "aideLocked (aide d) \<or> reinitLocked (reinit d) \<or> collectorLocked (collector d)"
      by (cases g) (auto simp: locks_agree_def)
    with assms(1) show ?thesis
      using aide_moves [of d] reinit_moves [of d] collector_moves [of d]
        aideLocked.simps reinitLocked.simps collectorLocked.simps by metis
  qed
qed

lemma cancelled_rests:
  assumes "reachable nodeName d" and "cancelled d" and "\<not> movable nodeName d"
  shows "main d = MExit \<or> main d = MWait \<and> (at_error d \<or> at_full d \<or> at_instance d)"
proof (cases "main d")
  case MSelect
  then have "dstep nodeName d (d\<lparr>main := MWait\<rparr>)" using m_done [of d] assms(2) by (simp add: dstep_def)
  then show ?thesis using assms(3) MSelect by (auto simp: movable_def points_def)
next
  case MWait
  have "locks_agree d" "length (result d) \<le> resultCap" using reachable_ok [OF assms(1)] by (simp_all add: daemon_ok_def)
  then show ?thesis using draining_moves [of d] assms MWait by (auto simp: draining_def)
qed (use reachable_panic [OF assms(1)] assms(2) in auto)

lemma work_bound:
  assumes "length (result d) \<le> resultCap"
  shows "work d \<le> 541"
proof -
  have "aideRank a \<le> 18" "reinitRank r \<le> 10" "collectorRank c \<le> 7" "holdRank h \<le> 4" "mainRank m \<le> 2" for a r c h m
    by ((cases a; simp), (cases r; simp), (cases c; simp), (cases h; simp), (cases m; simp))
  from this(1) [of "aide d"] this(2) [of "reinit d"] this(3) [of "collector d"] this(4) [of "hold d"] this(5) [of "main d"] assms
  show ?thesis by (simp add: work_def rank_def resultCap_def)
qed

text \<open>
  C13. Once the context is cancelled, shutting down comes to an end: whatever the daemon was doing, its four loops and the main routine
  together take at most 541 more steps, in every interleaving and with every outcome of their work. When none of them can take
  another one, either the process has exited, or the main routine waits for a loop which is blocked in one of three ways: it sends
  an error that is no longer received, its result finds the channel full, or it waits for the FileIntegrity, which was never
  fetched. The lock of the AIDE files alone never stands in the way.
\<close>

theorem shutdown_terminates:
  assumes "reachable nodeName d" and "cancelled d" and "loop_moves nodeName n d d'"
  shows "n \<le> work d \<and> work d \<le> 541 \<and>
     ((\<forall>d''. dstep nodeName d' d'' \<longrightarrow> points d'' = points d') \<longrightarrow>
        main d' = MExit \<or> main d' = MWait \<and> (at_error d' \<or> at_full d' \<or> at_instance d'))"
proof -
  have "work d \<le> 541" using reachable_ok [OF assms(1)] work_bound by (simp add: daemon_ok_def)
  moreover have "cancelled d'" "n \<le> work d" using loop_moves_work [OF assms(3,2)] by simp_all
  moreover have "reachable nodeName d'" by (rule loop_moves_reachable [OF assms(3,1)])
  ultimately show ?thesis using cancelled_rests [of nodeName d'] by (auto simp: movable_def)
qed

abbreviation sample_signalled :: daemonState where
  "sample_signalled \<equiv> setInitialRuntimeState\<lparr>cancelled := True\<rparr>"

abbreviation sample_exited :: daemonState where
  "sample_exited \<equiv> sample_signalled\<lparr>aide := ADone, reinit := RDone, collector := LDone, hold := HDone, main := MExit\<rparr>"

lemma sample_shutdown: "loop_moves nodeName 6 sample_signalled sample_exited"
proof -
  let ?d1 = "sample_signalled\<lparr>main := MWait\<rparr>" let ?d2 = "?d1\<lparr>aide := ADone\<rparr>" let ?d3 = "?d2\<lparr>reinit := RDone\<rparr>"
  let ?d4 = "?d3\<lparr>collector := LDone\<rparr>" let ?d5 = "?d4\<lparr>hold := HDone\<rparr>" let ?d6 = "?d5\<lparr>main := MExit\<rparr>"
  note s = dstep_def points_def setInitialRuntimeState_def
  have "dstep nodeName sample_signalled ?d1" using m_done [of sample_signalled] by (simp add: s)
  moreover have "dstep nodeName ?d1 ?d2" using a_cancel [of ?d1] by (simp add: s)
  moreover have "dstep nodeName ?d2 ?d3" using r_cancel [of ?d2] by (simp add: s)
  moreover have "dstep nodeName ?d3 ?d4" using l_cancel [of ?d3] by (simp add: s)
  moreover have "dstep nodeName ?d4 ?d5" using h_cancel [of ?d4] by (simp add: s)
  moreover have "dstep nodeName ?d5 ?d6" using m_exit [of ?d5] by (simp add: s)
  ultimately have "loop_moves nodeName (Suc (Suc (Suc (Suc (Suc (Suc 0)))))) sample_signalled ?d6"
    by (intro moved [OF moved [OF moved [OF moved [OF moved [OF moved [OF none]]]]]]) (assumption | simp add: points_def setInitialRuntimeState_def)+
  then show ?thesis by (simp add: setInitialRuntimeState_def numeral_eq_Suc)
qed

lemma sample_signal: "reachable nodeName sample_signalled"
  using move [OF start, of nodeName sample_signalled] m_signal [of setInitialRuntimeState]
  by (simp add: dstep_def setInitialRuntimeState_def)

theorem shutdown_terminates_witness:
  "reachable ''n1'' sample_signalled \<and> loop_moves ''n1'' 6 sample_signalled sample_exited \<and>
   6 \<le> work sample_signalled \<and> work sample_signalled \<le> 541 \<and> main sample_exited = MExit"
  using shutdown_terminates [OF sample_signal _ sample_shutdown, of "''n1''"] sample_signal sample_shutdown
  by (simp add: setInitialRuntimeState_def)

section \<open>The invariant, stated\<close>

text \<open>
  C7. In every state the daemon can get into, at most one of scan, (re-)initialisation and log upload works on the AIDE
  files, and the lock is free exactly when none does; the flag that keeps scans away is set exactly while
  an initialisation is under way; at most 50 results are waiting; the main routine waits for the loops only after
  the context is cancelled, and has ended only when all of them have.
\<close>

theorem daemon_invariant:
  assumes "reachable nodeName d"
  shows "\<not> (aideLocked (aide d) \<and> reinitLocked (reinit d)) \<and> \<not> (aideLocked (aide d) \<and> collectorLocked (collector d)) \<and>
     \<not> (reinitLocked (reinit d) \<and> collectorLocked (collector d)) \<and>
     (dbMux d = None \<longleftrightarrow> \<not> aideLocked (aide d) \<and> \<not> reinitLocked (reinit d) \<and> \<not> collectorLocked (collector d)) \<and>
     (initializing d \<longleftrightarrow> initPoint (reinit d)) \<and> length (result d) \<le> 50 \<and>
     (main d = MWait \<longrightarrow> cancelled d) \<and>
     (main d = MExit \<longrightarrow> aide d = ADone \<and> reinit d = RDone \<and> collector d = LDone \<and> hold d = HDone)"
proof -
  have ok: "daemon_ok d" by (rule reachable_ok [OF assms])
  have "dbMux d = None \<longleftrightarrow> \<not> aideLocked (aide d) \<and> \<not> reinitLocked (reinit d) \<and> \<not> collectorLocked (collector d)"
    using ok by (cases "dbMux d"; (cases "the (dbMux d)")?) (auto simp: daemon_ok_def locks_agree_def)
  with ok show ?thesis by (auto simp: daemon_ok_defs resultCap_def)
qed

theorem daemon_invariant_witness:
  "reachable ''n1'' setInitialRuntimeState \<and> dbMux setInitialRuntimeState = None \<and> \<not> aideLocked (aide setInitialRuntimeState)"
  using daemon_invariant [OF start [of "''n1''"]] start [of "''n1''"] by (auto simp: setInitialRuntimeState_def)

section \<open>The hold-off decision\<close>

text \<open>
  The daemon holds a node off exactly when the controllers count it as held off: for a node whose name is known, the decision
  read from the cached instance is that of \<open>IsNodeInHoldoff\<close>. Without a name the daemon reports an error as soon
  as there are annotations, whatever they are.
\<close>

theorem holdoff_decisions_agree:
  "(nodeName \<noteq> '''' \<longrightarrow> holdOffDecision (Annotations fi) nodeName = Some (IsNodeInHoldoff fi nodeName)) \<and>
   (holdOffDecision (Annotations fi) '''' = None \<longleftrightarrow> Annotations fi \<noteq> None)"
  by (auto simp: holdOffDecision_def IsNodeInHoldoff_def IsNodeIn_def split: option.splits)

theorem holdoff_decisions_agree_witness:
  "IsNodeInHoldoff (sample_fi\<lparr>Annotations := Some [IntegrityHoldoffAnnotationKey \<mapsto> ''n1'']\<rparr>) ''n1'' \<and>
   holdOffDecision (Some [IntegrityHoldoffAnnotationKey \<mapsto> ''n1'']) ''n1'' = Some True"
  using holdoff_decisions_agree [of "''n1''" "sample_fi\<lparr>Annotations := Some [IntegrityHoldoffAnnotationKey \<mapsto> ''n1'']\<rparr>"]
  by (simp add: IsNodeInHoldoff_def IsNodeIn_def)

section \<open>Never ending\<close>

text \<open>Steps lift to runs, for properties that every step keeps.\<close>

lemma run_keeps:
  assumes "(dstep nodeName)\<^sup>*\<^sup>* d d'" and "P d" and "\<And>d d'. dstep nodeName d d' \<Longrightarrow> P d \<Longrightarrow> P d'"
  shows "P d'"
  using assms by (induction rule: rtranclp_induct) auto


text \<open>
  The waits of the loops that nothing ends once the main routine no longer selects: for the receiver of an error, for an
  instance that the watcher will not provide any more, and for room in the channel when the collector does not receive.
\<close>

lemma step_waits: "dstep nodeName d d' \<Longrightarrow> main d = MWait \<Longrightarrow> cancelled d \<Longrightarrow> rank d \<noteq> 0 \<Longrightarrow> main d' = MWait \<and> cancelled d'"
  unfolding dstep_def by (elim step_cases; clarsimp simp: rank_def runtime_defs)

lemma step_at_error: "dstep nodeName d d' \<Longrightarrow> main d = MWait \<Longrightarrow> at_error d \<Longrightarrow> at_error d'"
  unfolding dstep_def by (elim step_cases; force simp: at_error_def runtime_defs)

lemma step_at_instance:
  "dstep nodeName d d' \<Longrightarrow> main d = MWait \<Longrightarrow> at_instance d \<Longrightarrow> watcher d \<in> {IErr, IDone} \<Longrightarrow> at_instance d' \<and> watcher d' \<in> {IErr, IDone}"
  unfolding dstep_def by (elim step_cases; force simp: at_instance_def runtime_defs)

definition blocked_on_send :: "int \<Rightarrow> daemonState \<Rightarrow> bool" where
  "blocked_on_send r d \<longleftrightarrow> aide d = ASend r \<and> length (result d) = resultCap \<and> (collector d = LDone \<or> collector d = LLock) \<and> dbMux d = Some AideLoop \<and>
     main d \<noteq> MExit \<and> \<not> reinitLocked (reinit d)"

lemma step_blocked: "dstep nodeName d d' \<Longrightarrow> blocked_on_send r d \<Longrightarrow> blocked_on_send r d' \<and> result d' = result d"
  unfolding dstep_def by (elim step_cases; clarsimp simp: blocked_on_send_def runtime_defs)

lemma blocked_at_full: "(\<exists>r. blocked_on_send r d) \<longrightarrow> at_full d \<and> collector d \<in> {LDone, LLock}"
  by (auto simp: blocked_on_send_def at_full_def)

lemma reachable_blocked:
  assumes "reachable nodeName d" and "at_full d" and "collector d \<in> {LDone, LLock}"
  shows "\<exists>r. blocked_on_send r d \<and> aide d = ASend r"
proof -
  from assms(2) obtain r where "aide d = ASend r" "length (result d) = resultCap" by (auto simp: at_full_def split: aidePoint.splits)
  then show ?thesis using reachable_ok [OF assms(1)] assms(3) by (auto simp: blocked_on_send_def daemon_ok_defs)
qed

definition lost :: "daemonState \<Rightarrow> bool" where
  "lost d \<longleftrightarrow> cancelled d \<and> (at_error d \<or> at_instance d \<and> watcher d \<in> {IErr, IDone} \<or> (\<exists>r. blocked_on_send r d))"

lemma lost_rank: "lost d \<Longrightarrow> rank d \<noteq> 0"
  by (auto simp: rank_0 lost_def at_error_def blocked_on_send_def at_instance_def)

lemma step_lost: "dstep nodeName d d' \<Longrightarrow> main d = MWait \<and> lost d \<Longrightarrow> main d' = MWait \<and> lost d'"
  using step_waits [of nodeName d d'] lost_rank [of d] step_at_error [of nodeName d d'] step_at_instance [of nodeName d d']
    step_blocked [of nodeName d d'] unfolding lost_def by metis

lemma sample_lost: "reachable nodeName (setInitialRuntimeState\<lparr>hold := HGet, watcher := IDone, cancelled := True, main := MWait\<rparr>)"
proof -
  let ?d1 = "setInitialRuntimeState\<lparr>hold := HGet\<rparr>" let ?d2 = "?d1\<lparr>watcher := IErr\<rparr>"
  let ?d3 = "?d2\<lparr>watcher := IDone, cancelled := True\<rparr>" let ?d4 = "?d3\<lparr>main := MWait\<rparr>"
  have "dstep nodeName setInitialRuntimeState ?d1" using h_select [of setInitialRuntimeState nodeName] by (simp add: dstep_def setInitialRuntimeState_def)
  moreover have "dstep nodeName ?d1 ?d2" using i_fail [of ?d1] by (simp add: dstep_def setInitialRuntimeState_def)
  moreover have "dstep nodeName ?d2 ?d3" using m_watcher [of ?d2] by (simp add: dstep_def setInitialRuntimeState_def)
  moreover have "dstep nodeName ?d3 ?d4" using m_done [of ?d3] by (simp add: dstep_def setInitialRuntimeState_def)
  ultimately have "reachable nodeName ?d4" by (meson start move)
  then show ?thesis by (simp add: setInitialRuntimeState_def)
qed

text \<open>
  C36. The wait of the main routine for its loops looks neither at the error channel nor at a time-out. Once it has begun, a loop that is to send
  an error, a loop that waits for a FileIntegrity which the watcher failed to fetch, or a scan whose result finds the channel full while the
  collector has ended or waits for the lock, is never released, and the process does not exit: this holds in every
  continuation of every such state.
\<close>

theorem daemon_hangs_in_shutdown:
  assumes "reachable nodeName d" and "main d = MWait"
    and "at_error d \<or> at_instance d \<and> watcher d \<noteq> IGet \<or> at_full d \<and> collector d \<in> {LDone, LLock}"
    and "(dstep nodeName)\<^sup>*\<^sup>* d d'"
  shows "main d' = MWait \<and> (at_error d' \<or> at_instance d' \<and> watcher d' \<noteq> IGet \<or> at_full d' \<and> collector d' \<in> {LDone, LLock})"
proof -
  have ok: "daemon_ok d" by (rule reachable_ok [OF assms(1)])
  then have "at_instance d \<Longrightarrow> watcher d \<noteq> IGet \<Longrightarrow> watcher d \<in> {IErr, IDone}"
    by (cases "watcher d") (auto simp: daemon_ok_def instance_agrees_def at_instance_def)
  moreover have "cancelled d" using ok assms(2) by (auto simp: daemon_ok_def shutdown_agrees_def)
  ultimately have "main d = MWait \<and> lost d" using assms(2,3) reachable_blocked [OF assms(1)] unfolding lost_def by blast
  then have "main d' = MWait \<and> lost d'" by (rule run_keeps [OF assms(4), of "\<lambda>d. main d = MWait \<and> lost d"]) (rule step_lost)
  then show ?thesis using blocked_at_full [of d'] by (auto simp: lost_def)
qed

theorem daemon_hangs_in_shutdown_witness:
  "reachable ''n1'' (setInitialRuntimeState\<lparr>hold := HGet, watcher := IDone, cancelled := True, main := MWait\<rparr>) \<and>
   {d'. (dstep ''n1'')\<^sup>*\<^sup>* (setInitialRuntimeState\<lparr>hold := HGet, watcher := IDone, cancelled := True, main := MWait\<rparr>) d'} \<subseteq> {d'. main d' = MWait}"
  using daemon_hangs_in_shutdown [OF sample_lost [of "''n1''"]] sample_lost [of "''n1''"]
  by (auto simp: setInitialRuntimeState_def at_instance_def)

text \<open>A scan from beginning to end, and the collector meeting an empty log, as runs of steps.\<close>

lemma scan_round:
  assumes "reachable nodeName d" and "aide d = ACheckInit" and "\<not> cancelled d" and "\<not> initializing d" and "\<not> holding d" and "dbMux d = None"
    and "main d = MSelect"
  shows "reachable nodeName (d\<lparr>dbMux := Some AideLoop, aide := ASend r\<rparr>)"
    and "length (result d) < resultCap \<Longrightarrow> reachable nodeName (d\<lparr>result := result d @ [r]\<rparr>)"
proof -
  let ?d1 = "d\<lparr>aide := ACheckHold\<rparr>" let ?d2 = "d\<lparr>aide := ALock\<rparr>" let ?d3 = "d\<lparr>dbMux := Some AideLoop, aide := AScan\<rparr>"
  let ?d4 = "?d3\<lparr>aide := AFiles r\<rparr>" let ?d5 = "?d3\<lparr>aide := ASend r\<rparr>"
  have "dstep nodeName d ?d1" using assms a_init [of d] by (simp add: dstep_def runtime_defs)
  moreover have "dstep nodeName ?d1 ?d2" using assms a_hold [of ?d1] by (simp add: dstep_def runtime_defs)
  moreover have "dstep nodeName ?d2 ?d3" using assms waits(1) [of ?d2] by (simp add: dstep_def)
  moreover have "dstep nodeName ?d3 ?d4" using assms a_scan [of ?d3 r] by (simp add: dstep_def)
  moreover have "dstep nodeName ?d4 ?d5" using assms a_files [of ?d4 r] by (simp add: dstep_def)
  ultimately have "reachable nodeName ?d5" by (meson assms(1) move)
  then show sent: "reachable nodeName (d\<lparr>dbMux := Some AideLoop, aide := ASend r\<rparr>)" by simp
  assume room: "length (result d) < resultCap"
  let ?e0 = "d\<lparr>dbMux := Some AideLoop, aide := ASend r\<rparr>" let ?e1 = "?e0\<lparr>result := result d @ [r], aide := AUnlock True\<rparr>"
  let ?e2 = "(UnlockAideFiles ?e1)\<lparr>aide := ASleep\<rparr>" let ?e3 = "?e2\<lparr>aide := ACheckInit\<rparr>"
  have s1: "dstep nodeName ?e0 ?e1" using assms(7) room waits(2) [of ?e0 r] by (simp add: dstep_def)
  have s2: "dstep nodeName ?e1 ?e2" using assms(7) a_unlock [of ?e1 True] by (simp add: dstep_def)
  have s3: "dstep nodeName ?e2 ?e3" using assms(7) a_sleep [of ?e2] by (simp add: dstep_def UnlockAideFiles_def)
  have "reachable nodeName ?e3" by (rule move [OF move [OF move [OF sent s1] s2] s3])
  moreover have "?e3 = d\<lparr>result := result d @ [r]\<rparr>" using assms(2,6) by (cases d) (simp add: UnlockAideFiles_def)
  ultimately show "reachable nodeName (d\<lparr>result := result d @ [r]\<rparr>)" by simp
qed

lemma collector_quits:
  assumes "reachable nodeName d" and "collector d = LSelect" and "result d = [1]" and "dbMux d = None" and "main d = MSelect"
  shows "reachable nodeName (d\<lparr>collector := LDone, result := []\<rparr>)"
proof -
  let ?d1 = "d\<lparr>result := [], collector := LHandle 1\<rparr>" let ?d2 = "?d1\<lparr>collector := LLock\<rparr>"
  let ?d3 = "?d2\<lparr>dbMux := Some LogCollector, collector := LWork\<rparr>" let ?d4 = "?d3\<lparr>collector := LUnlock False\<rparr>"
  let ?d5 = "(UnlockAideFiles ?d4)\<lparr>collector := LDone\<rparr>"
  have "dstep nodeName d ?d1" using assms l_recv [of d 1 "d\<lparr>result := []\<rparr>"] by (simp add: dstep_def)
  moreover have "dstep nodeName ?d1 ?d2" using assms l_failed [of ?d1 1] by (simp add: dstep_def)
  moreover have "dstep nodeName ?d2 ?d3" using assms waits(4) [of ?d2] by (simp add: dstep_def)
  moreover have "dstep nodeName ?d3 ?d4" using assms l_empty [of ?d3] by (simp add: dstep_def)
  moreover have "dstep nodeName ?d4 ?d5" using assms l_unlock [of ?d4 False] by (simp add: dstep_def)
  ultimately have "reachable nodeName ?d5" by (meson assms(1) move)
  moreover have "?d5 = d\<lparr>collector := LDone, result := []\<rparr>" using assms(4) by (cases d) (simp add: UnlockAideFiles_def)
  ultimately show ?thesis by simp
qed

abbreviation unattended :: "nat \<Rightarrow> daemonState" where
  "unattended n \<equiv> setInitialRuntimeState\<lparr>collector := LDone, result := replicate n 1\<rparr>"

lemma results_pile_up: "n \<le> resultCap \<Longrightarrow> reachable nodeName (unattended n)"
proof (induction n)
  case 0
  have "reachable nodeName (setInitialRuntimeState\<lparr>result := [1]\<rparr>)"
    using scan_round(2) [OF start [of nodeName], of 1] by (simp add: setInitialRuntimeState_def resultCap_def)
  from collector_quits [OF this] show ?case by (simp add: setInitialRuntimeState_def)
next
  case (Suc n)
  then have "reachable nodeName (unattended n)" by simp
  from scan_round(2) [OF this, of 1] Suc.prems show ?case by (simp add: setInitialRuntimeState_def replicate_append_same)
qed

lemma step_unattended:
  "dstep nodeName d d' \<Longrightarrow> collector d = LDone \<Longrightarrow>
     collector d' = LDone \<and> length (result d) \<le> length (result d') \<and> take (length (result d)) (result d') = result d"
  unfolding dstep_def by (elim step_cases; clarsimp simp: runtime_defs)

lemma run_unattended:
  assumes "(dstep nodeName)\<^sup>*\<^sup>* d d'" and "collector d = LDone"
  shows "collector d' = LDone \<and> length (result d) \<le> length (result d') \<and> take (length (result d)) (result d') = result d"
  using assms
proof (induction rule: rtranclp_induct)
  case (step d1 d2)
  then show ?case using step_unattended [OF step.hyps(2)] by (metis le_trans min.absorb1 take_take)
qed simp

lemma reachable_run: "(dstep nodeName)\<^sup>*\<^sup>* d d' \<Longrightarrow> reachable nodeName d \<Longrightarrow> reachable nodeName d'"
  by (erule run_keeps) (auto intro: move)

text \<open>
  C35. The collector does not come back: in every continuation of a state in which it has ended (an empty log of a failed scan ends it
  while nothing is cancelled), no result is taken from the channel any more and at most 50 wait there; and a scan that has a result to send
  while 50 are waiting blocks for good with the AIDE files locked, so that it never finishes, no database is initialised
  and the process does not exit, even on a signal.
\<close>

theorem collector_gone_blocks_scans:
  assumes "reachable nodeName d" and "collector d = LDone" and "(dstep nodeName)\<^sup>*\<^sup>* d d'"
  shows "collector d' = LDone \<and> take (length (result d)) (result d') = result d \<and> length (result d') \<le> 50 \<and>
     (aide d = ASend r \<and> length (result d) = 50 \<longrightarrow>
        aide d' = ASend r \<and> result d' = result d \<and> dbMux d' = Some AideLoop \<and> \<not> reinitLocked (reinit d') \<and> main d' \<noteq> MExit)"
proof -
  have grows: "collector d' = LDone" "take (length (result d)) (result d') = result d" using run_unattended [OF assms(3,2)] by simp_all
  have room: "length (result d') \<le> 50"
    using reachable_ok [OF reachable_run [OF assms(3,1)]] by (simp add: daemon_ok_def resultCap_def)
  have "blocked_on_send r d' \<and> result d' = result d" if "aide d = ASend r" "length (result d) = 50"
  proof (rule run_keeps [OF assms(3), of "\<lambda>d'. blocked_on_send r d' \<and> result d' = result d"])
    show "blocked_on_send r d \<and> result d = result d"
      using reachable_blocked [OF assms(1)] assms(2) that by (auto simp: at_full_def resultCap_def)
  qed (use step_blocked in auto)
  with grows room show ?thesis by (auto simp: blocked_on_send_def)
qed

theorem collector_gone_blocks_scans_witness:
  "reachable ''n1'' ((unattended 50)\<lparr>dbMux := Some AideLoop, aide := ASend 1\<rparr>) \<and> \<not> cancelled (unattended 50) \<and>
   {d'. (dstep ''n1'')\<^sup>*\<^sup>* ((unattended 50)\<lparr>dbMux := Some AideLoop, aide := ASend 1\<rparr>) d'} \<subseteq> {d'. aide d' = ASend 1 \<and> main d' \<noteq> MExit}"
proof -
  let ?d = "(unattended 50)\<lparr>dbMux := Some AideLoop, aide := ASend 1\<rparr>"
  have "reachable ''n1'' (unattended 50)" using results_pile_up [of 50 "''n1''"] by (simp add: resultCap_def)
  then have reach: "reachable ''n1'' ?d" by (rule scan_round(1)) (simp_all add: setInitialRuntimeState_def)
  have "collector ?d = LDone" "aide ?d = ASend 1" "length (result ?d) = 50" by (simp_all add: setInitialRuntimeState_def)
  then have "aide d' = ASend 1 \<and> main d' \<noteq> MExit" if "(dstep ''n1'')\<^sup>*\<^sup>* ?d d'" for d'
    using collector_gone_blocks_scans [OF reach _ that, of 1] by blast
  with reach show ?thesis by (auto simp: setInitialRuntimeState_def)
qed

end
