(* ===== verification/Daemon_Config.thy ===== *)
theory Daemon_Config
  imports Daemon_Files
begin

text \<open>
  The command line between the operator and the daemon: the flags of the daemon subcommand and their
  defaults (\<open>defineFlags\<close>), how they become its configuration (\<open>parseDaemonConfig\<close>), both of
  \<open>src/cmd/manager/daemon.go\<close>, and what the operator passes (\<open>daemonArgs\<close>, theory DaemonSets).
  The flag parser is a library; the locale \<open>flag_parser\<close> states what the daemon relies on.
\<close>

section \<open>Flags\<close>

datatype flagValue = FString string | FInt int | FBool bool

type_synonym flags = "string \<rightharpoonup> flagValue"

definition defaultTimeout :: int where "defaultTimeout = 600"
definition DefaultGracePeriod :: int where "DefaultGracePeriod = 900"

definition defineFlags :: "(string \<times> flagValue) list" where
  "defineFlags =
     [(''lc-file'', FString ''''), (''owner'', FString ''''), (''lc-config-map-prefix'', FString ''''), (''namespace'', FString ''''),
      (''aidefiledir'', FString ''/hostroot/etc/kubernetes''), (''aideruntimedir'', FString ''/hostroot/run''),
      (''aideconfigdir'', FString ''/tmp''), (''lc-timeout'', FInt defaultTimeout), (''interval'', FInt DefaultGracePeriod),
      (''maxbackups'', FInt 5), (''lc-compress'', FBool False), (''debug'', FBool False), (''local'', FBool False), (''pprof'', FBool False)]"

text \<open>Getters ignore the error of a missing flag and give the zero value; \<open>FATAL\<close> ends the process.\<close>

definition GetString :: "flags \<Rightarrow> string \<Rightarrow> string" where
  "GetString m name = (case m name of Some (FString s) \<Rightarrow> s | _ \<Rightarrow> '''')"

definition GetInt :: "flags \<Rightarrow> string \<Rightarrow> int" where
  "GetInt m name = (case m name of Some (FInt n) \<Rightarrow> n | _ \<Rightarrow> 0)"

definition GetBool :: "flags \<Rightarrow> string \<Rightarrow> bool" where
  "GetBool m name = (case m name of Some (FBool b) \<Rightarrow> b | _ \<Rightarrow> False)"

definition getValidStringArg :: "flags \<Rightarrow> string \<Rightarrow> error + string" where
  "getValidStringArg m name = (let val = GetString m name in
     if val = '''' then Inl (GoError (''The command line argument '' @ name @ '' is mandatory'')) else Inr val)"

definition okE :: "error + 'a \<Rightarrow> ('a \<Rightarrow> error + 'b) \<Rightarrow> error + 'b" where
  "okE r f = (case r of Inl e \<Rightarrow> Inl e | Inr a \<Rightarrow> f a)"

lemma okE_simps [simp]: "okE (Inl e) f = Inl e" "okE (Inr a) f = f a"
  by (simp_all add: okE_def)

text \<open>\<open>nodeName\<close> is the environment variable \<open>NODE_NAME\<close>. The second component is the package variable \<open>debugLog\<close>.\<close>

definition parseDaemonConfig :: "flags \<Rightarrow> string \<Rightarrow> error + daemonConfig \<times> bool" where
  "parseDaemonConfig m nodeName =
     okE (getValidStringArg m ''lc-file'') (\<lambda>lcFile.
     okE (getValidStringArg m ''owner'') (\<lambda>owner.
     okE (getValidStringArg m ''namespace'') (\<lambda>namespace.
     okE (getValidStringArg m ''aidefiledir'') (\<lambda>fileDir.
     okE (getValidStringArg m ''aideruntimedir'') (\<lambda>runDir.
     okE (getValidStringArg m ''aideconfigdir'') (\<lambda>configDir.
     okE (getValidStringArg m ''lc-config-map-prefix'') (\<lambda>prefix.
     Inr (\<lparr>LogCollectorFile = lcFile, FileIntegrityName = owner, LogCollectorConfigMapName = getConfigMapName prefix nodeName,
           dcNamespace = namespace, LogCollectorNode = nodeName, LogCollectorTimeout = GetInt m ''lc-timeout'', Interval = GetInt m ''interval'',
           dcMaxBackups = GetInt m ''maxbackups'', LogCollectorCompress = GetBool m ''lc-compress'', Local = GetBool m ''local'',
           Pprof = GetBool m ''pprof'', FileDir = fileDir, RunDir = runDir, ConfigDir = configDir\<rparr>,
          GetBool m ''debug''))))))))"

section \<open>The flag parser\<close>

text \<open>
  A flag is given as \<open>--name=value\<close>. What the daemon relies on: no arguments leave the defaults; one
  more argument for a flag that exists, with a value of its kind, sets it, unless the terminator \<open>--\<close> came before.
\<close>

fun flagText :: "flagValue \<Rightarrow> string" where
  "flagText (FString s) = s"
| "flagText (FInt n) = Itoa n"
| "flagText (FBool b) = FormatBool b"

fun same_kind :: "flagValue \<Rightarrow> flagValue \<Rightarrow> bool" where
  "same_kind (FString _) (FString _) = True"
| "same_kind (FInt _) (FInt n) = (- (2 ^ 63) \<le> n \<and> n < 2 ^ 63)"
| "same_kind (FBool _) (FBool _) = True"
| "same_kind _ _ = False"

definition flagArg :: "string \<Rightarrow> flagValue \<Rightarrow> string" where
  "flagArg name v = ''--'' @ name @ ''='' @ flagText v"

definition flag_name :: "string \<Rightarrow> bool" where
  "flag_name n \<longleftrightarrow> n \<noteq> [] \<and> hd n \<noteq> CHR ''-'' \<and> CHR ''='' \<notin> set n"

locale flag_parser =
  fixes parse :: "(string \<times> flagValue) list \<Rightarrow> string list \<Rightarrow> error + flags"
  assumes parse_none: "parse defs [] = Inr (map_of defs)"
    and parse_snoc: "parse defs args = Inr m \<Longrightarrow> ''--'' \<notin> set args \<Longrightarrow> flag_name name \<Longrightarrow> map_of defs name = Some dflt \<Longrightarrow> same_kind dflt v \<Longrightarrow>
      parse defs (args @ [flagArg name v]) = Inr (m(name \<mapsto> v))"
begin

text \<open>A list of well-formed flags sets each of them, the later ones last.\<close>

lemma parse_flags:
  assumes "list_all (\<lambda>(n, v). flag_name n \<and> (case map_of defs n of Some dflt \<Rightarrow> same_kind dflt v | None \<Rightarrow> False)) fs"
  shows "parse defs (map (\<lambda>(n, v). flagArg n v) fs) = Inr (map_of defs ++ map_of (rev fs))"
  using assms
proof (induction fs rule: rev_induct)
  case Nil
  show ?case by (simp add: parse_none)
next
  case (snoc f fs)
  obtain n v where f: "f = (n, v)" by (cases f)
  from snoc.prems obtain dflt where "flag_name n" "map_of defs n = Some dflt" "same_kind dflt v"
    by (auto simp: f split: option.splits)
  moreover have "''--'' \<notin> set (map (\<lambda>(n, v). flagArg n v) fs)" by (auto simp: flagArg_def)
  ultimately show ?case using parse_snoc [OF snoc.IH] snoc.prems by (simp add: f map_add_def fun_eq_iff)
qed

end

text \<open>
  A parser of \<open>--name=value\<close> arguments meets the contract; it reads decimal numbers as \<open>strconv\<close> writes them.
\<close>

definition readFlag :: "flagValue \<Rightarrow> string \<Rightarrow> flagValue option" where
  "readFlag dflt s = (case dflt of
       FString _ \<Rightarrow> Some (FString s)
     | FInt _ \<Rightarrow> (case Atoi s of (n, None) \<Rightarrow> Some (FInt n) | _ \<Rightarrow> None)
     | FBool _ \<Rightarrow> if s = ''true'' then Some (FBool True) else if s = ''false'' then Some (FBool False) else None)"

fun simpleParse :: "(string \<times> flagValue) list \<Rightarrow> flags \<Rightarrow> string list \<Rightarrow> error + flags" where
  "simpleParse defs m [] = Inr m"
| "simpleParse defs m (a # args) =
     (let body = drop 2 a; name = takeWhile (\<lambda>c. c \<noteq> CHR ''='') body; val = drop (Suc (length name)) body in
      case map_of defs name of None \<Rightarrow> Inl (GoError ''unknown flag'')
      | Some dflt \<Rightarrow> (case readFlag dflt val of None \<Rightarrow> Inl (GoError ''invalid argument'')
          | Some v \<Rightarrow> simpleParse defs (m(name \<mapsto> v)) args))"

lemma flagArg_split:
  assumes "flag_name name"
  shows "takeWhile (\<lambda>c. c \<noteq> CHR ''='') (drop 2 (flagArg name v)) = name" "drop (Suc (length name)) (drop 2 (flagArg name v)) = flagText v"
proof -
  have "takeWhile (\<lambda>c. c \<noteq> CHR ''='') (name @ ''='' @ flagText v) = name"
    using assms by (subst takeWhile_append2) (auto simp: flag_name_def)
  then show "takeWhile (\<lambda>c. c \<noteq> CHR ''='') (drop 2 (flagArg name v)) = name" by (simp add: flagArg_def)
qed (simp add: flagArg_def)

lemma readFlag_text: "same_kind dflt v \<Longrightarrow> readFlag dflt (flagText v) = Some v"
  by (cases dflt; cases v) (auto simp: readFlag_def Atoi_Itoa FormatBool_def)

lemma simpleParse_append: "simpleParse defs m args = Inr m' \<Longrightarrow> simpleParse defs m (args @ rest) = simpleParse defs m' rest"
  by (induction args arbitrary: m) (auto simp: Let_def split: option.splits)

interpretation simple: flag_parser "\<lambda>defs. simpleParse defs (map_of defs)"
proof
  fix defs args m name dflt v
  assume "simpleParse defs (map_of defs) args = Inr m" "flag_name name" "map_of defs name = Some dflt" "same_kind dflt v"
  then show "simpleParse defs (map_of defs) (args @ [flagArg name v]) = Inr (m(name \<mapsto> v))"
    by (simp add: simpleParse_append flagArg_split readFlag_text Let_def del: drop_drop)
qed simp

section \<open>What the daemon reads\<close>

text \<open>The arguments of the operator as flags.\<close>

definition passed :: "string \<Rightarrow> FileIntegrity \<Rightarrow> (string \<times> flagValue) list" where
  "passed dsName fi =
     [(''lc-file'', FString aideLogPath), (''lc-config-map-prefix'', FString dsName), (''owner'', FString (Name fi)),
      (''namespace'', FString (Namespace fi)), (''interval'', FInt (max 10 (GracePeriod (Config (fiSpec fi))))),
      (''debug'', FBool (Debug (fiSpec fi))), (''maxbackups'', FInt (MaxBackups (Config (fiSpec fi)))),
      (''aideconfigdir'', FString ''/config'')]"

lemma daemonArgs_passed: "daemonArgs dsName fi = ''daemon'' # map (\<lambda>(n, v). flagArg n v) (passed dsName fi)"
  by (simp add: daemonArgs_def passed_def flagArg_def getGracePeriod_def getDebug_def getMaxBackups_def Let_def max_def)

text \<open>
  C14. What the operator writes into the arguments of the daemon set is what the daemon reads: owner, namespace, interval, number of backups and
  debugging are those of the FileIntegrity, the interval being at least ten seconds; its reports go to the config map named after
  the daemon set and the node; the log it collects is the one it copies AIDE's log to; and the AIDE configuration is
  looked for where the daemon set mounts it. No argument is rejected.
\<close>

theorem daemon_reads_its_arguments:
  assumes "flag_parser parse" and "Name fi \<noteq> ''''" and "Namespace fi \<noteq> ''''" and "dsName \<noteq> ''''"
    and "GracePeriod (Config (fiSpec fi)) < 2 ^ 63" and "- (2 ^ 63) \<le> MaxBackups (Config (fiSpec fi))" and "MaxBackups (Config (fiSpec fi)) < 2 ^ 63"
  shows "\<exists>m conf. parse defineFlags (tl (daemonArgs dsName fi)) = Inr m \<and> parseDaemonConfig m nodeName = Inr (conf, Debug (fiSpec fi)) \<and>
     FileIntegrityName conf = Name fi \<and> dcNamespace conf = Namespace fi \<and> LogCollectorNode conf = nodeName \<and>
     Interval conf = max 10 (GracePeriod (Config (fiSpec fi))) \<and> dcMaxBackups conf = MaxBackups (Config (fiSpec fi)) \<and>
     report_key conf = (Namespace fi, dsName @ ''-'' @ nodeName) \<and>
     LogCollectorFile conf = fst (aideReadLogPath conf) @ ''/'' @ snd (aideReadLogPath conf) \<and> aideConfigPath conf = (''/config'', ''aide.conf'')"
proof -
  have "parse defineFlags (tl (daemonArgs dsName fi)) = Inr (map_of defineFlags ++ map_of (rev (passed dsName fi)))"
    unfolding daemonArgs_passed list.sel using assms(5-7)
    by (intro flag_parser.parse_flags [OF assms(1)]) (simp add: passed_def defineFlags_def flag_name_def)
  then show ?thesis using assms(2-4)
    by (simp add: passed_def defineFlags_def parseDaemonConfig_def getValidStringArg_def GetString_def GetInt_def GetBool_def Let_def
        getConfigMapName_def path_defs aideLogPath_def)
qed

theorem daemon_reads_its_arguments_witness:
  "\<exists>m conf. simpleParse defineFlags (map_of defineFlags) (tl (daemonArgs ''aide-f'' sample_fi)) = Inr m \<and> parseDaemonConfig m ''n1'' = Inr (conf, False) \<and>
     Interval conf = 10 \<and> dcMaxBackups conf = 5 \<and> report_key conf = (''ns'', ''aide-f-n1'')"
  using daemon_reads_its_arguments [OF simple.flag_parser_axioms, of sample_fi "''aide-f''" "''n1''"] by (auto simp: sample_fi_def)

end
