(* ===== verification/Daemon_Start.thy ===== *)
theory Daemon_Start
  imports Daemon_Config
begin

text \<open>
  The runtime of the daemon before its loops start, \<open>buildConfigWithRetry\<close> and \<open>newDaemonRuntime\<close> of \<open>src/cmd/manager/daemon.go\<close>, and
  the return of page cache after a scan, \<open>getOwnCgroupPath\<close> and \<open>reclaimCgroupPageCache\<close> of \<open>src/cmd/manager/daemon_util.go\<close>. The client libraries
  are parameters: \<open>build\<close> gives the configuration of an attempt (the secret may reach the node between two attempts), \<open>newClients\<close> whether the
  clients can be made from it. The kernel calls are recorded in order.
\<close>

section \<open>Attempts until one succeeds\<close>

text \<open>When no time runs out and some attempt is good, the first good one decides; every attempt before it fails for now.\<close>

lemma Retry_first_good:
  assumes "\<And>j. k < j \<Longrightarrow> j \<le> n \<Longrightarrow> \<not> stop j \<and> (\<exists>e. op j = State_Monad.return (Transient e))" and "k \<le> n"
  shows "run_state (Retry stop n op) s = run_state (Retry stop k op) s"
  using assms
proof (induction n)
  case (Suc n)
  show ?case
  proof (cases "k = Suc n")
    case False
    with Suc.prems obtain e where "\<not> stop (Suc n)" "op (Suc n) = State_Monad.return (Transient e)" using le_neq_implies_less [of k "Suc n"] by blast
    then have "run_state (Retry stop (Suc n) op) s = run_state (Retry stop n op) s" by simp
    also from Suc.prems False have "\<dots> = run_state (Retry stop k op) s" by (intro Suc.IH) auto
    finally show ?thesis .
  qed simp
qed simp

section \<open>The clients\<close>

definition maxConfigRetries :: nat where "maxConfigRetries = 10"

text \<open>The state is the variable \<open>config\<close> that the retried function assigns.\<close>

definition buildAttempt :: "(nat \<Rightarrow> string \<Rightarrow> error + 'c) \<Rightarrow> string \<Rightarrow> nat \<Rightarrow> ('c option, error attempt) state" where
  "buildAttempt build kubeconfig k = (case build k kubeconfig of
       Inl e \<Rightarrow> State_Monad.return (Transient e)
     | Inr config \<Rightarrow> do { State_Monad.set (Some config); State_Monad.return Finished })"

definition buildConfigWithRetry :: "(nat \<Rightarrow> bool) \<Rightarrow> (nat \<Rightarrow> string \<Rightarrow> error + 'c) \<Rightarrow> string \<Rightarrow> error + 'c option" where
  "buildConfigWithRetry stop build kubeconfig =
     (case run_state (Retry stop maxConfigRetries (buildAttempt build kubeconfig)) None of
        (Some e, _) \<Rightarrow> Inl (Wrapped ''failed to build config after 10 retries'' e)
      | (None, config) \<Rightarrow> Inr config)"

text \<open>\<open>FATAL\<close> ends the process; otherwise the configuration that both clients use is returned.\<close>

definition newDaemonRuntime :: "(nat \<Rightarrow> bool) \<Rightarrow> (nat \<Rightarrow> string \<Rightarrow> error + 'c) \<Rightarrow> ('c option \<Rightarrow> error option) \<Rightarrow> ('c option \<Rightarrow> error option) \<Rightarrow> (string \<Rightarrow> string)
    \<Rightarrow> daemonConfig \<Rightarrow> error + 'c option" where
  "newDaemonRuntime stop build newClientset newDynamic getenv conf =
     (let kc = (if Local conf then getenv ''KUBECONFIG'' else '''') in
      okE (buildConfigWithRetry stop build kc) (\<lambda>config.
        case newClientset config of Some e \<Rightarrow> Inl e
        | None \<Rightarrow> (case newDynamic config of Some e \<Rightarrow> Inl e | None \<Rightarrow> Inr config)))"

lemma wp_buildAttempt: "wp (buildAttempt build kc k) Q s = (case build k kc of Inl e \<Rightarrow> Q (Transient e) s | Inr c \<Rightarrow> Q Finished (Some c))"
  by (simp add: buildAttempt_def wp_simps split: sum.splits)

lemma buildConfig_sound:
  assumes "buildConfigWithRetry stop build kc = Inr config"
  shows "\<exists>k c. k \<le> maxConfigRetries \<and> build k kc = Inr c \<and> config = Some c"
proof -
  have "wp (Retry stop maxConfigRetries (buildAttempt build kc))
      (\<lambda>r s'. r = None \<longrightarrow> (\<exists>k c. k \<le> maxConfigRetries \<and> build k kc = Inr c \<and> s' = Some c)) None"
    by (rule wp_Retry [of "\<lambda>_. True"]) (auto simp: wp_buildAttempt split: sum.splits)
  with assms show ?thesis by (auto simp: buildConfigWithRetry_def wp_def split: prod.splits option.splits)
qed

lemma buildConfig_complete:
  assumes "build k kc = Inr c" and "k \<le> maxConfigRetries" and "\<And>j. k < j \<Longrightarrow> j \<le> maxConfigRetries \<Longrightarrow> \<not> stop j \<and> (\<exists>e. build j kc = Inl e)"
  shows "buildConfigWithRetry stop build kc = Inr (Some c)"
proof -
  have "run_state (Retry stop maxConfigRetries (buildAttempt build kc)) None = run_state (Retry stop k (buildAttempt build kc)) None"
    by (rule Retry_first_good) (use assms(2,3) in \<open>auto simp: buildAttempt_def dest!: assms(3)\<close>)
  also have "\<dots> = (None, Some c)" using assms(1) by (cases k) (simp_all add: buildAttempt_def)
  finally show ?thesis by (simp add: buildConfigWithRetry_def)
qed

text \<open>
  A daemon whose secret reaches the node late still starts: when the configuration can be built in one of the eleven attempts, and the back-off does not run out before, the clients are made
  from it, in the cluster's own configuration unless the daemon runs locally. A configuration that is used was always built in some attempt.
\<close>

theorem runtime_survives_late_secret:
  assumes "Local conf = False" and "build k '''' = Inr c" and "k \<le> 10" and "\<forall>j. k < j \<and> j \<le> 10 \<longrightarrow> \<not> stop j \<and> (\<exists>e. build j '''' = Inl e)"
    and "newClientset (Some c) = None" and "newDynamic (Some c) = None"
  shows "newDaemonRuntime stop build newClientset newDynamic getenv conf = Inr (Some c)"
proof -
  have "buildConfigWithRetry stop build '''' = Inr (Some c)"
    using assms(2-4) by (intro buildConfig_complete) (auto simp: maxConfigRetries_def)
  with assms show ?thesis by (simp add: newDaemonRuntime_def)
qed

section \<open>The page cache of the container\<close>

text \<open>\<open>strings.SplitN\<close> for a separator of one byte and a positive count.\<close>

fun SplitN :: "nat \<Rightarrow> char \<Rightarrow> string \<Rightarrow> string list" where
  "SplitN 0 c s = []"
| "SplitN (Suc 0) c s = [s]"
| "SplitN (Suc n) c s = (if c \<in> set s then takeWhile (\<lambda>x. x \<noteq> c) s # SplitN n c (tl (dropWhile (\<lambda>x. x \<noteq> c) s)) else [s])"

text \<open>
  \<open>bufio.Scanner\<close> over lines: the line ends are taken off, a carriage return before them too, an empty rest after the last line end is no line, and
  a line of 64 KiB or more ends the scan.
\<close>

definition dropCR :: "string \<Rightarrow> string" where
  "dropCR l = (if l \<noteq> [] \<and> last l = CHR 0x0D then butlast l else l)"

definition scanLines :: "string \<Rightarrow> string list" where
  "scanLines s = (let ls = Split newline s in
     map dropCR (takeWhile (\<lambda>l. length l < 65536) (if last ls = [] then butlast ls else ls)))"

fun cgroupLoop :: "string list \<Rightarrow> error + string" where
  "cgroupLoop [] = Inl (GoError ''no cgroup v2 entry found in /proc/self/cgroup'')"
| "cgroupLoop (line # rest) =
     (let parts = SplitN 3 (CHR '':'') line in
      if length parts = 3 \<and> parts ! 0 = ''0'' then Inr (''/sys/fs/cgroup'' @ parts ! 2) else cgroupLoop rest)"

definition getOwnCgroupPath :: "error + string \<Rightarrow> error + string" where
  "getOwnCgroupPath cgroupFile = (case cgroupFile of Inl err \<Rightarrow> Inl err | Inr text \<Rightarrow> cgroupLoop (scanLines text))"

datatype syscall = SysOpen fpath | SysWrite nat string | SysClose nat

definition reclaimCgroupPageCache :: "error + string \<Rightarrow> (fpath \<Rightarrow> error + nat) \<Rightarrow> syscall list" where
  "reclaimCgroupPageCache cgroupFile openFd =
     (case getOwnCgroupPath cgroupFile of Inl _ \<Rightarrow> []
      | Inr cgroupPath \<Rightarrow>
          (let reclaimFile = (cgroupPath, ''memory.reclaim'') in
           case openFd reclaimFile of Inl _ \<Rightarrow> [SysOpen reclaimFile]
           | Inr fd \<Rightarrow> [SysOpen reclaimFile, SysWrite fd ''500M'', SysClose fd]))"

lemma scanLines_unlines:
  assumes "\<forall>l \<in> set ls. newline \<notin> set l \<and> CHR 0x0D \<notin> set l \<and> length l < 65536"
  shows "scanLines (unlines ls) = ls"
proof -
  have "Split newline (unlines ls) = ls @ [[]]" using assms
    by (induction ls) (auto simp: unlines_def Split_append_sep)
  moreover have "takeWhile (\<lambda>l. length l < 65536) ls = ls" using assms by (subst takeWhile_eq_all_conv) auto
  moreover have "map dropCR ls = ls" using assms by (intro map_idI) (auto simp: dropCR_def dest: last_in_set)
  ultimately show ?thesis unfolding scanLines_def Let_def by (simp only: last_snoc butlast_snoc if_True refl)
qed

lemma cgroupLoop_skip: "\<forall>l \<in> set pre. takeWhile (\<lambda>x. x \<noteq> CHR '':'') l \<noteq> ''0'' \<Longrightarrow> cgroupLoop (pre @ rest) = cgroupLoop rest"
  by (induction pre) (auto simp: numeral_3_eq_3 Let_def)

text \<open>
  After a scan the daemon reclaims page cache from its own cgroup: with the entry of the unified hierarchy anywhere in \<open>/proc/self/cgroup\<close>, it asks for 500M in that cgroup's
  \<open>memory.reclaim\<close> and closes the file; a file that cannot be opened is left alone.
\<close>

theorem reclaims_own_cgroup:
  assumes "\<forall>l \<in> set (pre @ [''0::'' @ path] @ post). newline \<notin> set l \<and> CHR 0x0D \<notin> set l \<and> length l < 65536"
    and "\<forall>l \<in> set pre. takeWhile (\<lambda>x. x \<noteq> CHR '':'') l \<noteq> ''0''"
  shows "reclaimCgroupPageCache (Inr (unlines (pre @ [''0::'' @ path] @ post))) openFd =
     SysOpen (''/sys/fs/cgroup'' @ path, ''memory.reclaim'') # (case openFd (''/sys/fs/cgroup'' @ path, ''memory.reclaim'') of Inl _ \<Rightarrow> []
       | Inr fd \<Rightarrow> [SysWrite fd ''500M'', SysClose fd])"
  unfolding reclaimCgroupPageCache_def getOwnCgroupPath_def sum.case scanLines_unlines [OF assms(1)] cgroupLoop_skip [OF assms(2)]
  by (simp add: numeral_3_eq_3 Let_def split: sum.splits)

end
