(* ===== verification/Metrics_Server.thy ===== *)
theory Metrics_Server
  imports Backoff
begin

text \<open>
  The server of the metrics, \<open>Start\<close> and \<open>waitForServingCert\<close> of \<open>src/pkg/controller/metrics/metrics.go\<close>. The back-off here has no
  limit on the number of attempts, only on the time and the context, so the loop is a partial function: \<open>stop k\<close> says whether it is left after the failed attempt \<open>k\<close>, and no
  value means that it goes on for ever. \<open>stat k\<close> is what \<open>os.Stat\<close> answers in attempt \<open>k\<close>; the HTTPS server itself is the
  library's, and \<open>serve\<close> how its \<open>ListenAndServeTLS\<close> ends.
\<close>

text \<open>The time is over, and the last error is returned, or the context has ended, and its error is.\<close>

datatype 'e halt = TimeOver | ContextDone 'e

fun halted :: "'e halt \<Rightarrow> 'e \<Rightarrow> 'e" where
  "halted TimeOver e = e"
| "halted (ContextDone c) e = c"

partial_function (option) RetryUntil :: "(nat \<Rightarrow> 'e halt option) \<Rightarrow> (nat \<Rightarrow> 'e attempt) \<Rightarrow> nat \<Rightarrow> (nat \<times> 'e option) option" where
  "RetryUntil stop op k = (case op k of
       Finished \<Rightarrow> Some (k, None)
     | Permanent e \<Rightarrow> Some (k, Some e)
     | Transient e \<Rightarrow> (case stop k of Some h \<Rightarrow> Some (k, Some (halted h e)) | None \<Rightarrow> RetryUntil stop op (Suc k)))"

definition servingCertFile :: string where "servingCertFile = ''/var/run/secrets/serving-cert/tls.crt''"
definition servingKeyFile :: string where "servingKeyFile = ''/var/run/secrets/serving-cert/tls.key''"

fun statAll :: "(string \<Rightarrow> error option) \<Rightarrow> string list \<Rightarrow> error attempt" where
  "statAll stat [] = Finished"
| "statAll stat (f # fs) = (case stat f of Some e \<Rightarrow> Transient e | None \<Rightarrow> statAll stat fs)"

definition waitForServingCert :: "(nat \<Rightarrow> error halt option) \<Rightarrow> (nat \<Rightarrow> string \<Rightarrow> error option) \<Rightarrow> (nat \<times> error option) option" where
  "waitForServingCert stop stat = RetryUntil stop (\<lambda>k. statAll (stat k) [servingCertFile, servingKeyFile]) 0"

datatype serverEnd = ServerClosed | ServerFailed error

text \<open>\<open>Start\<close> returns the attempt at which the server was started, if it was, and its error.\<close>

definition Start :: "(nat \<Rightarrow> error halt option) \<Rightarrow> (nat \<Rightarrow> string \<Rightarrow> error option) \<Rightarrow> serverEnd \<Rightarrow> (nat option \<times> error option) option" where
  "Start stop stat serve = (case waitForServingCert stop stat of None \<Rightarrow> None
     | Some (k, Some err) \<Rightarrow> Some (None, Some err)
     | Some (k, None) \<Rightarrow> Some (Some k, case serve of ServerFailed err \<Rightarrow> Some err | ServerClosed \<Rightarrow> None))"

section \<open>When the loop ends\<close>

text \<open>It ends at the first attempt that is good or after which it is left.\<close>

lemma RetryUntil_ends:
  assumes "k \<le> n" and "\<And>j. k \<le> j \<Longrightarrow> j < n \<Longrightarrow> stop j = None \<and> (\<exists>e. op j = Transient e)"
  shows "RetryUntil stop op k = RetryUntil stop op n"
  using assms
proof (induction "n - k" arbitrary: k)
  case (Suc d)
  then have "k < n" by simp
  with Suc.prems obtain e where "stop k = None" "op k = Transient e" by blast
  then have "RetryUntil stop op k = RetryUntil stop op (Suc k)" by (subst RetryUntil.simps) simp
  also have "\<dots> = RetryUntil stop op n" using Suc \<open>k < n\<close> by (intro Suc.hyps(1)) auto
  finally show ?case .
qed simp

definition there :: "(nat \<Rightarrow> string \<Rightarrow> error option) \<Rightarrow> nat \<Rightarrow> bool" where
  "there stat k \<longleftrightarrow> stat k servingCertFile = None \<and> stat k servingKeyFile = None"

lemma there_attempt:
  "if there stat k then statAll (stat k) [servingCertFile, servingKeyFile] = Finished
   else \<exists>f err. f \<in> {servingCertFile, servingKeyFile} \<and> stat k f = Some err \<and> statAll (stat k) [servingCertFile, servingKeyFile] = Transient err"
  by (auto simp: there_def split: option.splits)

text \<open>
  Starting the metrics server always comes to a decision when the back-off or the context has an end. The server is started at the first attempt at which both
  files of its certificate are there, and not before; if the wait is left before, it is not started and the error of the missing file, or that of the context, is returned.
  A server that was closed is no error.
\<close>

theorem metrics_server_waits:
  assumes "stop n \<noteq> None"
  shows "\<exists>k \<le> n. (\<forall>j < k. \<not> there stat j \<and> stop j = None) \<and>
     (if there stat k then Start stop stat serve = Some (Some k, case serve of ServerClosed \<Rightarrow> None | ServerFailed err \<Rightarrow> Some err)
      else \<exists>h f err. stop k = Some h \<and> f \<in> {servingCertFile, servingKeyFile} \<and> stat k f = Some err \<and>
        Start stop stat serve = Some (None, Some (case h of TimeOver \<Rightarrow> err | ContextDone c \<Rightarrow> c)))"
proof -
  let ?op = "\<lambda>k. statAll (stat k) [servingCertFile, servingKeyFile]"
  define k where "k = (LEAST k. there stat k \<or> stop k \<noteq> None)"
  have least: "there stat k \<or> stop k \<noteq> None" unfolding k_def by (rule LeastI [of _ n]) (simp add: assms)
  have "k \<le> n" unfolding k_def by (rule Least_le) (simp add: assms)
  have before: "\<not> there stat j \<and> stop j = None" if "j < k" for j using not_less_Least [OF that [unfolded k_def]] by simp
  have "\<exists>e. ?op j = Transient e" if "\<not> there stat j" for j using there_attempt [of stat j] that by auto
  with before have run: "waitForServingCert stop stat = RetryUntil stop ?op k"
    unfolding waitForServingCert_def by (intro RetryUntil_ends) blast+
  have "if there stat k then Start stop stat serve = Some (Some k, case serve of ServerClosed \<Rightarrow> None | ServerFailed err \<Rightarrow> Some err)
      else \<exists>h f err. stop k = Some h \<and> f \<in> {servingCertFile, servingKeyFile} \<and> stat k f = Some err \<and>
        Start stop stat serve = Some (None, Some (case h of TimeOver \<Rightarrow> err | ContextDone c \<Rightarrow> c))"
  proof (cases "there stat k")
    case True
    with there_attempt [of stat k] have "?op k = Finished" by simp
    then have "waitForServingCert stop stat = Some (k, None)" unfolding run by (subst RetryUntil.simps) simp
    with True show ?thesis by (simp add: Start_def)
  next
    case False
    with there_attempt [of stat k] obtain f err where f: "f \<in> {servingCertFile, servingKeyFile}" "stat k f = Some err" "?op k = Transient err" by auto
    from False least obtain h where h: "stop k = Some h" by auto
    have "waitForServingCert stop stat = Some (k, Some (halted h err))" unfolding run using f(3) h by (subst RetryUntil.simps) simp
    then have "Start stop stat serve = Some (None, Some (case h of TimeOver \<Rightarrow> err | ContextDone c \<Rightarrow> c))" by (cases h) (simp_all add: Start_def)
    with False f(1,2) h show ?thesis by auto
  qed
  with \<open>k \<le> n\<close> before show ?thesis by blast
qed

theorem metrics_server_waits_witness:
  "\<exists>k \<le> 5. (\<forall>j < k. \<not> j \<ge> (3::nat)) \<and>
     (if k \<ge> 3 then Start (\<lambda>j. if j = 5 then Some TimeOver else None) (\<lambda>j _. if j \<ge> 3 then None else Some (GoError ''no such file'')) ServerClosed = Some (Some k, None)
      else k = 5)"
  using metrics_server_waits [of "\<lambda>j. if j = 5 then Some TimeOver else None" 5 "\<lambda>j _. if j \<ge> 3 then None else Some (GoError ''no such file'')" ServerClosed]
  by (auto simp: there_def split: if_splits)

end
