(* ===== verification/Bundle_CSV.thy ===== *)
theory Bundle_CSV
  imports Daemon_Files "HOL-Library.List_Lexorder" "HOL-Library.Char_ord"
begin

text \<open>
  The release tool \<open>src/bundle-hack/update_csv.go\<close>: it reads the operator's ClusterServiceVersion, a YAML document,
  rewrites version, annotations, icon and images in it, and replaces the file. The document is a tree; the
  nested maps and slices that the code updates in place occur once each in it, so an update in place is the update of the tree at a path.
  The YAML library is a parameter, a reader \<open>unmarshal\<close> and a writer \<open>encode\<close>. Files are those of \<open>Daemon_Files\<close>.
  The tool ends by \<open>log.Fatal\<close> or by a panic of Go wherever it does not finish.
\<close>

section \<open>Documents\<close>

text \<open>
  Values of type \<open>interface{}\<close> as the YAML reader builds them: \<open>nil\<close>, strings, sequences, maps with string keys, and
  everything else (numbers, booleans, times, maps with other keys).
\<close>

datatype yaml = YNull | YStr string | YSeq "yaml list" | YMap "string \<Rightarrow> yaml option" | YOther string

datatype step = Key string | Idx nat

datatype failure = Fatal string | GoPanic string

text \<open>Reading a missing key of a map gives \<open>nil\<close>. A type assertion that does not hold panics, as does an index out of range.\<close>

definition child :: "(string \<Rightarrow> yaml option) \<Rightarrow> string \<Rightarrow> yaml" where
  "child m k = (case m k of None \<Rightarrow> YNull | Some v \<Rightarrow> v)"

fun into :: "step \<Rightarrow> yaml \<Rightarrow> failure + yaml" where
  "into (Key k) (YMap m) = Inr (child m k)"
| "into (Idx i) (YSeq l) = (if i < length l then Inr (l ! i) else Inl (GoPanic ''index out of range''))"
| "into _ _ = Inl (GoPanic ''interface conversion'')"

definition bindS :: "'e + 'a \<Rightarrow> ('a \<Rightarrow> 'e + 'b) \<Rightarrow> 'e + 'b" where
  "bindS r f = (case r of Inl e \<Rightarrow> Inl e | Inr a \<Rightarrow> f a)"

lemma bindS_simps [simp]: "bindS (Inl e) f = Inl e" "bindS (Inr a) f = f a"
  by (simp_all add: bindS_def)

lemma bindS_Inr_iff [simp]: "bindS r f = Inr b \<longleftrightarrow> (\<exists>a. r = Inr a \<and> f a = Inr b)"
  by (cases r) simp_all

fun at :: "step list \<Rightarrow> yaml \<Rightarrow> failure + yaml" where
  "at [] v = Inr v"
| "at (s # p) v = bindS (into s v) (at p)"

text \<open>An assignment in place: to a map entry, whether it was there or not, or to an element of a slice that is there.\<close>

fun put :: "step list \<Rightarrow> yaml \<Rightarrow> yaml \<Rightarrow> yaml" where
  "put [] v t = v"
| "put (Key k # p) v (YMap m) = YMap (m(k \<mapsto> put p v (child m k)))"
| "put (Idx i # p) v (YSeq l) = YSeq (if i < length l then l[i := put p v (l ! i)] else l)"
| "put _ v t = t"

definition erase :: "string \<Rightarrow> yaml \<Rightarrow> yaml" where
  "erase k t = (case t of YMap m \<Rightarrow> YMap (m(k := None)) | _ \<Rightarrow> t)"

fun asStr :: "yaml \<Rightarrow> failure + string" where
  "asStr (YStr s) = Inr s"
| "asStr _ = Inl (GoPanic ''interface conversion'')"

fun asMap :: "yaml \<Rightarrow> failure + (string \<Rightarrow> yaml option)" where
  "asMap (YMap m) = Inr m"
| "asMap _ = Inl (GoPanic ''interface conversion'')"

section \<open>The rewriting of the document\<close>

text \<open>\<open>strings.Replace(s, old, new, 1)\<close>\<close>

fun Replace1 :: "string \<Rightarrow> string \<Rightarrow> string \<Rightarrow> string" where
  "Replace1 [] old new = (if old = [] then new else [])"
| "Replace1 (x # xs) old new = (if HasPrefix (x # xs) old then new @ drop (length old) (x # xs) else x # Replace1 xs old new)"

definition feature :: "string \<Rightarrow> string" where "feature f = ''features.operators.openshift.io/'' @ f"

definition requiredAnnotations :: "(string \<times> string) list" where
  "requiredAnnotations = [(feature ''disconnected'', ''true''), (feature ''fips-compliant'', ''true''), (feature ''proxy-aware'', ''false''),
     (feature ''tls-profiles'', ''false''), (feature ''token-auth-aws'', ''false''), (feature ''token-auth-azure'', ''false''),
     (feature ''token-auth-gcp'', ''false'')]"

abbreviation annotationPath :: "string \<Rightarrow> step list" where
  "annotationPath k \<equiv> [Key ''metadata'', Key ''annotations'', Key k]"

fun annotate :: "(string \<times> string) list \<Rightarrow> yaml \<Rightarrow> yaml" where
  "annotate [] csv = csv"
| "annotate ((key, value) # rest) csv = annotate rest (put (annotationPath key) (YStr value) csv)"

definition addRequiredAnnotations :: "yaml \<Rightarrow> failure + yaml" where
  "addRequiredAnnotations csv =
     bindS (at [Key ''metadata'', Key ''annotations''] csv) (\<lambda>annotations.
       case annotations of YMap _ \<Rightarrow> Inr (annotate requiredAnnotations csv)
       | _ \<Rightarrow> Inl (Fatal ''annotations does not exist within metadata in the CSV content''))"

text \<open>
  The test after the two type assertions sees the outcome of the second only, that of the metadata; when the specification
  is no map, the first assignment writes to a \<open>nil\<close> map.
\<close>

definition replaceVersion :: "string \<Rightarrow> string \<Rightarrow> yaml \<Rightarrow> failure + yaml" where
  "replaceVersion oldVersion newVersion csv =
     bindS (at [Key ''spec''] csv) (\<lambda>spec. bindS (at [Key ''metadata''] csv) (\<lambda>metadata.
       case metadata of YMap _ \<Rightarrow>
         (case spec of YMap _ \<Rightarrow>
            (let csv1 = put [Key ''spec'', Key ''replaces''] (YStr (''file-integrity-operator.v'' @ oldVersion))
                          (put [Key ''spec'', Key ''version''] (YStr newVersion) csv) in
             bindS (bindS (at [Key ''metadata'', Key ''name''] csv1) asStr) (\<lambda>name.
             let csv2 = put [Key ''metadata'', Key ''name''] (YStr (Replace1 name oldVersion newVersion)) csv1 in
             bindS (bindS (at (annotationPath ''olm.skipRange'') csv2) asStr) (\<lambda>range.
             Inr (put (annotationPath ''olm.skipRange'') (YStr (Replace1 range oldVersion newVersion)) csv2))))
          | _ \<Rightarrow> Inl (GoPanic ''assignment to entry in nil map''))
       | _ \<Rightarrow> Inl (Fatal ''spec does not exist in the CSV content'')))"

text \<open>\<open>iconData\<close> is what reading the icon gave, or nothing when that failed.\<close>

definition iconPath :: fpath where "iconPath = (''../bundle/icons'', ''icon.png'')"

definition iconEntry :: "string \<Rightarrow> yaml" where
  "iconEntry iconData = YSeq [YMap [''base64data'' \<mapsto> YStr (encodetoBase64 iconData), ''media'' \<mapsto> YStr ''image/png'']]"

definition replaceIcon :: "string option \<Rightarrow> yaml \<Rightarrow> failure + yaml" where
  "replaceIcon iconData csv =
     bindS (asMap csv) (\<lambda>top. case top ''spec'' of
       None \<Rightarrow> Inl (Fatal ''spec does not exist in the CSV content'')
     | Some s \<Rightarrow> bindS (asMap s) (\<lambda>_. case iconData of
         None \<Rightarrow> Inl (Fatal ''Failed to read icon file'')
       | Some iconData \<Rightarrow> Inr (put [Key ''spec'', Key ''icon''] (iconEntry iconData) csv)))"

definition redHatRegistry :: string where
  "redHatRegistry = ''registry.redhat.io/compliance/openshift-file-integrity-rhel8-operator''"

definition pullSpecOf :: "string \<Rightarrow> bool \<Rightarrow> failure + string" where
  "pullSpecOf operatorImage translateToRedHat =
     (if translateToRedHat then
        (let parts = Split (CHR ''@'') operatorImage in
         if length parts > 2 then Inl (Fatal ''Failed to safely determine image SHA from Konflux pull spec'')
         else if length parts < 2 then Inl (GoPanic ''index out of range'')
         else Inr (redHatRegistry @ ''@'' @ parts ! 1))
      else Inr operatorImage)"

definition containerPath :: "step list" where
  "containerPath = [Key ''spec'', Key ''install'', Key ''spec'', Key ''deployments'', Idx 0, Key ''spec'', Key ''template'', Key ''spec'',
     Key ''containers'', Idx 0]"

fun setRelatedImage :: "string \<Rightarrow> yaml list \<Rightarrow> failure + yaml list" where
  "setRelatedImage pullSpec [] = Inr []"
| "setRelatedImage pullSpec (item # rest) =
     bindS (asMap item) (\<lambda>variable.
     bindS (setRelatedImage pullSpec rest) (\<lambda>rest'.
       Inr ((if child variable ''name'' = YStr ''RELATED_IMAGE_OPERATOR'' then YMap (variable(''value'' \<mapsto> YStr pullSpec)) else item) # rest')))"

text \<open>A panic is recovered by the deferred \<open>recoverFromReplaceImages\<close>, which ends the tool.\<close>

definition recoverFromReplaceImages :: "failure + 'a \<Rightarrow> failure + 'a" where
  "recoverFromReplaceImages r = (case r of
       Inl (GoPanic _) \<Rightarrow> Inl (Fatal ''It was not possible to replace RELATED_IMAGE_OPERATOR'')
     | _ \<Rightarrow> r)"

definition replaceImages :: "string \<Rightarrow> bool \<Rightarrow> yaml \<Rightarrow> failure + yaml" where
  "replaceImages operatorImage translateToRedHat csv = recoverFromReplaceImages (
     bindS (pullSpecOf operatorImage translateToRedHat) (\<lambda>pullSpec.
     bindS (at (containerPath @ [Key ''env'']) csv) (\<lambda>env. case env of
       YSeq items \<Rightarrow>
         bindS (setRelatedImage pullSpec items) (\<lambda>items'.
         let csv1 = put (containerPath @ [Key ''env'']) (YSeq items') csv in
         bindS (bindS (at containerPath csv1) asMap) (\<lambda>_. Inr (put (containerPath @ [Key ''image'']) (YStr pullSpec) csv1)))
     | _ \<Rightarrow> Inl (Fatal ''env with RELATED_IMAGE_OPERATOR does not exist in the CSV content''))))"

definition removeRelated :: "yaml \<Rightarrow> failure + yaml" where
  "removeRelated csv =
     bindS (at [Key ''spec''] csv) (\<lambda>spec. case spec of
       YMap _ \<Rightarrow> Inr (put [Key ''spec''] (erase ''relatedImages'' spec) csv)
     | _ \<Rightarrow> Inl (Fatal ''spec does not exist in the CSV content''))"

section \<open>Files and the tool\<close>

definition ReadFile :: "fpath \<Rightarrow> (oserror + string) os" where
  "ReadFile p = do {
     s \<leftarrow> State_Monad.get;
     State_Monad.return (case fault s ''read'' p of Some e \<Rightarrow> Inl (EIO e)
       | None \<Rightarrow> (case files s p of None \<Rightarrow> Inl ENOENT
           | Some f \<Rightarrow> if kind f = Directory then Inl (EIO ''is a directory'') else Inr (content f))) }"

text \<open>\<open>os.ReadDir\<close> lists the names in the order of their bytes.\<close>

definition ReadDir :: "string \<Rightarrow> (oserror + string list) os" where
  "ReadDir dir = do {
     s \<leftarrow> State_Monad.get;
     State_Monad.return (case fault s ''readdir'' (dir, []) of Some e \<Rightarrow> Inl (EIO e)
       | None \<Rightarrow> Inr (sort (remdups (map snd (filter (\<lambda>p. fst p = dir) (map fst (disk s))))))) }"

definition HasSuffix :: "string \<Rightarrow> string \<Rightarrow> bool" where
  "HasSuffix s suffix \<longleftrightarrow> HasPrefix (rev s) (rev suffix)"

definition csvSuffix :: string where "csvSuffix = ''clusterserviceversion.yaml''"

fun firstCSV :: "string \<Rightarrow> string list \<Rightarrow> failure + fpath" where
  "firstCSV dir [] = Inl (Fatal ''Failed to find CSV file in manifest dir'')"
| "firstCSV dir (filename # rest) = (if HasSuffix filename csvSuffix then Inr (dir, filename) else firstCSV dir rest)"

definition getInputCSVFilePath :: "string \<Rightarrow> (failure + fpath) os" where
  "getInputCSVFilePath dir = do {
     r \<leftarrow> ReadDir dir;
     State_Monad.return (case r of Inl _ \<Rightarrow> Inl (Fatal ''Failed to find manifest dir'') | Inr filenames \<Rightarrow> firstCSV dir filenames) }"

definition getOutputCSVFilePath :: "string \<Rightarrow> string \<Rightarrow> fpath" where
  "getOutputCSVFilePath dir version = (dir, ''file-integrity-operator.v'' @ version @ ''.clusterserviceversion.yaml'')"

definition readCSV :: "(string \<Rightarrow> (string \<Rightarrow> yaml option) option) \<Rightarrow> fpath \<Rightarrow> (failure + yaml) os" where
  "readCSV unmarshal csvFilename = do {
     r \<leftarrow> ReadFile csvFilename;
     State_Monad.return (case r of Inl _ \<Rightarrow> Inl (Fatal ''Failed to read file'')
       | Inr yamlFile \<Rightarrow> (case unmarshal yamlFile of None \<Rightarrow> Inl (Fatal ''Failed to unmarshal yaml file'') | Some csv \<Rightarrow> Inr (YMap csv))) }"

definition fatalOn :: "string \<Rightarrow> oserror option os \<Rightarrow> failure option os" where
  "fatalOn msg m = do { err \<leftarrow> m; State_Monad.return (case err of None \<Rightarrow> None | Some _ \<Rightarrow> Some (Fatal msg)) }"

definition replaceCSV :: "(yaml \<Rightarrow> string option) \<Rightarrow> fpath \<Rightarrow> fpath \<Rightarrow> yaml \<Rightarrow> (failure + unit) os" where
  "replaceCSV encode csvFilename outputCSVFilename csv =
     thenE (fatalOn ''Failed to remove file'' (Remove csvFilename)) (
     thenE (fatalOn ''Failed to create file'' (OpenTruncate outputCSVFilename)) (
       case encode csv of None \<Rightarrow> throw (Fatal ''Failed encode the CSV into yaml'')
       | Some yamlText \<Rightarrow> thenE (fatalOn ''Failed encode the CSV into yaml'' (CopyTo outputCSVFilename yamlText)) (ok ())))"

definition defaultOperatorImage :: string where
  "defaultOperatorImage = ''quay.io/redhat-user-workloads/ocp-isc-tenant/file-integrity-operator-dev@sha256:ff2baa1c7c261cec8ac2703e3f89af7e82826ad0a409efe645a259f4631310b7''"

text \<open>The image and whether to translate it, from the arguments after the three required ones.\<close>

definition imageArgs :: "string list \<Rightarrow> string \<times> bool" where
  "imageArgs rest =
     (let (operatorImageURL, translateToRedHat) =
            (if length rest \<ge> 1 \<and> rest ! 0 \<noteq> '''' then (rest ! 0, False) else (defaultOperatorImage, True))
      in (operatorImageURL, if length rest \<ge> 2 then rest ! 1 = ''true'' else translateToRedHat))"

definition rewriteCSV :: "string \<Rightarrow> string \<Rightarrow> string option \<Rightarrow> string \<Rightarrow> bool \<Rightarrow> yaml \<Rightarrow> failure + yaml" where
  "rewriteCSV oldVersion newVersion iconData operatorImageURL translateToRedHat csv =
     bindS (addRequiredAnnotations csv) (\<lambda>csv.
     bindS (replaceVersion oldVersion newVersion csv) (\<lambda>csv.
     bindS (replaceIcon iconData csv) (\<lambda>csv.
     bindS (replaceImages operatorImageURL translateToRedHat csv) removeRelated)))"

text \<open>\<open>args\<close> are the arguments after the name of the program.\<close>

definition main_update_csv :: "(string \<Rightarrow> (string \<Rightarrow> yaml option) option) \<Rightarrow> (yaml \<Rightarrow> string option) \<Rightarrow> string list \<Rightarrow> (failure + unit) os" where
  "main_update_csv unmarshal encode args =
     (case args of manifestsDir # oldVersion # newVersion # rest \<Rightarrow>
        bindE (getInputCSVFilePath manifestsDir) (\<lambda>csvFilename.
        bindE (readCSV unmarshal csvFilename) (\<lambda>csv. do {
          icon \<leftarrow> ReadFile iconPath;
          (case rewriteCSV oldVersion newVersion (case icon of Inl _ \<Rightarrow> None | Inr iconData \<Rightarrow> Some iconData)
                  (fst (imageArgs rest)) (snd (imageArgs rest)) csv of
             Inl e \<Rightarrow> throw e
           | Inr csv' \<Rightarrow> replaceCSV encode csvFilename (getOutputCSVFilePath manifestsDir newVersion) csv') }))
      | _ \<Rightarrow> throw (Fatal ''Usage: update_csv <manifestsDir> <oldVersion> <newVersion> [operatorImageURL] [translateToRedHat]''))"

end
