(* ===== verification/Bundle_Properties.thy ===== *)
theory Bundle_Properties
  imports Bundle_CSV File_Properties
begin

text \<open>
  What a run of the release tool makes of the ClusterServiceVersion. The calculus of paths says what an assignment at one path
  does to what is read at another: it is read back, or the paths part and nothing changes. From it come the values
  the tool sets, that everything else in the document stays, and what happens to the file when the tool does not finish.
\<close>

section \<open>Paths\<close>

text \<open>Two paths part when neither continues the other.\<close>

fun apart :: "step list \<Rightarrow> step list \<Rightarrow> bool" where
  "apart [] q = False"
| "apart p [] = False"
| "apart (a # p) (b # q) \<longleftrightarrow> a \<noteq> b \<or> apart p q"

fun starts :: "step list \<Rightarrow> step list \<Rightarrow> bool" where
  "starts [] q = True"
| "starts (a # p) [] = False"
| "starts (a # p) (b # q) \<longleftrightarrow> a = b \<and> starts p q"

definition map_at :: "step list \<Rightarrow> yaml \<Rightarrow> bool" where
  "map_at q t \<longleftrightarrow> (\<exists>m. at q t = Inr (YMap m))"

lemma child_upd [simp]: "child (m(k := Some v)) k' = (if k' = k then v else child m k')"
  by (simp add: child_def)

lemma at_append: "at (p @ q) t = bindS (at p t) (at q)"
proof (induction p arbitrary: t)
  case (Cons a p)
  then show ?case by (cases "into a t") simp_all
qed simp

lemma into_other: "into b (YMap m) = (case b of Key k \<Rightarrow> Inr (child m k) | Idx _ \<Rightarrow> Inl (GoPanic ''interface conversion''))"
  "into b (YSeq l) = (case b of Idx i \<Rightarrow> if i < length l then Inr (l ! i) else Inl (GoPanic ''index out of range'')
     | Key _ \<Rightarrow> Inl (GoPanic ''interface conversion''))"
  by (cases b; simp)+

lemma at_put_apart: "apart p q \<Longrightarrow> at q (put p v t) = at q t"
proof (induction p v t arbitrary: q rule: put.induct)
  case (2 k p v m)
  then obtain b q' where q: "q = b # q'" by (cases q) auto
  with 2 show ?case by (auto simp: into_other child_def split: step.splits)
next
  case (3 i p v l)
  then obtain b q' where q: "q = b # q'" by (cases q) auto
  with 3 show ?case by (auto simp: into_other nth_list_update split: step.splits)
qed auto

lemma at_put_same: "map_at q t \<Longrightarrow> at (q @ [Key k]) (put (q @ [Key k]) v t) = Inr v"
proof (induction q arbitrary: t)
  case Nil
  then show ?case by (auto simp: map_at_def)
next
  case (Cons a q)
  then obtain m where m: "at (a # q) t = Inr (YMap m)" by (auto simp: map_at_def)
  then obtain u where u: "into a t = Inr u" "at q u = Inr (YMap m)" by auto
  with Cons.IH [of u] have IH: "at (q @ [Key k]) (put (q @ [Key k]) v u) = Inr v" by (simp add: map_at_def)
  from u(1) IH show ?case by (cases a; cases t) (auto split: if_splits)
qed

lemma map_at_put: "map_at q t \<Longrightarrow> \<not> starts p q \<Longrightarrow> map_at q (put p v t)"
proof (induction p v t arbitrary: q rule: put.induct)
  case (2 k p v m)
  then show ?case
  proof (cases q)
    case (Cons b q')
    with 2 show ?thesis by (cases b) (auto simp: map_at_def)
  qed (auto simp: map_at_def)
next
  case (3 i p v l)
  then show ?case
  proof (cases q)
    case (Cons b q')
    with 3 show ?thesis by (cases b) (auto simp: map_at_def nth_list_update split: if_splits)
  qed (auto simp: map_at_def)
qed auto

lemma at_erase:
  assumes "at [Key s] t = Inr (YMap m)"
  shows "at [Key s, Key k] (put [Key s] (erase k (YMap m)) t) = Inr YNull"
    and "apart [Key s, Key k] p \<Longrightarrow> at p (put [Key s] (erase k (YMap m)) t) = at p t"
proof -
  from assms obtain top where t: "t = YMap top" "child top s = YMap m" by (cases t) auto
  then show "at [Key s, Key k] (put [Key s] (erase k (YMap m)) t) = Inr YNull" by (simp add: erase_def child_def)
  assume "apart [Key s, Key k] p"
  then obtain b q where p: "p = b # q" and q: "b \<noteq> Key s \<or> apart [Key k] q" by (cases p) auto
  show "at p (put [Key s] (erase k (YMap m)) t) = at p t"
  proof (cases "b = Key s")
    case True
    with q obtain c r where "q = c # r" "c \<noteq> Key k" by (cases q) auto
    with p True t show ?thesis by (cases c) (simp_all add: erase_def child_def)
  next
    case False
    with p t show ?thesis by (cases b) (auto simp: child_def)
  qed
qed

declare at.simps(2) [simp del] put.simps [simp del]

section \<open>What each rewriting step does\<close>

text \<open>All that differs between two documents is at or below the given paths, or leads to them.\<close>

definition wrote :: "step list set \<Rightarrow> yaml \<Rightarrow> yaml \<Rightarrow> bool" where
  "wrote T t t' \<longleftrightarrow> (\<forall>p. (\<forall>q \<in> T. apart q p) \<longrightarrow> at p t' = at p t)"

lemma wrote_put: "wrote {p} t (put p v t)"
  by (simp add: wrote_def at_put_apart)

lemma wrote_trans: "wrote A t u \<Longrightarrow> wrote B u v \<Longrightarrow> wrote (A \<union> B) t v"
  by (simp add: wrote_def)

lemma wrote_put_trans: "wrote A t u \<Longrightarrow> wrote (insert p A) t (put p v u)"
  using wrote_trans [OF _ wrote_put, of A t u p v] by simp

lemma wroteD: "wrote T t t' \<Longrightarrow> \<forall>q \<in> T. apart q p \<Longrightarrow> at p t' = at p t"
  by (simp add: wrote_def)

lemma annotate_effect:
  "map_at [Key ''metadata'', Key ''annotations''] t \<Longrightarrow> distinct (map fst l) \<Longrightarrow>
     (\<forall>(k, v) \<in> set l. at (annotationPath k) (annotate l t) = Inr (YStr v)) \<and> wrote (annotationPath ` fst ` set l) t (annotate l t)"
proof (induction l t rule: annotate.induct)
  case (1 t)
  then show ?case by (simp add: wrote_def)
next
  case (2 k v rest t)
  let ?t = "put (annotationPath k) (YStr v) t"
  from 2(2) have "map_at [Key ''metadata'', Key ''annotations''] ?t" by (rule map_at_put) simp
  with 2 have IH: "\<forall>(k, v) \<in> set rest. at (annotationPath k) (annotate rest ?t) = Inr (YStr v)"
    "wrote (annotationPath ` fst ` set rest) ?t (annotate rest ?t)" by auto
  have "at (annotationPath k) (annotate rest ?t) = at (annotationPath k) ?t"
    using 2(3) by (intro wroteD [OF IH(2)]) force
  also have "\<dots> = Inr (YStr v)" using at_put_same [OF 2(2), of k "YStr v"] by simp
  finally have "at (annotationPath k) (annotate rest ?t) = Inr (YStr v)" .
  moreover have "wrote ({annotationPath k} \<union> annotationPath ` fst ` set rest) t (annotate rest ?t)"
    by (rule wrote_trans [OF wrote_put IH(2)])
  ultimately show ?case using IH(1) by simp
qed

lemma required_distinct: "distinct (map fst requiredAnnotations)"
  by (simp add: requiredAnnotations_def feature_def)

lemma case_map_iff [simp]: "(case v of YMap m \<Rightarrow> f m | _ \<Rightarrow> Inl e) = Inr x \<longleftrightarrow> (\<exists>m. v = YMap m \<and> f m = Inr x)"
  by (cases v) auto

lemma case_seq_iff [simp]: "(case v of YSeq l \<Rightarrow> f l | _ \<Rightarrow> Inl e) = Inr x \<longleftrightarrow> (\<exists>l. v = YSeq l \<and> f l = Inr x)"
  by (cases v) auto

lemma addRequiredAnnotations_effect:
  assumes "addRequiredAnnotations csv = Inr csv'"
  shows "(\<forall>(k, v) \<in> set requiredAnnotations. at (annotationPath k) csv' = Inr (YStr v)) \<and>
     wrote (annotationPath ` fst ` set requiredAnnotations) csv csv'"
proof -
  from assms have "map_at [Key ''metadata'', Key ''annotations''] csv" "csv' = annotate requiredAnnotations csv"
    by (auto simp: addRequiredAnnotations_def map_at_def)
  with annotate_effect [OF _ required_distinct] show ?thesis by blast
qed

lemma asStr_iff [simp]: "asStr v = Inr s \<longleftrightarrow> v = YStr s"
  by (cases v) auto

lemma asMap_iff [simp]: "asMap v = Inr m \<longleftrightarrow> v = YMap m"
  by (cases v) auto

definition versionPaths :: "step list list" where
  "versionPaths = [annotationPath ''olm.skipRange'', [Key ''metadata'', Key ''name''], [Key ''spec'', Key ''replaces''], [Key ''spec'', Key ''version'']]"

lemma replaceVersion_effect:
  assumes "replaceVersion old new csv = Inr csv'"
  shows "\<exists>name range. at [Key ''metadata'', Key ''name''] csv = Inr (YStr name) \<and> at (annotationPath ''olm.skipRange'') csv = Inr (YStr range) \<and>
     at [Key ''spec'', Key ''version''] csv' = Inr (YStr new) \<and> at [Key ''spec'', Key ''replaces''] csv' = Inr (YStr (''file-integrity-operator.v'' @ old)) \<and>
     at [Key ''metadata'', Key ''name''] csv' = Inr (YStr (Replace1 name old new)) \<and>
     at (annotationPath ''olm.skipRange'') csv' = Inr (YStr (Replace1 range old new)) \<and> wrote (set versionPaths) csv csv'"
proof -
  define csv1 where "csv1 = put [Key ''spec'', Key ''replaces''] (YStr (''file-integrity-operator.v'' @ old)) (put [Key ''spec'', Key ''version''] (YStr new) csv)"
  from assms obtain m1 m2 name where maps: "at [Key ''spec''] csv = Inr (YMap m1)" "at [Key ''metadata''] csv = Inr (YMap m2)"
    and name: "at [Key ''metadata'', Key ''name''] csv1 = Inr (YStr name)"
    and rest: "bindS (bindS (at (annotationPath ''olm.skipRange'') (put [Key ''metadata'', Key ''name''] (YStr (Replace1 name old new)) csv1)) asStr)
      (\<lambda>range. Inr (put (annotationPath ''olm.skipRange'') (YStr (Replace1 range old new)) (put [Key ''metadata'', Key ''name''] (YStr (Replace1 name old new)) csv1))) = Inr csv'"
    by (auto simp: replaceVersion_def Let_def csv1_def)
  define csv2 where "csv2 = put [Key ''metadata'', Key ''name''] (YStr (Replace1 name old new)) csv1"
  from rest obtain range where range: "at (annotationPath ''olm.skipRange'') csv2 = Inr (YStr range)"
    and csv': "csv' = put (annotationPath ''olm.skipRange'') (YStr (Replace1 range old new)) csv2" by (auto simp: csv2_def)
  have m: "map_at [Key ''spec''] csv" "map_at [Key ''metadata''] csv" using maps by (simp_all add: map_at_def)
  have m': "map_at [Key ''spec''] (put [Key ''spec'', Key ''version''] (YStr new) csv)" "map_at [Key ''metadata''] csv1"
    using m by (simp_all add: csv1_def map_at_put)
  have ann: "map_at [Key ''metadata'', Key ''annotations''] csv2"
    using range by (cases "at [Key ''metadata'', Key ''annotations''] csv2")
      (auto simp: map_at_def at.simps into_other elim!: into.elims split: sum.splits)
  have "wrote (set versionPaths) csv csv'"
    unfolding csv' csv2_def csv1_def versionPaths_def list.set by (intro wrote_put_trans wrote_put)
  moreover have "at [Key ''metadata'', Key ''name''] csv = Inr (YStr name)" using name by (simp add: csv1_def at_put_apart)
  moreover have "at (annotationPath ''olm.skipRange'') csv = Inr (YStr range)" using range by (simp add: csv1_def csv2_def at_put_apart)
  moreover have "at [Key ''spec'', Key ''version''] csv' = Inr (YStr new)"
    using at_put_same [OF m(1), of "''version''"] by (simp add: csv' csv2_def csv1_def at_put_apart)
  moreover have "at [Key ''spec'', Key ''replaces''] csv' = Inr (YStr (''file-integrity-operator.v'' @ old))"
    using at_put_same [OF m'(1), of "''replaces''"] by (simp add: csv' csv2_def csv1_def at_put_apart)
  moreover have "at [Key ''metadata'', Key ''name''] csv' = Inr (YStr (Replace1 name old new))"
    using at_put_same [OF m'(2), of "''name''"] by (simp add: csv' csv2_def at_put_apart)
  moreover have "at (annotationPath ''olm.skipRange'') csv' = Inr (YStr (Replace1 range old new))"
    using at_put_same [OF ann, of "''olm.skipRange''"] by (simp add: csv')
  ultimately show ?thesis by blast
qed

lemma replaceIcon_effect:
  assumes "replaceIcon iconData csv = Inr csv'"
  shows "\<exists>d. iconData = Some d \<and> at [Key ''spec'', Key ''icon''] csv' = Inr (iconEntry d) \<and> wrote {[Key ''spec'', Key ''icon'']} csv csv'"
proof -
  from assms obtain top m d where "csv = YMap top" "top ''spec'' = Some (YMap m)" "iconData = Some d"
    and csv': "csv' = put [Key ''spec'', Key ''icon''] (iconEntry d) csv"
    by (auto simp: replaceIcon_def split: option.splits)
  then have "map_at [Key ''spec''] csv" by (simp add: map_at_def at.simps child_def)
  from at_put_same [OF this, of "''icon''"] csv' \<open>iconData = Some d\<close> show ?thesis by (auto simp: wrote_put)
qed

text \<open>Replacing a value by one that differs below it at some paths only.\<close>

lemma at_put_at: "at p t = Inr u \<Longrightarrow> at p (put p v t) = Inr v"
proof (induction p arbitrary: t)
  case (Cons a p)
  then obtain w where w: "into a t = Inr w" "at p w = Inr u" by (auto simp: at.simps)
  with Cons.IH [of w] show ?case by (cases a; cases t) (auto simp: at.simps put.simps split: if_splits)
qed (simp add: put.simps)

lemma apart_cases: "apart p q \<or> starts q p \<or> (\<exists>r. q = p @ r)"
  by (induction p q rule: apart.induct) auto

lemma apart_Nil [simp]: "\<not> apart p []"
  by (cases p) auto

lemma starts_not_apart: "starts q p \<Longrightarrow> \<not> apart (p @ r) q"
  by (induction q p rule: starts.induct) auto

lemma apart_append [simp]: "apart (p @ q) (p @ r) \<longleftrightarrow> apart q r"
  by (induction p) auto

lemma wrote_below:
  assumes "at p t = Inr u" and "wrote T u v" and "T \<noteq> {}"
  shows "wrote ((@) p ` T) t (put p v t)"
  unfolding wrote_def
proof (intro allI impI)
  fix q assume q: "\<forall>r \<in> (@) p ` T. apart r q"
  from assms(3) obtain x where "x \<in> T" by blast
  with q have "apart (p @ x) q" by blast
  then have "\<not> starts q p" using starts_not_apart by blast
  with apart_cases [of p q] consider "apart p q" | r where "q = p @ r" by blast
  then show "at q (put p v t) = at q t"
  proof cases
    case 2
    with q have "\<forall>x \<in> T. apart x r" by simp
    with 2 assms(2) show ?thesis by (simp add: at_append at_put_at [OF assms(1)] assms(1) wrote_def)
  qed (rule at_put_apart)
qed

abbreviation related :: "(string \<Rightarrow> yaml option) \<Rightarrow> bool" where
  "related variable \<equiv> child variable ''name'' = YStr ''RELATED_IMAGE_OPERATOR''"

definition with_image :: "string \<Rightarrow> (string \<Rightarrow> yaml option) \<Rightarrow> (string \<Rightarrow> yaml option)" where
  "with_image pullSpec m = (if related m then m(''value'' \<mapsto> YStr pullSpec) else m)"

lemma setRelatedImage_effect:
  "setRelatedImage pullSpec items = Inr items' \<Longrightarrow> length items' = length items \<and> (\<forall>i < length items. \<exists>m. items ! i = YMap m \<and>
     items' ! i = YMap (with_image pullSpec m))"
proof (induction pullSpec items arbitrary: items' rule: setRelatedImage.induct)
  case (2 pullSpec item rest)
  then obtain m rest' where "item = YMap m" "setRelatedImage pullSpec rest = Inr rest'"
    "items' = YMap (with_image pullSpec m) # rest'" by (auto simp: with_image_def split: if_splits)
  with 2(1) show ?case by (auto simp: less_Suc_eq_0_disj nth_Cons split: nat.splits)
qed simp

lemma setRelatedImage_wrote:
  assumes "setRelatedImage pullSpec items = Inr items'"
  shows "wrote (range (\<lambda>i. [Idx i, Key ''value''])) (YSeq items) (YSeq items')"
  unfolding wrote_def
proof (intro allI impI)
  fix p assume p: "\<forall>q \<in> range (\<lambda>i. [Idx i, Key ''value'']). apart q p"
  note eff = setRelatedImage_effect [OF assms]
  from p have "apart [Idx 0, Key ''value''] p" by blast
  then obtain a q where pq: "p = a # q" by (cases p) auto
  show "at p (YSeq items') = at p (YSeq items)"
  proof (cases a)
    case (Idx i)
    show ?thesis
    proof (cases "i < length items")
      case True
      with eff obtain m where m: "items ! i = YMap m" "items' ! i = YMap (with_image pullSpec m)" by blast
      from p pq Idx have "apart [Key ''value''] q" by auto
      then obtain b r where "q = b # r" "b \<noteq> Key ''value''" by (cases q) auto
      with m pq Idx eff True show ?thesis by (cases b) (auto simp: at.simps with_image_def)
    qed (use pq Idx eff in \<open>simp add: at.simps\<close>)
  qed (simp add: pq at.simps)
qed

lemma replaceImages_effect:
  assumes "replaceImages operatorImage translate csv = Inr csv'"
  shows "\<exists>pullSpec items. pullSpecOf operatorImage translate = Inr pullSpec \<and> at (containerPath @ [Key ''env'']) csv = Inr (YSeq items) \<and>
     at (containerPath @ [Key ''image'']) csv' = Inr (YStr pullSpec) \<and>
     (\<forall>i m. i < length items \<longrightarrow> items ! i = YMap m \<longrightarrow> related m \<longrightarrow> at (containerPath @ [Key ''env'', Idx i, Key ''value'']) csv' = Inr (YStr pullSpec)) \<and>
     (\<forall>i m. i < length items \<longrightarrow> items ! i = YMap m \<longrightarrow> \<not> related m \<longrightarrow> at (containerPath @ [Key ''env'', Idx i]) csv' = Inr (YMap m)) \<and>
     wrote (insert (containerPath @ [Key ''image'']) (range (\<lambda>i. containerPath @ [Key ''env'', Idx i, Key ''value'']))) csv csv'"
proof -
  let ?env = "containerPath @ [Key ''env'']"
  from assms obtain pullSpec items items' m where *: "pullSpecOf operatorImage translate = Inr pullSpec" "at ?env csv = Inr (YSeq items)"
      "setRelatedImage pullSpec items = Inr items'"
    and m: "at containerPath (put ?env (YSeq items') csv) = Inr (YMap m)"
    and csv': "csv' = put (containerPath @ [Key ''image'']) (YStr pullSpec) (put ?env (YSeq items') csv)"
    by (auto simp: replaceImages_def recoverFromReplaceImages_def Let_def split: sum.splits failure.splits)
  have e: "at ?env csv' = Inr (YSeq items')" using at_put_at [OF *(2)] by (simp add: csv' at_put_apart)
  have env: "at (?env @ r) csv' = at r (YSeq items')" for r by (simp only: at_append [of ?env r] e bindS_simps)
  have w: "wrote (insert (containerPath @ [Key ''image'']) ((@) ?env ` range (\<lambda>i. [Idx i, Key ''value'']))) csv csv'"
    unfolding csv' by (intro wrote_put_trans wrote_below [OF *(2)] setRelatedImage_wrote [OF *(3)]) auto
  have im: "(@) ?env ` range (\<lambda>i. [Idx i, Key ''value'']) = range (\<lambda>i. containerPath @ [Key ''env'', Idx i, Key ''value''])"
    by (simp add: image_image)
  have image: "at (containerPath @ [Key ''image'']) csv' = Inr (YStr pullSpec)"
    unfolding csv' by (rule at_put_same) (simp add: map_at_def m)
  have "at (containerPath @ [Key ''env'', Idx i]) csv' = Inr (items' ! i)" if "i < length items" for i
    using env [of "[Idx i]"] that setRelatedImage_effect [OF *(3)] by (simp add: at.simps)
  moreover have "at (containerPath @ [Key ''env'', Idx i, Key ''value'']) csv' = bindS (Inr (items' ! i)) (at [Key ''value''])" if "i < length items" for i
    using env [of "[Idx i, Key ''value'']"] that setRelatedImage_effect [OF *(3)] by (simp add: at.simps)
  ultimately show ?thesis using *(1,2) image w [unfolded im] setRelatedImage_effect [OF *(3)]
    by (intro exI [of _ pullSpec] exI [of _ items]) (auto simp: at.simps with_image_def)
qed

lemma removeRelated_effect:
  assumes "removeRelated csv = Inr csv'"
  shows "at [Key ''spec'', Key ''relatedImages''] csv' = Inr YNull \<and> wrote {[Key ''spec'', Key ''relatedImages'']} csv csv'"
proof -
  from assms obtain m where m: "at [Key ''spec''] csv = Inr (YMap m)" "csv' = put [Key ''spec''] (erase ''relatedImages'' (YMap m)) csv"
    by (auto simp: removeRelated_def)
  with at_erase [OF m(1)] show ?thesis by (auto simp: wrote_def)
qed

section \<open>The whole run\<close>

definition releasePaths :: "step list set" where
  "releasePaths = annotationPath ` fst ` set requiredAnnotations \<union> set versionPaths \<union> {[Key ''spec'', Key ''icon''], [Key ''spec'', Key ''relatedImages'']}
     \<union> insert (containerPath @ [Key ''image'']) (range (\<lambda>i. containerPath @ [Key ''env'', Idx i, Key ''value'']))"

definition released :: "string \<Rightarrow> string \<Rightarrow> string \<Rightarrow> string \<Rightarrow> yaml \<Rightarrow> yaml \<Rightarrow> bool" where
  "released old new pullSpec iconData csv csv' \<longleftrightarrow>
     (\<forall>(k, v) \<in> set requiredAnnotations. at (annotationPath k) csv' = Inr (YStr v)) \<and>
     at [Key ''spec'', Key ''version''] csv' = Inr (YStr new) \<and> at [Key ''spec'', Key ''replaces''] csv' = Inr (YStr (''file-integrity-operator.v'' @ old)) \<and>
     (\<exists>name. at [Key ''metadata'', Key ''name''] csv = Inr (YStr name) \<and> at [Key ''metadata'', Key ''name''] csv' = Inr (YStr (Replace1 name old new))) \<and>
     (\<exists>range. at (annotationPath ''olm.skipRange'') csv = Inr (YStr range) \<and>
        at (annotationPath ''olm.skipRange'') csv' = Inr (YStr (Replace1 range old new))) \<and>
     at [Key ''spec'', Key ''icon''] csv' = Inr (iconEntry iconData) \<and> at [Key ''spec'', Key ''relatedImages''] csv' = Inr YNull \<and>
     at (containerPath @ [Key ''image'']) csv' = Inr (YStr pullSpec) \<and>
     (\<exists>items. at (containerPath @ [Key ''env'']) csv = Inr (YSeq items) \<and>
        (\<forall>i m. i < length items \<longrightarrow> items ! i = YMap m \<longrightarrow> related m \<longrightarrow> at (containerPath @ [Key ''env'', Idx i, Key ''value'']) csv' = Inr (YStr pullSpec)) \<and>
        (\<forall>i m. i < length items \<longrightarrow> items ! i = YMap m \<longrightarrow> \<not> related m \<longrightarrow> at (containerPath @ [Key ''env'', Idx i]) csv' = Inr (YMap m))) \<and>
     wrote releasePaths csv csv'"

text \<open>None of the later steps writes where an earlier one did.\<close>

lemmas release_defs = versionPaths_def containerPath_def requiredAnnotations_def feature_def

lemma later_steps:
  assumes "wrote {[Key ''spec'', Key ''icon'']} c2 c3" and "wrote T c3 c4" and "wrote {[Key ''spec'', Key ''relatedImages'']} c4 csv'"
  shows "apart [Key ''spec'', Key ''relatedImages''] p \<Longrightarrow> at p csv' = at p c4"
    and "apart [Key ''spec'', Key ''relatedImages''] p \<Longrightarrow> \<forall>q \<in> T. apart q p \<Longrightarrow> at p csv' = at p c3"
    and "apart [Key ''spec'', Key ''relatedImages''] p \<Longrightarrow> \<forall>q \<in> T. apart q p \<Longrightarrow> apart [Key ''spec'', Key ''icon''] p \<Longrightarrow> at p csv' = at p c2"
  using assms by (simp_all add: wrote_def)

lemma rewriteCSV_released:
  assumes "rewriteCSV old new iconData img translate csv = Inr csv'"
  shows "\<exists>pullSpec d. pullSpecOf img translate = Inr pullSpec \<and> iconData = Some d \<and> released old new pullSpec d csv csv'"
proof -
  let ?imgs = "insert (containerPath @ [Key ''image'']) (range (\<lambda>i. containerPath @ [Key ''env'', Idx i, Key ''value'']))"
  from assms obtain c1 c2 c3 c4 where steps: "addRequiredAnnotations csv = Inr c1" "replaceVersion old new c1 = Inr c2" "replaceIcon iconData c2 = Inr c3"
    "replaceImages img translate c3 = Inr c4" "removeRelated c4 = Inr csv'" by (auto simp: rewriteCSV_def)
  note e1 = addRequiredAnnotations_effect [OF steps(1)] and e5 = removeRelated_effect [OF steps(5)]
  from replaceVersion_effect [OF steps(2)] obtain name skip where e2: "at [Key ''metadata'', Key ''name''] c1 = Inr (YStr name)"
    "at (annotationPath ''olm.skipRange'') c1 = Inr (YStr skip)" "at [Key ''spec'', Key ''version''] c2 = Inr (YStr new)"
    "at [Key ''spec'', Key ''replaces''] c2 = Inr (YStr (''file-integrity-operator.v'' @ old))"
    "at [Key ''metadata'', Key ''name''] c2 = Inr (YStr (Replace1 name old new))"
    "at (annotationPath ''olm.skipRange'') c2 = Inr (YStr (Replace1 skip old new))" "wrote (set versionPaths) c1 c2" by blast
  from replaceIcon_effect [OF steps(3)] obtain d where e3: "iconData = Some d" "at [Key ''spec'', Key ''icon''] c3 = Inr (iconEntry d)"
    "wrote {[Key ''spec'', Key ''icon'']} c2 c3" by blast
  from replaceImages_effect [OF steps(4)] obtain pullSpec items where e4: "pullSpecOf img translate = Inr pullSpec"
    "at (containerPath @ [Key ''env'']) c3 = Inr (YSeq items)" "at (containerPath @ [Key ''image'']) c4 = Inr (YStr pullSpec)"
    "\<forall>i m. i < length items \<longrightarrow> items ! i = YMap m \<longrightarrow> related m \<longrightarrow> at (containerPath @ [Key ''env'', Idx i, Key ''value'']) c4 = Inr (YStr pullSpec)"
    "\<forall>i m. i < length items \<longrightarrow> items ! i = YMap m \<longrightarrow> \<not> related m \<longrightarrow> at (containerPath @ [Key ''env'', Idx i]) c4 = Inr (YMap m)"
    "wrote ?imgs c3 c4" by blast
  note w5 = e5 [THEN conjunct2]
  note later = later_steps [OF e3(3) e4(6) w5]
  have ann: "at (annotationPath k) csv' = Inr (YStr v)" if "(k, v) \<in> set requiredAnnotations" for k v
  proof -
    have "at (annotationPath k) csv' = at (annotationPath k) c2" by (rule later(3)) (auto simp: containerPath_def)
    also have "\<dots> = at (annotationPath k) c1" using that by (intro wroteD [OF e2(7)]) (auto simp: release_defs)
    also have "\<dots> = Inr (YStr v)" using e1 that by auto
    finally show ?thesis .
  qed
  have first: "at p c1 = at p csv" if "\<forall>q \<in> annotationPath ` fst ` set requiredAnnotations. apart q p" for p
    using e1 that by (auto intro: wroteD)
  have "wrote (annotationPath ` fst ` set requiredAnnotations \<union> set versionPaths \<union> {[Key ''spec'', Key ''icon'']} \<union> ?imgs \<union> {[Key ''spec'', Key ''relatedImages'']}) csv csv'"
    using e1 by (intro wrote_trans [OF _ w5] wrote_trans [OF _ e4(6)] wrote_trans [OF _ e3(3)] wrote_trans [OF _ e2(7)]) blast
  then have "wrote releasePaths csv csv'" by (rule back_subst [of "\<lambda>T. wrote T csv csv'"]) (auto simp: releasePaths_def)
  moreover have "at [Key ''metadata'', Key ''name''] csv = Inr (YStr name)" "at (annotationPath ''olm.skipRange'') csv = Inr (YStr skip)"
    using e2(1,2) first by (auto simp: release_defs)
  moreover have "at (containerPath @ [Key ''env'']) csv = Inr (YSeq items)"
    using e4(2) first [of "containerPath @ [Key ''env'']"] wroteD [OF e2(7), of "containerPath @ [Key ''env'']"]
      wroteD [OF e3(3), of "containerPath @ [Key ''env'']"] by (auto simp: release_defs)
  moreover have "at [Key ''spec'', Key ''version''] csv' = Inr (YStr new)" "at [Key ''spec'', Key ''replaces''] csv' = Inr (YStr (''file-integrity-operator.v'' @ old))"
    "at [Key ''metadata'', Key ''name''] csv' = Inr (YStr (Replace1 name old new))" "at (annotationPath ''olm.skipRange'') csv' = Inr (YStr (Replace1 skip old new))"
    using e2(3-6) by (subst later(3); auto simp: containerPath_def)+
  moreover have "at [Key ''spec'', Key ''icon''] csv' = Inr (iconEntry d)"
    using e3(2) by (subst later(2); auto simp: containerPath_def)
  moreover have "at (containerPath @ p) csv' = at (containerPath @ p) c4" for p
    by (rule later(1)) (simp add: containerPath_def)
  ultimately have "released old new pullSpec d csv csv'"
    unfolding released_def using ann e4(3-5) e5 by (auto simp del: append_Cons append_Nil)
  with e3(1) e4(1) show ?thesis by blast
qed

lemma wp_ReadFile [wp_simps]: "wp (ReadFile p) Q s = Q (case fault s ''read'' p of Some e \<Rightarrow> Inl (EIO e)
    | None \<Rightarrow> (case files s p of None \<Rightarrow> Inl ENOENT | Some f \<Rightarrow> if kind f = Directory then Inl (EIO ''is a directory'') else Inr (content f))) s"
  by (simp add: ReadFile_def wp_simps)

lemma wp_ReadDir [wp_simps]: "wp (ReadDir d) Q s = Q (case fault s ''readdir'' (d, []) of Some e \<Rightarrow> Inl (EIO e)
    | None \<Rightarrow> Inr (sort (remdups (map snd (filter (\<lambda>p. fst p = d) (map fst (disk s))))))) s"
  by (simp add: ReadDir_def wp_simps)

text \<open>What happens to the files: nothing, or the input is removed first and the output written after it.\<close>

definition replaced :: "(yaml \<Rightarrow> string option) \<Rightarrow> fpath \<Rightarrow> fpath \<Rightarrow> yaml \<Rightarrow> OS \<Rightarrow> failure + unit \<Rightarrow> OS \<Rightarrow> bool" where
  "replaced encode inp out csv s r s' \<longleftrightarrow> (case r of
       Inr _ \<Rightarrow> \<exists>yamlText. encode csv = Some yamlText \<and> files s' = (files s)(inp := None, out \<mapsto> \<lparr>kind = Regular, content = yamlText, modTime = clock s\<rparr>)
     | Inl e \<Rightarrow> files s' = files s \<or> e = Fatal ''Failed to create file'' \<and> files s' = (files s)(inp := None) \<or>
         e = Fatal ''Failed encode the CSV into yaml'' \<and> (\<exists>part. files s' = (files s)(inp := None, out \<mapsto> part)))"

lemma wp_replaceCSV: "wp (replaceCSV encode inp out csv) (replaced encode inp out csv s) s"
  by (auto simp: replaceCSV_def fatalOn_def Remove_def OpenTruncate_def CopyTo_def wp_simps replaced_def put_file_def drop_file_def
      AList.update_conv' AList.delete_conv' split: option.splits)

definition tool_outcome :: "(string \<Rightarrow> (string \<Rightarrow> yaml option) option) \<Rightarrow> (yaml \<Rightarrow> string option) \<Rightarrow> string list \<Rightarrow> OS \<Rightarrow> failure + unit \<Rightarrow> OS \<Rightarrow> bool" where
  "tool_outcome unmarshal encode args s r s' \<longleftrightarrow> files s' = files s \<and> r \<noteq> Inr () \<or>
     (\<exists>dir old new rest name f doc icon csv'. args = dir # old # new # rest \<and> files s (dir, name) = Some f \<and> HasSuffix name csvSuffix \<and>
        unmarshal (content f) = Some doc \<and> files s iconPath = Some icon \<and>
        rewriteCSV old new (Some (content icon)) (fst (imageArgs rest)) (snd (imageArgs rest)) (YMap doc) = Inr csv' \<and>
        replaced encode (dir, name) (getOutputCSVFilePath dir new) csv' s r s')"

lemma firstCSV_found: "firstCSV dir names = Inr p \<Longrightarrow> \<exists>name. p = (dir, name) \<and> HasSuffix name csvSuffix"
  by (induction dir names rule: firstCSV.induct) (auto split: if_splits)

lemma wp_getInput:
  "wp (getInputCSVFilePath dir) (\<lambda>r s'. s' = s \<and> (\<forall>p. r = Inr p \<longrightarrow> (\<exists>name. p = (dir, name) \<and> HasSuffix name csvSuffix))) s"
  by (auto simp: getInputCSVFilePath_def wp_simps dest: firstCSV_found split: option.splits)

lemma wp_readCSV:
  "wp (readCSV unmarshal p) (\<lambda>r s'. s' = s \<and> (\<forall>csv. r = Inr csv \<longrightarrow>
     (\<exists>f doc. files s p = Some f \<and> unmarshal (content f) = Some doc \<and> csv = YMap doc))) s"
  by (auto simp: readCSV_def wp_simps split: option.splits)

lemma wp_rewrite_and_replace:
  assumes "files s (dir, name) = Some f" and "HasSuffix name csvSuffix" and "unmarshal (content f) = Some doc"
  shows "wp (do { icon \<leftarrow> ReadFile iconPath;
      (case rewriteCSV old new (case icon of Inl _ \<Rightarrow> None | Inr iconData \<Rightarrow> Some iconData) (fst (imageArgs rest)) (snd (imageArgs rest)) (YMap doc) of
         Inl e \<Rightarrow> throw e | Inr csv' \<Rightarrow> replaceCSV encode (dir, name) (getOutputCSVFilePath dir new) csv') })
    (tool_outcome unmarshal encode (dir # old # new # rest) s) s"
proof -
  define data where "data = (case fault s ''read'' iconPath of Some e \<Rightarrow> Inl (EIO e)
    | None \<Rightarrow> (case files s iconPath of None \<Rightarrow> Inl ENOENT | Some f \<Rightarrow> if kind f = Directory then Inl (EIO ''is a directory'') else Inr (content f)))"
  let ?rw = "rewriteCSV old new (case data of Inl _ \<Rightarrow> None | Inr d \<Rightarrow> Some d) (fst (imageArgs rest)) (snd (imageArgs rest)) (YMap doc)"
  have "wp (case ?rw of Inl e \<Rightarrow> throw e | Inr csv' \<Rightarrow> replaceCSV encode (dir, name) (getOutputCSVFilePath dir new) csv')
      (tool_outcome unmarshal encode (dir # old # new # rest) s) s"
  proof (cases ?rw)
    case (Inl e)
    then show ?thesis by (simp add: wp_simps tool_outcome_def)
  next
    case (Inr csv')
    with rewriteCSV_released obtain d where d: "(case data of Inl _ \<Rightarrow> None | Inr d \<Rightarrow> Some d) = Some d" by blast
    then obtain icon where icon: "files s iconPath = Some icon" "d = content icon"
      by (auto simp: data_def split: option.splits if_splits)
    from Inr d have "rewriteCSV old new (Some (content icon)) (fst (imageArgs rest)) (snd (imageArgs rest)) (YMap doc) = Inr csv'"
      by (simp add: icon(2))
    with assms icon(1) show ?thesis unfolding Inr sum.case
      by (auto intro!: wp_conseq [OF wp_replaceCSV] simp: tool_outcome_def)
  qed
  then show ?thesis by (simp add: wp_bind wp_ReadFile data_def)
qed

lemma wp_main: "wp (main_update_csv unmarshal encode args) (tool_outcome unmarshal encode args s) s"
proof (cases "\<exists>dir old new rest. args = dir # old # new # rest")
  case False
  then show ?thesis by (auto simp: main_update_csv_def wp_simps tool_outcome_def split: list.splits)
next
  case True
  then obtain dir old new rest where args: "args = dir # old # new # rest" by blast
  show ?thesis unfolding main_update_csv_def args list.case
  proof (rule wp_bindE_rule [OF wp_getInput], goal_cases)
    case (2 p s')
    then obtain name where name: "p = (dir, name)" "HasSuffix name csvSuffix" "s' = s" by auto
    show ?case unfolding name(1,3)
      by (rule wp_bindE_rule [OF wp_readCSV]) (use name(2) in \<open>auto intro: wp_rewrite_and_replace simp: tool_outcome_def\<close>)
  qed (auto simp: tool_outcome_def)
qed

text \<open>
  C30. A run of the release tool that finishes has replaced the ClusterServiceVersion by the new one. The file it took is one of the manifest
  directory with the right suffix; the written document has the new version, the version it replaces, name and skip range with the old version
  replaced, the required annotations, the icon, the image of the operator in the container and in every \<open>RELATED_IMAGE_OPERATOR\<close> variable, and no list of related images;
  at every other path it is the document that was read. The input is gone, the output is there, and no other file is touched.
\<close>

theorem csv_released:
  assumes "run_state (main_update_csv unmarshal encode args) s = (Inr (), s')"
  shows "\<exists>dir old new rest name f doc icon pullSpec csv' yamlText. args = dir # old # new # rest \<and>
     files s (dir, name) = Some f \<and> HasSuffix name csvSuffix \<and> unmarshal (content f) = Some doc \<and> files s iconPath = Some icon \<and>
     pullSpecOf (fst (imageArgs rest)) (snd (imageArgs rest)) = Inr pullSpec \<and>
     released old new pullSpec (content icon) (YMap doc) csv' \<and> encode csv' = Some yamlText \<and>
     files s' = (files s)((dir, name) := None, getOutputCSVFilePath dir new \<mapsto> \<lparr>kind = Regular, content = yamlText, modTime = clock s\<rparr>)"
proof -
  from wp_run [OF wp_main assms] obtain dir old new rest name f doc icon csv' where *: "args = dir # old # new # rest"
    "files s (dir, name) = Some f" "HasSuffix name csvSuffix" "unmarshal (content f) = Some doc" "files s iconPath = Some icon"
    "rewriteCSV old new (Some (content icon)) (fst (imageArgs rest)) (snd (imageArgs rest)) (YMap doc) = Inr csv'"
    "replaced encode (dir, name) (getOutputCSVFilePath dir new) csv' s (Inr ()) s'" by (auto simp: tool_outcome_def)
  from rewriteCSV_released [OF *(6)] obtain pullSpec where "pullSpecOf (fst (imageArgs rest)) (snd (imageArgs rest)) = Inr pullSpec"
    "released old new pullSpec (content icon) (YMap doc) csv'" by auto
  with * show ?thesis unfolding replaced_def sum.case by blast
qed

text \<open>
  A run of the release tool that does not finish leaves every file as it was, unless it fails while creating or writing the new
  document. Then the ClusterServiceVersion it read has been removed already, and at most a part of the new one is there: the manifest is lost.
\<close>

theorem csv_failure:
  assumes "run_state (main_update_csv unmarshal encode args) s = (Inl e, s')" and "files s' \<noteq> files s"
  shows "\<exists>dir old new rest name f. args = dir # old # new # rest \<and> files s (dir, name) = Some f \<and> HasSuffix name csvSuffix \<and>
     (e = Fatal ''Failed to create file'' \<and> files s' = (files s)((dir, name) := None) \<or>
      e = Fatal ''Failed encode the CSV into yaml'' \<and> (\<exists>part. files s' = (files s)((dir, name) := None, getOutputCSVFilePath dir new \<mapsto> part)))"
  using wp_run [OF wp_main assms(1)] assms(2) unfolding tool_outcome_def replaced_def sum.case by blast

section \<open>A small document\<close>

definition sample_container :: yaml where
  "sample_container = YMap [''name'' \<mapsto> YStr ''operator'', ''image'' \<mapsto> YStr ''img:old'',
     ''env'' \<mapsto> YSeq [YMap [''name'' \<mapsto> YStr ''RELATED_IMAGE_OPERATOR'', ''value'' \<mapsto> YStr ''img:old'']]]"

definition sample_doc :: "string \<Rightarrow> yaml option" where
  "sample_doc = [''kind'' \<mapsto> YStr ''ClusterServiceVersion'',
     ''metadata'' \<mapsto> YMap [''name'' \<mapsto> YStr ''file-integrity-operator.v1.3.3'', ''annotations'' \<mapsto> YMap [''olm.skipRange'' \<mapsto> YStr ''>=1.0.0 <1.3.3'']],
     ''spec'' \<mapsto> YMap [''relatedImages'' \<mapsto> YSeq [], ''install'' \<mapsto> YMap [''spec'' \<mapsto> YMap [''deployments'' \<mapsto> YSeq [YMap [''spec'' \<mapsto> YMap
       [''template'' \<mapsto> YMap [''spec'' \<mapsto> YMap [''containers'' \<mapsto> YSeq [sample_container]]]]]]]]]]"

definition manifest_files :: "(fpath \<times> fentry) list" where
  "manifest_files = [((''m'', ''fio.clusterserviceversion.yaml''), text_file ''old csv'' 1), (iconPath, text_file ''png'' 2)]"

definition manifest_args :: "string list" where
  "manifest_args = [''m'', ''1.3.3'', ''1.3.4'', ''img:new'']"

lemma sample_rewrite: "\<exists>csv'. rewriteCSV ''1.3.3'' ''1.3.4'' (Some ''png'') ''img:new'' False (YMap sample_doc) = Inr csv'"
  by (simp add: rewriteCSV_def addRequiredAnnotations_def replaceVersion_def replaceIcon_def replaceImages_def removeRelated_def
      recoverFromReplaceImages_def pullSpecOf_def release_defs at.simps put.simps child_def sample_doc_def sample_container_def)

lemma sample_tool_run:
  "\<exists>s'. run_state (main_update_csv (\<lambda>_. Some sample_doc) (\<lambda>_. Some ''new csv'') manifest_args) (machine manifest_files) = (Inr (), s')"
  "\<exists>s'. run_state (main_update_csv (\<lambda>_. Some sample_doc) (\<lambda>_. Some ''new csv'') manifest_args)
     ((machine manifest_files)\<lparr>fault := (\<lambda>op _. if op = ''open-write'' then Some ''no space'' else None)\<rparr>) = (Inl (Fatal ''Failed to create file''), s') \<and>
     files s' = [iconPath \<mapsto> text_file ''png'' 2]"
proof -
  obtain csv' where rw: "rewriteCSV ''1.3.3'' ''1.3.4'' (Some ''png'') ''img:new'' False (YMap sample_doc) = Inr csv'" using sample_rewrite by blast
  note defs = main_update_csv_def manifest_args_def getInputCSVFilePath_def ReadDir_def readCSV_def ReadFile_def replaceCSV_def fatalOn_def
    machine_def manifest_files_def text_file_def imageArgs_def HasSuffix_def csvSuffix_def iconPath_def getOutputCSVFilePath_def Remove_def OpenTruncate_def
    CopyTo_def drop_file_def put_file_def bindE_def thenE_def ok_def throw_def
  show "\<exists>s'. run_state (main_update_csv (\<lambda>_. Some sample_doc) (\<lambda>_. Some ''new csv'') manifest_args) (machine manifest_files) = (Inr (), s')"
    using rw by (simp add: defs)
  show "\<exists>s'. run_state (main_update_csv (\<lambda>_. Some sample_doc) (\<lambda>_. Some ''new csv'') manifest_args)
     ((machine manifest_files)\<lparr>fault := (\<lambda>op _. if op = ''open-write'' then Some ''no space'' else None)\<rparr>) = (Inl (Fatal ''Failed to create file''), s') \<and>
     files s' = [iconPath \<mapsto> text_file ''png'' 2]"
    using rw by (simp add: defs)
qed

theorem csv_released_witness:
  "\<exists>s' pullSpec csv'. run_state (main_update_csv (\<lambda>_. Some sample_doc) (\<lambda>_. Some ''new csv'') manifest_args) (machine manifest_files) = (Inr (), s') \<and>
     pullSpec = ''img:new'' \<and> released ''1.3.3'' ''1.3.4'' pullSpec ''png'' (YMap sample_doc) csv'"
proof -
  obtain s' where run: "run_state (main_update_csv (\<lambda>_. Some sample_doc) (\<lambda>_. Some ''new csv'') manifest_args) (machine manifest_files) = (Inr (), s')"
    using sample_tool_run(1) by blast
  from csv_released [OF run] run show ?thesis
    by (auto simp: manifest_args_def imageArgs_def pullSpecOf_def machine_def manifest_files_def text_file_def iconPath_def)
qed

theorem csv_failure_witness:
  "\<exists>s' dir name f. run_state (main_update_csv (\<lambda>_. Some sample_doc) (\<lambda>_. Some ''new csv'') manifest_args)
     ((machine manifest_files)\<lparr>fault := (\<lambda>op _. if op = ''open-write'' then Some ''no space'' else None)\<rparr>) = (Inl (Fatal ''Failed to create file''), s') \<and>
     map_of manifest_files (dir, name) = Some f \<and> HasSuffix name csvSuffix \<and> files s' (dir, name) = None"
proof -
  let ?s = "(machine manifest_files)\<lparr>fault := (\<lambda>op _. if op = ''open-write'' then Some ''no space'' else None)\<rparr>"
  obtain s' where run: "run_state (main_update_csv (\<lambda>_. Some sample_doc) (\<lambda>_. Some ''new csv'') manifest_args) ?s = (Inl (Fatal ''Failed to create file''), s')"
    and after: "files s' = [iconPath \<mapsto> text_file ''png'' 2]" using sample_tool_run(2) by blast
  have "files s' (''m'', ''fio.clusterserviceversion.yaml'') \<noteq> files ?s (''m'', ''fio.clusterserviceversion.yaml'')"
    unfolding after by (simp add: machine_def manifest_files_def iconPath_def)
  then have "files s' \<noteq> files ?s" by metis
  from csv_failure [OF run this] obtain dir name f where f: "files ?s (dir, name) = Some f" "HasSuffix name csvSuffix"
    "files s' = (files ?s)((dir, name) := None)" by auto
  then have "map_of manifest_files (dir, name) = Some f" "files s' (dir, name) = None" by (simp_all add: machine_def)
  with run f(2) show ?thesis by blast
qed

end
