(* ===== verification/Spec2Isabelle.thy ===== *)
theory Spec2Isabelle
  imports Watches CM_Properties Status_Properties Node_Properties Log_Properties File_Properties Daemon_Properties Daemon_Start Operator_Run Metrics_Server Bundle_Properties
begin

text \<open>
  The File Integrity Operator: a verification library.

  \<^bold>\<open>The program.\<close> The operator watches \<open>FileIntegrity\<close> objects and has AIDE, a file integrity checker, run on the nodes they select. It has two
  halves that meet only in the objects of the API server. The \<^emph>\<open>operator\<close> process runs four controllers:

  \<^item> the FileIntegrity controller renders AIDE's configuration into a config map, the daemon that runs AIDE into a daemon set, and
    requested re-initialisations into short-lived daemon sets, marking the config map for the node;
  \<^item> the config map controller finishes a re-initialisation when its daemon set is ready, and turns the log config maps that daemons
    upload into \<open>FileIntegrityNodeStatus\<close> objects, failure logs, metrics and events;
  \<^item> the status controller sums up node statuses and daemon sets into the phase of the FileIntegrity;
  \<^item> the node controller holds scans off while a node is updated and requests a re-initialisation afterwards.

  The \<^emph>\<open>daemon\<close> process, one per node, is a set of goroutines that share a lock on AIDE's files, two flags and a channel of
  results: the scan loop, the initialisation loop, the hold-off loop, the instance loop and the log collector, which uploads results as log config maps.

  \<^bold>\<open>Theories and sources.\<close> Paths are below \<open>src/\<close>; \<open>pkg/c\<close> stands for \<open>pkg/controller\<close>, \<open>cmd\<close> for \<open>cmd/manager\<close>.

  \<^item> \<open>Prelude\<close>: Go's strings, maps that may be \<open>nil\<close>, 64-bit wrap-around, weakest preconditions for the state monad.
  \<^item> \<open>Kube_Types\<close>: \<open>pkg/apis/fileintegrity/v1alpha1/fileintegrity_types.go\<close> and the fields used of the Kubernetes types; errors as the datatype \<open>error\<close>, with a panic of Go as one of them.
  \<^item> \<open>Common\<close>, \<open>Node_Lists\<close>, \<open>Names\<close>, \<open>Restart\<close>: \<open>pkg/common\<close>: constants, annotations that list nodes, names (with SHA-1 on 32-bit words), pod restarts.
  \<^item> \<open>Metrics\<close>, \<open>Metrics_Server\<close>: \<open>pkg/c/metrics/metrics.go\<close>, counters and the gauge per node as functions of their labels, and the wait for the certificate before the metrics are served.
  \<^item> \<open>Client\<close>, \<open>Backoff\<close>: the API server and \<open>backoff.Retry\<close> as the code uses them.
  \<^item> \<open>Aide_Config\<close>: \<open>pkg/c/fileintegrity/config.go\<close> and \<open>config_defaults.go\<close>.
  \<^item> \<open>DaemonSets\<close>, \<open>FI_Controller\<close>, \<open>FI_Properties\<close>: \<open>pkg/c/fileintegrity/fileintegrity_controller.go\<close>; \<open>FileIntegrityControllerReconcile\<close> is the whole reconcile.
  \<^item> \<open>ConfigMap_Controller\<close>, \<open>CM_Properties\<close>: \<open>pkg/c/configmap/configmap_controller.go\<close>, \<open>ConfigMapReconcile\<close>.
  \<^item> \<open>Status_Controller\<close>, \<open>Status_Properties\<close>: \<open>pkg/c/status/status_controller.go\<close>, \<open>StatusReconcile\<close>.
  \<^item> \<open>Node_Controller\<close>, \<open>Node_Properties\<close>: \<open>pkg/c/node/node_controller.go\<close>, \<open>NodeControllerReconcile\<close>.
  \<^item> \<open>Log_Collector\<close>, \<open>Log_Properties\<close>: \<open>cmd/logcollector.go\<close> and \<open>logcollector_util.go\<close>: counts from AIDE's log, compression, report config maps and their upload.
  \<^item> \<open>Daemon_Files\<close>, \<open>File_Properties\<close>: \<open>cmd/daemon_util.go\<close> and \<open>handleAIDEInit\<close> of \<open>cmd/loops.go\<close>, over a file system whose calls may fail.
  \<^item> \<open>Daemon\<close>, \<open>Daemon_Properties\<close>: the goroutines of \<open>cmd/loops.go\<close>, \<open>cmd/logcollector.go\<close> and \<open>cmd/daemon.go\<close> as one inductive step relation each; \<open>dstep\<close> interleaves them.
  \<^item> \<open>Daemon_Config\<close>, \<open>Daemon_Start\<close>: flags and clients of the daemon, \<open>cmd/daemon.go\<close>, and the reclaim of page cache.
  \<^item> \<open>Operator_Setup\<close>, \<open>Operator_Properties\<close>, \<open>Operator_Run\<close>: \<open>cmd/operator.go\<close>: \<open>RunOperator\<close> with metrics service, secrets, ServiceMonitor and alert.
  \<^item> \<open>Bundle_CSV\<close>, \<open>Bundle_Properties\<close>: \<open>bundle-hack/update_csv.go\<close>, the release tool.
  \<^item> \<open>System\<close>: the operator as a whole. \<open>sys_step\<close> interleaves the reconciles of the four controllers, the reports of the daemons, restarts of the operator and changes from outside.
  \<^item> \<open>Watches\<close>: the watches each controller registers (\<open>addFileIntegrityController\<close> and its counterparts), and the requests the manager derives from a change of an object.

  \<^bold>\<open>State and operations.\<close> A controller's state is the \<open>world\<close>: the objects per kind, the metrics and the emitted events. Every operation is a
  function in the state monad with the name it has in the source; an operation that returns a value and an error has the type \<open>error + 'a\<close>, one that returns only an error \<open>error option\<close>.
  Each return, error and panic of the source is a branch. The state of the daemon is the record \<open>daemonState\<close>: the program point of each goroutine and what they share.

  \<^bold>\<open>What is assumed of other code.\<close> The API server: locale \<open>kube_api\<close> (reads return what is stored, a successful write
  stores the object up to the fields the server owns, an update that submits the stored phase keeps it, a failed call changes nothing; any call may fail; setting the owner of an object makes the FileIntegrity its controller), and \<open>monitoring_api\<close> for the typed clients of the set-up. The flag
  library: \<open>flag_parser\<close>. \<open>sort.Slice\<close>: \<open>slice_sort\<close>. Each is interpreted on a concrete provider, which also serves the witnesses. AIDE's runs, gzip, the YAML library, the manager and
  the client libraries are arguments about which nothing is assumed.

  \<^bold>\<open>What is shown.\<close>

  \<^item> \<^emph>\<open>Controllers\<close>: a successful reconcile leaves configuration, scripts and daemon set as the FileIntegrity asks (\<open>reconcile_converges\<close>), whatever fails only objects of that
    FileIntegrity are touched and no reconcile panics (\<open>reconcile_safe\<close> and its counterparts for the other controllers); updating a daemon set in place is refined by rendering it anew (\<open>updateDS_renders\<close>);
    logs are not lost and node statuses keep one result per condition with the newest last (\<open>log_not_lost\<close>, \<open>configmap_reconcile_invariant\<close>, \<open>status_merge_invariant\<close>);
    a status reconcile stores the phase called for (\<open>status_reports_phase\<close>), recording a result sets the gauge of the node by the last result (\<open>gauge_follows_status\<close>), a node update leaves the
    hold-off list as it was and asks for a re-init, where the lists are well-formed and the node is new to them (\<open>node_update_cycle\<close>).
  \<^item> \<^emph>\<open>Daemon\<close>: scans, initialisation and upload exclude each other (\<open>daemon_invariant\<close>, by rule induction over the reachable states),     once cancelled its loops come to rest within 541 steps, and then the process has exited or a loop is blocked in one of three ways (\<open>shutdown_terminates\<close>), which nothing ends
    when the main routine no longer receives errors, the instance could not be fetched, or the collector does not receive (\<open>daemon_hangs_in_shutdown\<close>);
    a successful initialisation has removed the triggers, run AIDE, installed its database and kept the old one (\<open>init_installs_database\<close>),
    the database is not lost and backups are pruned to the newest (\<open>database_not_lost\<close>, \<open>prune_keeps_newest\<close>), log config maps stay below the size limit, the counts are the first ones the log has (\<open>counts_match\<close>).
  \<^item> \<^emph>\<open>Across components\<close>: what a daemon reports is in the node status after the config map controller handled the report (\<open>scan_result_reaches_status\<close>); a requested re-initialisation runs its course over two controllers
    (\<open>reinit_cycle\<close>, in this theory); the daemon reads back what the operator wrote on its command line (\<open>daemon_reads_its_arguments\<close>); both sides agree on held-off nodes; the operator starts its controllers only fully set up, with an alert
    about a metric it registers (\<open>operator_starts_complete\<close>). In every state that all of them together can reach from a fresh installation no reconcile of any controller panics, the
    statuses are well-formed and the gauge is 0 or 1 (\<open>operator_never_panics\<close>, by rule induction over \<open>reachable_world\<close>); a change of a node status is always a request for the
    FileIntegrity whose phase depends on it (\<open>status_changes_are_seen\<close>), and a deleted daemon set comes back over two controllers (\<open>deleted_daemonset_returns\<close>).
  \<^item> \<^emph>\<open>Release tool\<close>: a finished run changes exactly the intended paths of the document (\<open>csv_released\<close>).
  \<^item> \<^emph>\<open>Defects\<close>: where the code does not do what it means to, a theorem shows it, for instance \<open>gone_node_blocks_reinits\<close>, \<open>node_release_loses_reinit\<close>, \<open>collector_gone_blocks_scans\<close>, \<open>daemon_hangs_in_shutdown\<close>, \<open>emptied_config_panics\<close>, \<open>shared_gauge_hides_failure\<close>, \<open>status_names_clash\<close>, \<open>csv_failure\<close>.

  \<^bold>\<open>Bounds and termination.\<close> Loops over lists and maps are structural recursions; the order in which Go ranges over a map is an argument where it matters. \<open>Retry\<close> counts down the
  retries the source allows (5 uploads, 10 set-up and configuration attempts), with an argument for when the back-off gives up earlier, so no fuel is needed; the wait for the certificate has only a limit of time and is a partial function, shown to return (\<open>metrics_server_waits\<close>). The result channel holds 50 entries, as in the source. The endless loops of the daemon are steps of a
  transition system. Integers are unbounded except where a value can reach the width of its type: the initial delay (64-bit durations wrap) and SHA-1. The number of backups to keep is one of the unbounded ones:
  the difference from the number of backups wraps only for limits next to the lowest 64-bit integer.

  \<^bold>\<open>Not modelled.\<close> Generated deep copies (values are copied by nature here) and test fakes; the queue of the manager between a request and its reconcile, leader election, the operator's flags and options; the
  HTTPS server behind \<open>Start\<close>; logging, profiling and the garbage collector; \<open>BlockOwnerDeletion\<close> of owner references; file modes, links and devices. Within one reconcile reads are taken to be
  up to date and no other writer interferes; between reconciles anything may happen that a theorem does not exclude by name. This matters for the absence of panics: \<open>emptied_config_panics\<close> shows
  that a reconcile can panic when another client empties the AIDE config map between two of its reads.
\<close>

section \<open>A re-init across two controllers\<close>

text \<open>Marking a node and taking the last node off the mark again.\<close>

lemma marked_updatedNodes:
  assumes "node \<noteq> ''''" and "comma \<notin> set node"
  shows "updatedNodes (marked old node) = (node, (case old of None \<Rightarrow> [] | Some l \<Rightarrow> Split comma l) @ [node])"
proof (cases old)
  case None
  with assms show ?thesis by (simp add: updatedNodes_def marked_def Split_no_sep)
next
  case (Some l)
  let ?j = "Join (Split comma l @ [node]) [comma]"
  have split: "Split comma ?j = Split comma l @ [node]"
    using assms(2) by (intro Split_Join) (auto dest: Split_parts_no_sep)
  have "?j \<noteq> ''''"
  proof
    assume "?j = ''''"
    with split have "last (Split comma l @ [node]) = ''''" by (metis Split.simps(1) last_ConsL)
    with assms(1) show False by simp
  qed
  with split Some assms(1) show ?thesis by (simp add: updatedNodes_def marked_def Let_def)
qed

lemma popped_mark: "popped ((case old of None \<Rightarrow> [] | Some l \<Rightarrow> Split comma l) @ [node]) = old"
  by (cases old) (simp_all add: popped_def)

context kube_api
begin

text \<open>A config map controller reconcile of a marked AIDE config map that does not fail.\<close>

lemma configmap_reconcile_marked:
  assumes "lookup (ConfigMaps w) k = Some cm" and "IsAideConfig (Labels cm)" and "mget (Labels cm) IntegrityOwnerLabelKey = Some owner"
    and "mget (Annotations cm) AideConfigUpdatedAnnotationKey = Some v" and "updatedNodes v = (node, nodeList)"
    and "run_state (ConfigMapReconcile cl env k) w = (Inr res, w')"
  shows "\<exists>fi. lookup (FileIntegrities w) (Namespace cm, owner) = Some fi \<and> marked_handled env cm fi node nodeList w (Inr res) w'"
proof -
  have "wp (ConfigMapReconcile cl env k) (\<lambda>r w'. \<forall>res. r = Inr res \<longrightarrow>
      (\<exists>fi. lookup (FileIntegrities w) (Namespace cm, owner) = Some fi \<and> marked_handled env cm fi node nodeList w (Inr res) w')) w"
    unfolding ConfigMapReconcile_def wp_bind
  proof (rule cm.wp_Get, goal_cases)
    case (1 e)
    with assms(1) show ?case by (auto simp: wp_simps)
  next
    case (2 obj)
    with assms(1) have "obj = cm" by simp
    with assms(2) show ?case
      by (auto intro!: wp_conseq [OF wp_reconcileAideConf [OF assms(4,5,3)]])
  qed
  from wp_run [OF this assms(6)] show ?thesis by blast
qed

text \<open>
  The state the FileIntegrity controller leaves for the config map controller: the config map marked for the node,
  with its labels, and the daemon set as the node calls for.
\<close>

lemma reinit_handed_over:
  assumes "lookup (ConfigMaps w) (conf_key env inst) = Some cm" and "mget (Data cm) DefaultConfDataKey \<noteq> None" and "nsname conf = conf_key env inst"
    and "IsAideConfig (Labels cm)" and "mget (Labels cm) IntegrityOwnerLabelKey = Some (Name inst)"
    and "pickNode inst False = Inr (node, True)" and "node \<noteq> ''''" and "\<not> already_marked (mget (Annotations cm) AideConfigUpdatedAnnotationKey) node"
    and "run_state (reconcileReinit cl env inst img conf False) w = (Inr stop, w1)"
  shows "\<exists>cm1. lookup (ConfigMaps w1) (conf_key env inst) = Some cm1 \<and> IsAideConfig (Labels cm1) \<and>
     mget (Labels cm1) IntegrityOwnerLabelKey = Some (Name inst) \<and>
     mget (Annotations cm1) AideConfigUpdatedAnnotationKey = Some (marked (mget (Annotations cm) AideConfigUpdatedAnnotationKey) node) \<and>
     mget (Data cm1) DefaultConfDataKey = mget (Data cm) DefaultConfDataKey \<and>
     (if lookup (Nodes w) ('''', node) = None then lookup (DaemonSets w1) (reinit_key env inst node) = lookup (DaemonSets w) (reinit_key env inst node)
      else lookup (DaemonSets w1) (reinit_key env inst node) \<noteq> None)"
proof -
  have "reinit_done env inst False w (Inr stop) w1" by (rule wp_run [OF wp_reconcileReinit [OF assms(1-3)] assms(9)])
  then obtain cm1 where cm1: "lookup (ConfigMaps w1) (conf_key env inst) = Some cm1" "marks cm cm1 node"
      "mget (Data cm1) DefaultConfDataKey = mget (Data cm) DefaultConfDataKey"
    and ds: "lookup (DaemonSets w1) (reinit_key env inst node) \<noteq> None \<or> node \<noteq> '''' \<and> lookup (Nodes w) ('''', node) = None"
      "node \<noteq> '''' \<and> lookup (Nodes w) ('''', node) = None \<longrightarrow>
        lookup (DaemonSets w1) (reinit_key env inst node) = lookup (DaemonSets w) (reinit_key env inst node)"
    using assms(1,6) by (auto simp: reinit_done_def)
  then show ?thesis using assms(4,5,7,8)
    by (intro exI [of _ cm1]) (auto simp: marks_def Let_def IsAideConfig_def)
qed

lemma reinit_taken_over:
  assumes "lookup (ConfigMaps w) (conf_key env inst) = Some cm" and "mget (Data cm) DefaultConfDataKey \<noteq> None" and "nsname conf = conf_key env inst"
    and "IsAideConfig (Labels cm)" and "mget (Labels cm) IntegrityOwnerLabelKey = Some (Name inst)"
    and "pickNode inst False = Inr (node, True)" and "node \<noteq> []" and "\<not> already_marked (mget (Annotations cm) AideConfigUpdatedAnnotationKey) node"
    and "run_state (reconcileReinit cl env inst img conf False) w = (Inr stop, w1)"
    and "lookup (ConfigMaps w2) (conf_key env inst) = lookup (ConfigMaps w1) (conf_key env inst)"
    and "run_state (ConfigMapReconcile cl env (conf_key env inst)) w2 = (Inr res, w3)"
  shows "\<exists>cm1 fi. lookup (ConfigMaps w2) (conf_key env inst) = Some cm1 \<and> nsname cm1 = conf_key env inst \<and> Name fi = Name inst \<and>
     mget (Annotations cm1) AideConfigUpdatedAnnotationKey = Some (marked (mget (Annotations cm) AideConfigUpdatedAnnotationKey) node) \<and>
     mget (Data cm1) DefaultConfDataKey = mget (Data cm) DefaultConfDataKey \<and>
     marked_handled env cm1 fi node ((case mget (Annotations cm) AideConfigUpdatedAnnotationKey of None \<Rightarrow> [] | Some l \<Rightarrow> Split comma l) @ [node])
       w2 (Inr res) w3"
proof -
  from reinit_handed_over [OF assms(1-9)] obtain cm1 where cm1: "lookup (ConfigMaps w2) (conf_key env inst) = Some cm1"
    "IsAideConfig (Labels cm1)" "mget (Labels cm1) IntegrityOwnerLabelKey = Some (Name inst)"
    "mget (Annotations cm1) AideConfigUpdatedAnnotationKey = Some (marked (mget (Annotations cm) AideConfigUpdatedAnnotationKey) node)"
    and data: "mget (Data cm1) DefaultConfDataKey = mget (Data cm) DefaultConfDataKey"
    by (auto simp: assms(10))
  have nc: "comma \<notin> set node" using pickNode_total [of inst False] assms(6) by auto
  from configmap_reconcile_marked [OF cm1 marked_updatedNodes [OF assms(7) nc] assms(11)] obtain fi
    where fi: "lookup (FileIntegrities w2) (Namespace cm1, Name inst) = Some fi"
      "marked_handled env cm1 fi node ((case mget (Annotations cm) AideConfigUpdatedAnnotationKey of None \<Rightarrow> [] | Some l \<Rightarrow> Split comma l) @ [node]) w2 (Inr res) w3"
    by blast
  have "Name fi = Name inst" "nsname cm1 = conf_key env inst"
    using lookup_nsname [OF fi(1)] lookup_nsname [OF cm1(1)] by (simp_all add: nsname_def)
  with fi(2) cm1(1,4) data show ?thesis by blast
qed

end

text \<open>The config map after the request for the node \<open>n9\<close>, with and without the node.\<close>

definition n9 :: Node where
  "n9 = \<lparr>Name = ''n9'', Namespace = '''', Labels = Some [''kubernetes.io/hostname'' \<mapsto> ''n9''], Annotations = None, OwnerReferences = [],
     CreationTimestamp = 0, UID = ''''\<rparr>"

lemma request_run:
  assumes "ns \<in> {[], [n9]}"
  shows "\<exists>w1. run_state (reconcileReinit (mem_client no_faults) sample_env (request_fi ''n9'') ''img:1'' (defaultAIDEConfigMap sample_env ''f'') False)
      (request_world ''n9''\<lparr>Nodes := ns\<rparr>) = (Inr False, w1) \<and> lookup (ConfigMaps w1) (''ns'', ''f'') = Some (marked_cm ''n9'')"
proof -
  have val: "mval (Data (defaultAIDEConfigMap sample_env ''f'')) DefaultConfDataKey = GetAideConfigDefault sample_env"
    by (simp add: defaultAIDEConfigMap_def mval_def)
  have "\<exists>w1. run_state (reconcileReinit (mem_client no_faults) sample_env (request_fi ''n9'') ''img:1'' (defaultAIDEConfigMap sample_env ''f'') False)
      (request_world ''n9''\<lparr>Nodes := ns\<rparr>) = (Inr False, w1) \<and> ConfigMaps w1 = [aideReinitScript sample_env, aidePauseScript sample_env, marked_cm ''n9'']"
    using assms val by (elim insertE emptyE)
      (simp_all add: reinit_eval pick_request run_simps request_world_def sample_world_def defaultAIDEConfigMap_def marked_cm_def n9_def)
  then show ?thesis by (auto simp: nsname_def AideReinitScriptConfigMapName_def PauseConfigMapName_def)
qed

text \<open>What the config map controller makes of it.\<close>

definition n9_ds :: DaemonSet where
  "n9_ds = ready_ds\<lparr>Name := ReinitDaemonSetNodeName ''f'' ''n9''\<rparr>"

definition handed_world :: "DaemonSet list \<Rightarrow> world" where
  "handed_world dl = sample_world\<lparr>ConfigMaps := [marked_cm ''n9''], DaemonSets := dl\<rparr>"

lemma handed_world_sel:
  "lookup (ConfigMaps (handed_world dl)) (''ns'', ''f'') = Some (marked_cm ''n9'')" "DaemonSets (handed_world dl) = dl"
  "nsname n9_ds = (''ns'', ReinitDaemonSetNodeName ''f'' ''n9'')" "DaemonSetIsReady n9_ds"
  by (simp_all add: handed_world_def nsname_def n9_ds_def ready_ds_def reinitAideDaemonset_def DaemonSetIsReady_def Let_def)

lemma handed_run:
  "run_state (ConfigMapReconcile (mem_client no_faults) sample_env (''ns'', ''f'')) (handed_world []) = (Inr Again, handed_world [])"
  "\<exists>w3. run_state (ConfigMapReconcile (mem_client no_faults) sample_env (''ns'', ''f'')) (handed_world [n9_ds]) = (Inr Done, w3)"
proof -
  have cm: "IsAideConfig (Labels (marked_cm ''n9''))" "GetConfigMapOwnerName (marked_cm ''n9'') = Inr ''f''" "updatedNodes ''n9'' = (''n9'', [''n9''])"
    by (simp_all add: IsAideConfig_def marked_cm_def defaultAIDEConfigMap_def GetConfigMapOwnerName_def mval_def key_defs updatedNodes_def)
  have ds: "Name n9_ds = ReinitDaemonSetNodeName ''f'' ''n9''" "Namespace n9_ds = ''ns''" by (simp_all add: n9_ds_def)
  show "run_state (ConfigMapReconcile (mem_client no_faults) sample_env (''ns'', ''f'')) (handed_world []) = (Inr Again, handed_world [])"
    by (simp add: ConfigMapReconcile_def cm reconcileAideConfAndHandleReinitDs_def finishReinit_def handed_world_def sample_world_def run_simps)
  show "\<exists>w3. run_state (ConfigMapReconcile (mem_client no_faults) sample_env (''ns'', ''f'')) (handed_world [n9_ds]) = (Inr Done, w3)"
    by (simp add: ConfigMapReconcile_def cm ds handed_world_sel(4) reconcileAideConfAndHandleReinitDs_def finishReinit_def mdelete_def handed_world_def
        sample_world_def run_simps)
qed

lemma sample_conf_map:
  "mget (Data (defaultAIDEConfigMap sample_env ''f'')) DefaultConfDataKey \<noteq> None" "nsname (defaultAIDEConfigMap sample_env ''f'') = (''ns'', ''f'')"
  "IsAideConfig (Labels (defaultAIDEConfigMap sample_env ''f''))"
  "mget (Labels (defaultAIDEConfigMap sample_env ''f'')) IntegrityOwnerLabelKey = Some ''f''"
  "mget (Annotations (defaultAIDEConfigMap sample_env ''f'')) AideConfigUpdatedAnnotationKey = None"
  by (simp_all add: defaultAIDEConfigMap_def nsname_def IsAideConfig_def key_defs)

text \<open>
  C9. A requested re-init of a node runs its course over both controllers. The FileIntegrity controller creates the re-init daemon set
  and hands the node over by marking the AIDE config map. Once the daemon set is ready, and with the config map as it was
  left, whatever else has happened to the cluster meanwhile, a reconcile by the config map controller that succeeds removes the daemon set and takes exactly this node off the mark: the
  mark and the configuration are what they were before the request.
\<close>

theorem reinit_cycle:
  assumes "kube_api cl" and "lookup (ConfigMaps w) (conf_key env inst) = Some cm" and "mget (Data cm) DefaultConfDataKey \<noteq> None"
    and "nsname conf = conf_key env inst" and "IsAideConfig (Labels cm)" and "mget (Labels cm) IntegrityOwnerLabelKey = Some (Name inst)"
    and "pickNode inst False = Inr (node, True)" and "node \<noteq> ''''" and "\<not> already_marked (mget (Annotations cm) AideConfigUpdatedAnnotationKey) node"
    and "lookup (Nodes w) ('''', node) \<noteq> None" and "run_state (reconcileReinit cl env inst img conf False) w = (Inr stop, w1)"
    and "lookup (ConfigMaps w2) (conf_key env inst) = lookup (ConfigMaps w1) (conf_key env inst)"
    and "lookup (DaemonSets w2) (reinit_key env inst node) = Some ds" and "DaemonSetIsReady ds"
    and "run_state (ConfigMapReconcile cl env (conf_key env inst)) w2 = (Inr res, w3)"
  shows "lookup (DaemonSets w1) (reinit_key env inst node) \<noteq> None \<and> res = Done \<and> lookup (DaemonSets w3) (reinit_key env inst node) = None \<and>
     (\<exists>cm3. lookup (ConfigMaps w3) (conf_key env inst) = Some cm3 \<and>
        mget (Annotations cm3) AideConfigUpdatedAnnotationKey = mget (Annotations cm) AideConfigUpdatedAnnotationKey \<and>
        mget (Data cm3) DefaultConfDataKey = mget (Data cm) DefaultConfDataKey)"
proof -
  have "lookup (DaemonSets w1) (reinit_key env inst node) \<noteq> None"
    using kube_api.reinit_handed_over [OF assms(1-9) assms(11)] assms(10) by auto
  moreover obtain cm1 fi where "nsname cm1 = conf_key env inst" "Name fi = Name inst" "mget (Data cm1) DefaultConfDataKey = mget (Data cm) DefaultConfDataKey"
    "marked_handled env cm1 fi node ((case mget (Annotations cm) AideConfigUpdatedAnnotationKey of None \<Rightarrow> [] | Some l \<Rightarrow> Split comma l) @ [node])
       w2 (Inr res) w3"
    using kube_api.reinit_taken_over [OF assms(1-9) assms(11,12,15)] by blast
  ultimately show ?thesis using assms(13,14) by (auto simp: marked_handled_def popped_mark)
qed

theorem reinit_cycle_witness:
  "\<exists>w1 w3 cm3. run_state (reconcileReinit (mem_client no_faults) sample_env (request_fi ''n9'') ''img:1'' (defaultAIDEConfigMap sample_env ''f'') False)
        (request_world ''n9''\<lparr>Nodes := [n9]\<rparr>) = (Inr False, w1) \<and>
     run_state (ConfigMapReconcile (mem_client no_faults) sample_env (''ns'', ''f'')) (handed_world [n9_ds]) = (Inr Done, w3) \<and>
     lookup (DaemonSets w3) (''ns'', ReinitDaemonSetNodeName ''f'' ''n9'') = None \<and>
     lookup (ConfigMaps w3) (''ns'', ''f'') = Some cm3 \<and> mget (Annotations cm3) AideConfigUpdatedAnnotationKey = None"
proof -
  let ?w = "request_world ''n9''\<lparr>Nodes := [n9]\<rparr>" let ?cm = "defaultAIDEConfigMap sample_env ''f''"
  obtain w1 where run1: "run_state (reconcileReinit (mem_client no_faults) sample_env (request_fi ''n9'') ''img:1'' ?cm False) ?w = (Inr False, w1)"
    and cm1: "lookup (ConfigMaps w1) (''ns'', ''f'') = Some (marked_cm ''n9'')" using request_run [of "[n9]"] by auto
  obtain w3 where run3: "run_state (ConfigMapReconcile (mem_client no_faults) sample_env (''ns'', ''f'')) (handed_world [n9_ds]) = (Inr Done, w3)"
    using handed_run(2) by blast
  have "lookup (Nodes ?w) ('''', ''n9'') \<noteq> None" by (simp add: n9_def nsname_def)
  with reinit_cycle [OF mem.kube_api_axioms, of ?w sample_env "request_fi ''n9''" ?cm ?cm "''n9''" "''img:1''" False w1 "handed_world [n9_ds]" n9_ds Done w3]
    run1 cm1 run3 sample_conf_map handed_world_sel show ?thesis by (auto simp: pick_request request_lookup already_marked_def)
qed

text \<open>
  C31. A requested re-init of a node that is gone never ends, and holds up the others: the FileIntegrity controller creates no daemon set but
  marks the AIDE config map all the same, and as long as there is none every reconcile by the config map controller that does not fail
  only asks to be repeated and leaves the mark, with the nodes marked before it, as it is.
\<close>

theorem gone_node_blocks_reinits:
  assumes "kube_api cl" and "lookup (ConfigMaps w) (conf_key env inst) = Some cm" and "mget (Data cm) DefaultConfDataKey \<noteq> None"
    and "nsname conf = conf_key env inst" and "IsAideConfig (Labels cm)" and "mget (Labels cm) IntegrityOwnerLabelKey = Some (Name inst)"
    and "pickNode inst False = Inr (node, True)" and "node \<noteq> ''''" and "\<not> already_marked (mget (Annotations cm) AideConfigUpdatedAnnotationKey) node"
    and "lookup (Nodes w) ('''', node) = None" and "lookup (DaemonSets w) (reinit_key env inst node) = None"
    and "run_state (reconcileReinit cl env inst img conf False) w = (Inr stop, w1)"
    and "lookup (ConfigMaps w2) (conf_key env inst) = lookup (ConfigMaps w1) (conf_key env inst)"
    and "lookup (DaemonSets w2) (reinit_key env inst node) = None"
    and "run_state (ConfigMapReconcile cl env (conf_key env inst)) w2 = (Inr res, w3)"
  shows "lookup (DaemonSets w1) (reinit_key env inst node) = None \<and> res = Again \<and> ConfigMaps w3 = ConfigMaps w2 \<and>
     (\<exists>cm3. lookup (ConfigMaps w3) (conf_key env inst) = Some cm3 \<and>
        mget (Annotations cm3) AideConfigUpdatedAnnotationKey = Some (marked (mget (Annotations cm) AideConfigUpdatedAnnotationKey) node))"
proof -
  have "lookup (DaemonSets w1) (reinit_key env inst node) = None"
    using kube_api.reinit_handed_over [OF assms(1-9) assms(12)] assms(10,11) by auto
  moreover obtain cm1 fi where "lookup (ConfigMaps w2) (conf_key env inst) = Some cm1" "Name fi = Name inst"
    "mget (Annotations cm1) AideConfigUpdatedAnnotationKey = Some (marked (mget (Annotations cm) AideConfigUpdatedAnnotationKey) node)"
    "marked_handled env cm1 fi node ((case mget (Annotations cm) AideConfigUpdatedAnnotationKey of None \<Rightarrow> [] | Some l \<Rightarrow> Split comma l) @ [node])
       w2 (Inr res) w3"
    using kube_api.reinit_taken_over [OF assms(1-9) assms(12,13,15)] by blast
  ultimately show ?thesis using assms(14) by (auto simp: marked_handled_def)
qed

theorem gone_node_blocks_reinits_witness:
  "\<exists>w1. run_state (reconcileReinit (mem_client no_faults) sample_env (request_fi ''n9'') ''img:1'' (defaultAIDEConfigMap sample_env ''f'') False)
        (request_world ''n9''\<lparr>Nodes := []\<rparr>) = (Inr False, w1) \<and> lookup (DaemonSets w1) (''ns'', ReinitDaemonSetNodeName ''f'' ''n9'') = None \<and>
     run_state (ConfigMapReconcile (mem_client no_faults) sample_env (''ns'', ''f'')) (handed_world []) = (Inr Again, handed_world [])"
proof -
  let ?w = "request_world ''n9''\<lparr>Nodes := []\<rparr>" let ?cm = "defaultAIDEConfigMap sample_env ''f''"
  obtain w1 where run1: "run_state (reconcileReinit (mem_client no_faults) sample_env (request_fi ''n9'') ''img:1'' ?cm False) ?w = (Inr False, w1)"
    and cm1: "lookup (ConfigMaps w1) (''ns'', ''f'') = Some (marked_cm ''n9'')" using request_run [of "[]"] by auto
  from gone_node_blocks_reinits [OF mem.kube_api_axioms, of ?w sample_env "request_fi ''n9''" ?cm ?cm "''n9''" "''img:1''" False w1 "handed_world []" Again "handed_world []"]
    run1 cm1 handed_run(1) sample_conf_map handed_world_sel show ?thesis by (auto simp: pick_request request_lookup already_marked_def)
qed

end
